(* ===== verification/Zta_Prelude.thy ===== *)
theory Zta_Prelude
  imports Main "HOL-Library.Char_ord" "HOL-Library.List_Lexorder" "HOL-Library.Word"
begin

text \<open>
  Shared vocabulary of the development: Go strings as byte lists, the string
  functions of the standard library that the program calls, Go maps as sorted
  association lists, decimal printing and reading of integers, and the fact
  collections the component theories use.
\<close>

section \<open>Bytes and strings\<close>

text \<open>
  A Go \<open>string\<close> and a \<open>[]byte\<close> are both sequences of bytes; \<^typ>\<open>char\<close> has exactly
  256 values, so \<^typ>\<open>string\<close> models them without loss.  \<open>byte_of\<close> reads a byte.
\<close>

named_theorems go_str \<open>characteristic facts of the string functions\<close>
named_theorems gmap_simps \<open>lookups and updates of maps\<close>
named_theorems num_simps \<open>decimal numbers\<close>

abbreviation byte_of :: "char \<Rightarrow> nat" where
  "byte_of c \<equiv> of_char c"

abbreviation byte :: "nat \<Rightarrow> char" where
  "byte n \<equiv> char_of n"

subsection \<open>strings.Cut, strings.Split, strings.HasPrefix\<close>

text \<open>\<open>strings.Cut(s, c)\<close> for a one-byte separator: \<open>None\<close> is \<open>found = false\<close>.\<close>

fun cut_byte :: "char \<Rightarrow> string \<Rightarrow> (string \<times> string) option" where
  "cut_byte c [] = None"
| "cut_byte c (x # xs) =
     (if x = c then Some ([], xs)
      else map_option (\<lambda>(a, b). (x # a, b)) (cut_byte c xs))"

text \<open>\<open>strings.Split(s, c)\<close> for a one-byte separator.\<close>

fun split_byte :: "char \<Rightarrow> string \<Rightarrow> string list" where
  "split_byte c [] = [[]]"
| "split_byte c (x # xs) =
     (if x = c then [] # split_byte c xs
      else (case split_byte c xs of [] \<Rightarrow> [[x]] | p # ps \<Rightarrow> (x # p) # ps))"

definition has_prefix :: "string \<Rightarrow> string \<Rightarrow> bool" where
  "has_prefix s p \<longleftrightarrow> take (length p) s = p"

definition has_suffix :: "string \<Rightarrow> string \<Rightarrow> bool" where
  "has_suffix s p \<longleftrightarrow> length p \<le> length s \<and> drop (length s - length p) s = p"

lemma cut_byte_append [go_str]: "c \<notin> set a \<Longrightarrow> cut_byte c (a @ c # b) = Some (a, b)"
  by (induction a) auto

lemma cut_byte_None [go_str]: "cut_byte c s = None \<longleftrightarrow> c \<notin> set s"
  by (induction s) auto

lemma cut_byte_SomeD: "cut_byte c s = Some (a, b) \<Longrightarrow> s = a @ c # b \<and> c \<notin> set a"
  by (induction s arbitrary: a) (fastforce split: if_splits)+

lemma cut_byte_Some [go_str]:
  "cut_byte c s = Some (a, b) \<longleftrightarrow> s = a @ c # b \<and> c \<notin> set a"
  using cut_byte_SomeD cut_byte_append by metis

text \<open>A split is the cut at the first separator, repeated on the right part.\<close>

lemma split_byte_cut [go_str]:
  "split_byte c s = (case cut_byte c s of None \<Rightarrow> [s] | Some (a, b) \<Rightarrow> a # split_byte c b)"
  by (induction s) (auto split: option.splits)

lemma split_byte_nonempty [simp]: "split_byte c s \<noteq> []"
  by (subst split_byte_cut) (auto split: option.splits)

lemma split_byte_single [go_str]: "c \<notin> set s \<Longrightarrow> split_byte c s = [s]"
  by (subst split_byte_cut) (simp add: cut_byte_None [THEN iffD2])

lemma split_byte_append [go_str]:
  "c \<notin> set a \<Longrightarrow> split_byte c (a @ c # b) = a # split_byte c b"
  by (subst split_byte_cut) (simp add: cut_byte_append)

lemma split_byte_eq_single [go_str]: "split_byte c s = [p] \<longleftrightarrow> s = p \<and> c \<notin> set p"
  by (subst split_byte_cut) (auto simp: cut_byte_None dest: cut_byte_SomeD split: option.splits)

text \<open>A split into exactly two parts is a cut whose right part has no separator.\<close>

lemma split_byte_two [go_str]:
  "split_byte c s = [p, q] \<longleftrightarrow> s = p @ c # q \<and> c \<notin> set p \<and> c \<notin> set q"
  by (subst split_byte_cut)
     (auto simp: split_byte_eq_single cut_byte_append cut_byte_None dest: cut_byte_SomeD split: option.splits)

lemma has_prefix_append [go_str, simp]: "has_prefix (p @ s) p"
  by (simp add: has_prefix_def)

lemma has_prefix_iff [go_str]: "has_prefix s p \<longleftrightarrow> (\<exists>r. s = p @ r)"
  by (auto simp: has_prefix_def) (metis append_take_drop_id)

subsection \<open>bytes.TrimSpace\<close>

text \<open>
  The white-space runes of \<open>unicode.IsSpace\<close>, in their UTF-8 encodings.
\<close>

definition space_runes :: "string list" where
  "space_runes =
     map (\<lambda>n. [byte n]) [9, 10, 11, 12, 13, 32]
     @ [[byte 0xC2, byte 0x85], [byte 0xC2, byte 0xA0], [byte 0xE1, byte 0x9A, byte 0x80]]
     @ map (\<lambda>n. [byte 0xE2, byte 0x80, byte n])
         [0x80, 0x81, 0x82, 0x83, 0x84, 0x85, 0x86, 0x87, 0x88, 0x89, 0x8A, 0xA8, 0xA9, 0xAF]
     @ [[byte 0xE2, byte 0x81, byte 0x9F], [byte 0xE3, byte 0x80, byte 0x80]]"

definition strip_first :: "string list \<Rightarrow> string \<Rightarrow> string option" where
  "strip_first ps s = map_option (\<lambda>p. drop (length p) s) (find (has_prefix s) ps)"

text \<open>No rune is empty, so a strip shortens the string; the guard states it.\<close>

function strip_all :: "string list \<Rightarrow> string \<Rightarrow> string" where
  "strip_all ps s =
     (case strip_first ps s of
        None \<Rightarrow> s
      | Some r \<Rightarrow> if length r < length s then strip_all ps r else s)"
  by pat_completeness auto
termination by (relation "measure (\<lambda>(ps, s). length s)") auto

declare strip_all.simps [simp del]

definition trim_space :: "string \<Rightarrow> string" where
  "trim_space s = rev (strip_all (map rev space_runes) (rev (strip_all space_runes s)))"

lemma strip_all_fixed: "strip_first ps s = None \<Longrightarrow> strip_all ps s = s"
  by (simp add: strip_all.simps)

section \<open>Decimal integers\<close>

definition is_digit :: "char \<Rightarrow> bool" where
  "is_digit c \<longleftrightarrow> 48 \<le> byte_of c \<and> byte_of c \<le> 57"

definition digit_val :: "char \<Rightarrow> nat" where
  "digit_val c = byte_of c - 48"

definition digit_chr :: "nat \<Rightarrow> char" where
  "digit_chr d = byte (48 + d)"

fun show_nat :: "nat \<Rightarrow> string" where
  "show_nat n = (if n < 10 then [digit_chr n] else show_nat (n div 10) @ [digit_chr (n mod 10)])"

declare show_nat.simps [simp del]

definition show_int :: "int \<Rightarrow> string" where
  "show_int i = (if i < 0 then CHR ''-'' # show_nat (nat (- i)) else show_nat (nat i))"

definition read_nat :: "string \<Rightarrow> nat" where
  "read_nat s = foldl (\<lambda>a c. 10 * a + digit_val c) 0 s"

lemma digit_chr_props [num_simps]:
  assumes "d < 10"
  shows "is_digit (digit_chr d)" "digit_val (digit_chr d) = d"
  using assms by (simp_all add: is_digit_def digit_val_def digit_chr_def)

lemma show_nat_digits [num_simps]: "c \<in> set (show_nat n) \<Longrightarrow> is_digit c"
proof (induction n rule: show_nat.induct)
  case (1 n)
  then show ?case
    by (cases "n < 10") (auto simp: show_nat.simps [of n] digit_chr_props)
qed

lemma show_nat_nonempty [simp]: "show_nat n \<noteq> []"
  by (subst show_nat.simps) simp

lemma read_nat_snoc [num_simps]: "read_nat (s @ [c]) = 10 * read_nat s + digit_val c"
  by (simp add: read_nat_def)

lemma read_show_nat [num_simps]: "read_nat (show_nat n) = n"
proof (induction n rule: show_nat.induct)
  case (1 n)
  then show ?case
    by (cases "n < 10")
       (auto simp: show_nat.simps [of n] read_nat_snoc digit_chr_props read_nat_def)
qed

text \<open>No leading zero, except for zero itself: the shape JSON requires.\<close>

lemma show_nat_hd [num_simps]: "0 < n \<Longrightarrow> hd (show_nat n) \<noteq> CHR ''0''"
proof (induction n rule: show_nat.induct)
  case (1 n)
  show ?case
  proof (cases "n < 10")
    case True
    have "digit_val (digit_chr n) = n" using True by (rule digit_chr_props)
    moreover have "digit_val CHR ''0'' = 0" by (simp add: digit_val_def)
    ultimately have "digit_chr n \<noteq> CHR ''0''" using "1.prems" by auto
    then show ?thesis using True by (simp add: show_nat.simps [of n])
  next
    case False
    then show ?thesis using 1 by (simp add: show_nat.simps [of n])
  qed
qed

lemma show_nat_0 [num_simps]: "show_nat 0 = ''0''"
  by (simp add: show_nat.simps [of 0] digit_chr_def char_of_eq_iff)

section \<open>Machine integers\<close>

text \<open>
  \<open>int64\<close> and \<open>int32\<close> conversions of Go keep the low bits and read them as two's
  complement.
\<close>

definition to_int64 :: "int \<Rightarrow> int" where
  "to_int64 i = sint (word_of_int i :: 64 word)"

definition to_int32 :: "int \<Rightarrow> int" where
  "to_int32 i = sint (word_of_int i :: 32 word)"

definition in_int64 :: "int \<Rightarrow> bool" where
  "in_int64 i \<longleftrightarrow> - (2 ^ 63) \<le> i \<and> i < 2 ^ 63"

definition in_int32 :: "int \<Rightarrow> bool" where
  "in_int32 i \<longleftrightarrow> - (2 ^ 31) \<le> i \<and> i < 2 ^ 31"

lemma to_int64_id [num_simps]: "in_int64 i \<Longrightarrow> to_int64 i = i"
  by (simp add: to_int64_def in_int64_def signed_take_bit_int_eq_self sint_sbintrunc')

lemma to_int32_id [num_simps]: "in_int32 i \<Longrightarrow> to_int32 i = i"
  by (simp add: to_int32_def in_int32_def signed_take_bit_int_eq_self sint_sbintrunc')

lemma to_int64_range [num_simps]: "in_int64 (to_int64 i)"
  using sint_ge [of "word_of_int i :: 64 word"] sint_lt [of "word_of_int i :: 64 word"]
  by (simp add: to_int64_def in_int64_def)

lemma to_int32_range [num_simps]: "in_int32 (to_int32 i)"
  using sint_ge [of "word_of_int i :: 32 word"] sint_lt [of "word_of_int i :: 32 word"]
  by (simp add: to_int32_def in_int32_def)

section \<open>Maps with string keys\<close>

text \<open>
  A Go map is represented by its bindings sorted by key, so that equal maps are equal
  lists and \<open>encoding/json\<close>'s sorted output is the list order.
\<close>

type_synonym 'v smap = "(string \<times> 'v) list"

definition smap_wf :: "'v smap \<Rightarrow> bool" where
  "smap_wf m \<longleftrightarrow> sorted_wrt (<) (map fst m)"

definition mget :: "'v smap \<Rightarrow> string \<Rightarrow> 'v option" where
  "mget m k = map_of m k"

fun mput :: "string \<Rightarrow> 'v \<Rightarrow> 'v smap \<Rightarrow> 'v smap" where
  "mput k v [] = [(k, v)]"
| "mput k v ((a, b) # m) =
     (if k < a then (k, v) # (a, b) # m
      else if k = a then (k, v) # m
      else (a, b) # mput k v m)"

definition mdel :: "string \<Rightarrow> 'v smap \<Rightarrow> 'v smap" where
  "mdel k m = filter (\<lambda>(a, b). a \<noteq> k) m"

lemma mget_Nil [gmap_simps]: "mget [] k = None"
  by (simp add: mget_def)

lemma mget_mput [gmap_simps]: "mget (mput k v m) a = (if a = k then Some v else mget m a)"
  by (induction m) (auto simp: mget_def)

lemma mget_mdel [gmap_simps]: "mget (mdel k m) a = (if a = k then None else mget m a)"
  by (induction m) (auto simp: mget_def mdel_def)

lemma keys_mput [gmap_simps]: "fst ` set (mput k v m) = insert k (fst ` set m)"
proof (induction m)
  case (Cons p m)
  obtain a b where "p = (a, b)" by (cases p)
  with Cons show ?case by auto
qed simp

lemma smap_wf_Nil [gmap_simps, simp]: "smap_wf []"
  by (simp add: smap_wf_def)

lemma smap_wf_Cons [gmap_simps]:
  "smap_wf ((k, v) # m) \<longleftrightarrow> (\<forall>a \<in> set (map fst m). k < a) \<and> smap_wf m"
  by (simp add: smap_wf_def)

lemma smap_wf_mput [gmap_simps]: "smap_wf m \<Longrightarrow> smap_wf (mput k v m)"
proof (induction m)
  case (Cons p m)
  obtain a b where p: "p = (a, b)" by (cases p)
  consider "k < a" | "k = a" | "a < k" by (rule linorder_cases)
  then show ?case
  proof cases
    case 1
    then show ?thesis using Cons.prems by (auto simp: p smap_wf_def)
  next
    case 2
    then show ?thesis using Cons.prems by (auto simp: p smap_wf_def)
  next
    case 3
    then show ?thesis
      using Cons keys_mput [of k v m] by (auto simp: p smap_wf_Cons)
  qed
qed (simp add: smap_wf_def)

lemma smap_wf_mdel [gmap_simps]: "smap_wf m \<Longrightarrow> smap_wf (mdel k m)"
  by (induction m) (auto simp: smap_wf_def mdel_def)

text \<open>Inserting a key that is below every present key puts it first.\<close>

lemma mput_front [gmap_simps]: "\<forall>a \<in> set (map fst m). k < a \<Longrightarrow> mput k v m = (k, v) # m"
  by (cases m) auto

text \<open>Inserting the bindings of a sorted map one by one rebuilds it.\<close>

lemma mput_snoc [gmap_simps]: "\<forall>a \<in> set (map fst m). a < k \<Longrightarrow> mput k v m = m @ [(k, v)]"
  by (induction m) auto

lemma mput_fold [gmap_simps]:
  "smap_wf (m @ n) \<Longrightarrow> foldl (\<lambda>acc (k, v). mput k v acc) m n = m @ n"
proof (induction n arbitrary: m)
  case (Cons p n)
  obtain k v where p: "p = (k, v)" by (cases p)
  have "\<forall>a \<in> set (map fst m). a < k" using Cons.prems by (auto simp: p smap_wf_def sorted_wrt_append)
  then have "mput k v m = m @ [(k, v)]" by (rule mput_snoc)
  then show ?case using Cons by (simp add: p)
qed simp

section \<open>The environment\<close>

text \<open>The environment reads as the empty string where a variable is unset.\<close>

type_synonym environ = "string \<Rightarrow> string"

definition env_or :: "environ \<Rightarrow> string \<Rightarrow> string \<Rightarrow> string" where
  "env_or env key def = (if env key \<noteq> [] then env key else def)"

end
