(* ===== verification/Go_Utf8.thy ===== *)
theory Go_Utf8
  imports Zta_Prelude
begin

text \<open>
  UTF-8 as \<open>encoding/json\<close> relies on it, and the two string conversions built on it: the
  quoted form \<open>json.Marshal\<close> writes (with HTML escaping, as \<open>Marshal\<close> and \<open>Encoder\<close> do by
  default) and the reader of quoted strings.  Reading what was written gives the string back
  with every invalid byte replaced by U+FFFD, so a string of valid UTF-8 survives unchanged.
\<close>

section \<open>Runes\<close>

definition cont_byte :: "char \<Rightarrow> bool" where
  "cont_byte c \<longleftrightarrow> 0x80 \<le> byte_of c \<and> byte_of c \<le> 0xBF"

definition conts :: "nat \<Rightarrow> string \<Rightarrow> bool" where
  "conts n s \<longleftrightarrow> length (take n s) = n \<and> list_all cont_byte (take n s)"

text \<open>The narrower range of the second byte after E0, ED, F0 and F4.\<close>

definition second_ok :: "nat \<Rightarrow> string \<Rightarrow> bool" where
  "second_ok b s =
     (case s of [] \<Rightarrow> True
      | d # _ \<Rightarrow>
          (b = 0xE0 \<longrightarrow> 0xA0 \<le> byte_of d) \<and> (b = 0xED \<longrightarrow> byte_of d \<le> 0x9F)
          \<and> (b = 0xF0 \<longrightarrow> 0x90 \<le> byte_of d) \<and> (b = 0xF4 \<longrightarrow> byte_of d \<le> 0x8F))"

text \<open>The number of continuation bytes a first byte asks for.\<close>

definition rune_tail :: "nat \<Rightarrow> nat option" where
  "rune_tail b =
     (if b < 0x80 then Some 0
      else if 0xC2 \<le> b \<and> b \<le> 0xDF then Some 1
      else if 0xE0 \<le> b \<and> b \<le> 0xEF then Some 2
      else if 0xF0 \<le> b \<and> b \<le> 0xF4 then Some 3
      else None)"

text \<open>\<open>utf8.DecodeRune\<close>'s size for a valid encoding at the head, and 0 for an invalid one.\<close>

definition rune_len :: "string \<Rightarrow> nat" where
  "rune_len s =
     (case s of [] \<Rightarrow> 0
      | c # t \<Rightarrow>
         (case rune_tail (byte_of c) of None \<Rightarrow> 0
          | Some n \<Rightarrow> if conts n t \<and> (0 < n \<longrightarrow> second_ok (byte_of c) t) then Suc n else 0))"

definition rune_error :: string where
  "rune_error = [byte 0xEF, byte 0xBF, byte 0xBD]"

text \<open>\<open>utf8.EncodeRune\<close> for the code points that escapes can denote.\<close>

definition encode_rune :: "nat \<Rightarrow> string" where
  "encode_rune n =
     (if n < 0x80 then [byte n]
      else if n < 0x800 then [byte (0xC0 + n div 64), byte (0x80 + n mod 64)]
      else if n < 0x10000 then
        [byte (0xE0 + n div 4096), byte (0x80 + n div 64 mod 64), byte (0x80 + n mod 64)]
      else
        [byte (0xF0 + n div 262144), byte (0x80 + n div 4096 mod 64),
         byte (0x80 + n div 64 mod 64), byte (0x80 + n mod 64)])"

lemma conts_take: "conts n s \<Longrightarrow> n \<le> length s \<and> conts n (take n s @ r)"
  by (auto simp: conts_def)

lemma second_ok_take: "0 < n \<Longrightarrow> n \<le> length s \<Longrightarrow> second_ok b (take n s @ r) = second_ok b s"
  by (cases s; cases n) (auto simp: second_ok_def)

lemma rune_len_cases:
  assumes "rune_len (c # t) = Suc n"
  shows "n \<le> length t" and "rune_len (c # take n t @ r) = Suc n"
  using assms conts_take [of n t r] second_ok_take [of n t "byte_of c" r]
  by (auto simp: rune_len_def split: if_splits option.splits)

lemma rune_len_take:
  assumes "0 < rune_len s"
  shows "rune_len (take (rune_len s) s @ r) = rune_len s" and "rune_len s \<le> length s"
proof -
  obtain c t where s: "s = c # t" using assms by (cases s) (auto simp: rune_len_def)
  obtain n where n: "rune_len (c # t) = Suc n" using assms s by (cases "rune_len s") auto
  show "rune_len (take (rune_len s) s @ r) = rune_len s"
    using rune_len_cases(2) [OF n, of r] by (simp add: s n)
  show "rune_len s \<le> length s" using rune_len_cases(1) [OF n] by (simp add: s n)
qed

lemma rune_len_pos_nonempty: "0 < rune_len s \<Longrightarrow> s \<noteq> []"
  by (auto simp: rune_len_def)

section \<open>Valid strings\<close>

function valid_utf8 :: "string \<Rightarrow> bool" where
  "valid_utf8 s =
     (if s = [] then True
      else if rune_len s = 0 then False
      else valid_utf8 (drop (rune_len s) s))"
  by pat_completeness auto
termination by (relation "measure length") auto

declare valid_utf8.simps [simp del]

text \<open>Every invalid byte becomes U+FFFD.\<close>

function coerce_utf8 :: "string \<Rightarrow> string" where
  "coerce_utf8 s =
     (if s = [] then []
      else if rune_len s = 0 then rune_error @ coerce_utf8 (tl s)
      else take (rune_len s) s @ coerce_utf8 (drop (rune_len s) s))"
  by pat_completeness auto
termination by (relation "measure length") auto

declare coerce_utf8.simps [simp del]

lemma coerce_Nil [simp]: "coerce_utf8 [] = []"
  by (simp add: coerce_utf8.simps)

lemma coerce_valid [simp]: "valid_utf8 s \<Longrightarrow> coerce_utf8 s = s"
proof (induction s rule: coerce_utf8.induct)
  case (1 s)
  then show ?case
    by (cases "s = []"; cases "rune_len s = 0")
       (simp_all add: coerce_utf8.simps [of s] valid_utf8.simps [of s])
qed

lemma valid_Nil [simp]: "valid_utf8 []"
  by (simp add: valid_utf8.simps [of "[]"])

lemma valid_append [intro]: "valid_utf8 a \<Longrightarrow> valid_utf8 b \<Longrightarrow> valid_utf8 (a @ b)"
proof (induction a rule: valid_utf8.induct)
  case (1 a)
  show ?case
  proof (cases "a = []")
    case False
    with "1.prems" have l: "0 < rune_len a" "valid_utf8 (drop (rune_len a) a)"
      by (simp_all add: valid_utf8.simps [of a] split: if_splits)
    have r: "rune_len (a @ b) = rune_len a" "rune_len a \<le> length a"
      using rune_len_take(1) [OF l(1), of "drop (rune_len a) a @ b"] rune_len_take(2) [OF l(1)]
      by (simp_all flip: append_assoc)
    have "valid_utf8 (drop (rune_len a) a @ b)"
      using "1.IH" "1.prems" False l by simp
    then show ?thesis using False l r by (simp add: valid_utf8.simps [of "a @ b"])
  qed (use 1 in simp)
qed

definition ascii :: "string \<Rightarrow> bool" where
  "ascii s \<longleftrightarrow> list_all (\<lambda>c. byte_of c < 0x80) s"

lemma ascii_valid: "ascii s \<Longrightarrow> valid_utf8 s"
proof (induction s)
  case Nil
  then show ?case by (simp add: valid_utf8.simps [of "[]"])
next
  case (Cons c s)
  then have "rune_len (c # s) = 1" by (simp add: rune_len_def rune_tail_def conts_def ascii_def)
  then show ?case using Cons by (simp add: valid_utf8.simps [of "c # s"] ascii_def)
qed

section \<open>Quoting\<close>

definition hex_chr :: "nat \<Rightarrow> char" where
  "hex_chr d = (if d < 10 then byte (48 + d) else byte (87 + d))"

definition hex_val :: "char \<Rightarrow> nat option" where
  "hex_val c =
     (let b = byte_of c in
      if 48 \<le> b \<and> b \<le> 57 then Some (b - 48)
      else if 97 \<le> b \<and> b \<le> 102 then Some (b - 87)
      else if 65 \<le> b \<and> b \<le> 70 then Some (b - 55)
      else None)"

abbreviation quote_chr :: char where "quote_chr \<equiv> CHR 0x22"
abbreviation bslash :: char where "bslash \<equiv> CHR 0x5C"

definition unicode_esc :: "nat \<Rightarrow> string" where
  "unicode_esc n =
     [bslash, CHR ''u'', hex_chr (n div 4096 mod 16), hex_chr (n div 256 mod 16),
      hex_chr (n div 16 mod 16), hex_chr (n mod 16)]"

text \<open>One ASCII byte: the two-character escapes, \<open>\u00xx\<close>, or the byte itself.\<close>

definition esc_ascii :: "char \<Rightarrow> string" where
  "esc_ascii c =
     (let b = byte_of c in
      if b = 0x22 \<or> b = 0x5C then [bslash, c]
      else if b = 8 then [bslash, CHR ''b'']
      else if b = 12 then [bslash, CHR ''f'']
      else if b = 10 then [bslash, CHR ''n'']
      else if b = 13 then [bslash, CHR ''r'']
      else if b = 9 then [bslash, CHR ''t'']
      else if b < 0x20 \<or> b = 0x3C \<or> b = 0x3E \<or> b = 0x26 then unicode_esc b
      else [c])"

function esc_str :: "string \<Rightarrow> string" where
  "esc_str s =
     (case s of [] \<Rightarrow> []
      | c # t \<Rightarrow>
         if byte_of c < 0x80 then esc_ascii c @ esc_str t
         else if rune_len s = 0 then unicode_esc 0xFFFD @ esc_str t
         else if has_prefix s [byte 0xE2, byte 0x80, byte 0xA8] then unicode_esc 0x2028 @ esc_str (drop 3 s)
         else if has_prefix s [byte 0xE2, byte 0x80, byte 0xA9] then unicode_esc 0x2029 @ esc_str (drop 3 s)
         else take (rune_len s) s @ esc_str (drop (rune_len s) s))"
  by pat_completeness auto
termination by (relation "measure length") (auto dest: rune_len_pos_nonempty)

declare esc_str.simps [simp del]

definition quote :: "string \<Rightarrow> string" where
  "quote s = quote_chr # esc_str s @ [quote_chr]"

section \<open>Reading quoted strings\<close>

definition hex4 :: "string \<Rightarrow> nat option" where
  "hex4 s =
     (case s of
        a # b # c # d # _ \<Rightarrow>
          (case (hex_val a, hex_val b, hex_val c, hex_val d) of
             (Some w, Some x, Some y, Some z) \<Rightarrow> Some (4096 * w + 256 * x + 16 * y + z)
           | _ \<Rightarrow> None)
      | _ \<Rightarrow> None)"

text \<open>A low surrogate escape at the head of \<open>s\<close>.\<close>

definition low_surrogate :: "string \<Rightarrow> nat option" where
  "low_surrogate s =
     (case s of
        a # b # t \<Rightarrow>
          if a = bslash \<and> b = CHR ''u'' then
            (case hex4 t of None \<Rightarrow> None
             | Some n \<Rightarrow> if 0xDC00 \<le> n \<and> n \<le> 0xDFFF then Some n else None)
          else None
      | _ \<Rightarrow> None)"

text \<open>
  The text after a backslash: the bytes it stands for and what follows.  A lone surrogate
  stands for U+FFFD and consumes only itself.
\<close>

definition read_escape :: "string \<Rightarrow> (string \<times> string) option" where
  "read_escape s =
     (case s of [] \<Rightarrow> None
      | e # t \<Rightarrow>
         if e = quote_chr \<or> e = bslash \<or> e = CHR ''/'' then Some ([e], t)
         else if e = CHR ''b'' then Some ([byte 8], t)
         else if e = CHR ''f'' then Some ([byte 12], t)
         else if e = CHR ''n'' then Some ([byte 10], t)
         else if e = CHR ''r'' then Some ([byte 13], t)
         else if e = CHR ''t'' then Some ([byte 9], t)
         else if e = CHR ''u'' then
           (case hex4 t of None \<Rightarrow> None
            | Some n \<Rightarrow>
                if 0xD800 \<le> n \<and> n \<le> 0xDFFF then
                  (case (n < 0xDC00, low_surrogate (drop 4 t)) of
                     (True, Some m) \<Rightarrow>
                       Some (encode_rune (0x10000 + (n - 0xD800) * 1024 + (m - 0xDC00)), drop 10 t)
                   | _ \<Rightarrow> Some (rune_error, drop 4 t))
                else Some (encode_rune n, drop 4 t))
         else None)"

lemma read_escape_shorter: "read_escape s = Some (x, r) \<Longrightarrow> length r < length s"
  by (auto simp: read_escape_def split: list.splits if_splits option.splits bool.splits)

definition prepend :: "string \<Rightarrow> (string \<times> string) option \<Rightarrow> (string \<times> string) option" where
  "prepend x = map_option (\<lambda>(y, r). (x @ y, r))"

lemma prepend_simps [simp]: "prepend x None = None" "prepend x (Some (y, r)) = Some (x @ y, r)"
  by (simp_all add: prepend_def)

text \<open>The body of a string up to the closing quote.\<close>

function unquote :: "string \<Rightarrow> (string \<times> string) option" where
  "unquote s =
     (case s of [] \<Rightarrow> None
      | c # t \<Rightarrow>
         if c = quote_chr then Some ([], t)
         else if c = bslash then
           (case read_escape t of None \<Rightarrow> None
            | Some (x, r) \<Rightarrow> prepend x (unquote r))
         else if byte_of c < 0x20 then None
         else if byte_of c < 0x80 then prepend [c] (unquote t)
         else if rune_len s = 0 then prepend rune_error (unquote t)
         else prepend (take (rune_len s) s) (unquote (drop (rune_len s) s)))"
  by pat_completeness auto
termination
  by (relation "measure length")
     (auto simp: less_Suc_eq_le intro: less_imp_le read_escape_shorter)

declare unquote.simps [simp del]

section \<open>What was quoted reads back\<close>

lemma hex_val_chr [simp]: "d < 16 \<Longrightarrow> hex_val (hex_chr d) = Some d"
  by (auto simp: hex_val_def hex_chr_def Let_def)

lemma hex4_digits:
  assumes "n < 0x10000"
  obtains a b c d where "unicode_esc n = [bslash, CHR ''u'', a, b, c, d]"
    and "\<And>r. hex4 (a # b # c # d # r) = Some n"
proof -
  have "n = 16 * (n div 16) + n mod 16" by simp
  moreover have "n div 16 = 16 * (n div 256) + n div 16 mod 16"
    using mult_div_mod_eq [of 16 "n div 16"] by (simp add: div_mult2_eq [symmetric])
  moreover have "n div 256 = 16 * (n div 4096) + n div 256 mod 16"
    using mult_div_mod_eq [of 16 "n div 256"] by (simp add: div_mult2_eq [symmetric])
  ultimately have sum: "4096 * (n div 4096) + 256 * (n div 256 mod 16)
      + 16 * (n div 16 mod 16) + n mod 16 = n" by linarith
  have top: "n div 4096 mod 16 = n div 4096" using assms by simp
  then have "n div 4096 < 16" using mod_less_divisor [of 16 "n div 4096"] by simp
  then show ?thesis using that [OF unicode_esc_def] by (simp add: hex4_def sum top)
qed

lemma unquote_unicode:
  assumes "n < 0xD800 \<or> (0xE000 \<le> n \<and> n < 0x10000)"
  shows "unquote (unicode_esc n @ r) = prepend (encode_rune n) (unquote r)"
proof -
  have "n < 0x10000" using assms by auto
  then obtain a b c d where e: "unicode_esc n = [bslash, CHR ''u'', a, b, c, d]"
    and h: "\<And>r. hex4 (a # b # c # d # r) = Some n"
    by (rule hex4_digits) blast
  have "read_escape (CHR ''u'' # a # b # c # d # r) = Some (encode_rune n, r)"
    using assms by (auto simp: read_escape_def h)
  then show ?thesis by (subst unquote.simps) (simp add: e)
qed

lemma unquote_short_escape:
  assumes "read_escape (c # r) = Some (x, r)"
  shows "unquote (bslash # c # r) = prepend x (unquote r)"
  by (subst unquote.simps) (simp add: assms)

lemma byte_eqI: "byte_of c = byte_of d \<Longrightarrow> c = d"
  by (rule of_char_eqI)

lemma encode_rune_ascii: "byte_of c < 0x80 \<Longrightarrow> encode_rune (byte_of c) = [c]"
  by (simp add: encode_rune_def)

lemma unquote_esc_ascii:
  assumes "byte_of c < 0x80"
  shows "unquote (esc_ascii c @ r) = prepend [c] (unquote r)"
proof -
  let ?b = "byte_of c"
  consider (q) "?b = 0x22" | (s) "?b = 0x5C" | (b) "?b = 8" | (f) "?b = 12" | (n) "?b = 10"
    | (r) "?b = 13" | (t) "?b = 9"
    | (u) "?b \<notin> {0x22, 0x5C, 8, 12, 10, 13, 9}" "?b < 0x20 \<or> ?b = 0x3C \<or> ?b = 0x3E \<or> ?b = 0x26"
    | (plain) "?b \<notin> {0x22, 0x5C, 8, 12, 10, 13, 9}"
        "\<not> (?b < 0x20 \<or> ?b = 0x3C \<or> ?b = 0x3E \<or> ?b = 0x26)"
    by blast
  then show ?thesis
  proof cases
    case q
    then have "c = quote_chr" by (intro byte_eqI) simp
    then show ?thesis by (simp add: esc_ascii_def unquote_short_escape read_escape_def)
  next
    case s
    then have "c = bslash" by (intro byte_eqI) simp
    then show ?thesis by (simp add: esc_ascii_def unquote_short_escape read_escape_def)
  next
    case b
    then have "c = byte 8" by (intro byte_eqI) simp
    then show ?thesis by (simp add: esc_ascii_def unquote_short_escape read_escape_def)
  next
    case f
    then have "c = byte 12" by (intro byte_eqI) simp
    then show ?thesis by (simp add: esc_ascii_def unquote_short_escape read_escape_def)
  next
    case n
    then have "c = byte 10" by (intro byte_eqI) simp
    then show ?thesis by (simp add: esc_ascii_def unquote_short_escape read_escape_def)
  next
    case r
    then have "c = byte 13" by (intro byte_eqI) simp
    then show ?thesis by (simp add: esc_ascii_def unquote_short_escape read_escape_def)
  next
    case t
    then have "c = byte 9" by (intro byte_eqI) simp
    then show ?thesis by (simp add: esc_ascii_def unquote_short_escape read_escape_def)
  next
    case u
    then have "esc_ascii c = unicode_esc ?b" by (auto simp: esc_ascii_def Let_def)
    then show ?thesis using unquote_unicode [of ?b r] assms encode_rune_ascii [OF assms] by simp
  next
    case plain
    then have "c \<noteq> quote_chr" "c \<noteq> bslash" by auto
    moreover have "esc_ascii c = [c]" using plain by (auto simp: esc_ascii_def Let_def)
    ultimately show ?thesis using plain assms by (subst unquote.simps) simp
  qed
qed

lemma unquote_rune:
  assumes "0 < rune_len s" and "0x80 \<le> byte_of (hd s)"
  shows "unquote (take (rune_len s) s @ r) = prepend (take (rune_len s) s) (unquote r)"
proof -
  obtain c t where s: "s = c # t" using rune_len_pos_nonempty [OF assms(1)] by (cases s) auto
  have q: "c \<noteq> quote_chr" "c \<noteq> bslash" using assms(2) by (auto simp: s)
  obtain u where w: "take (rune_len s) s = c # u" using assms(1) by (cases "rune_len s") (simp_all add: s)
  have "rune_len (c # u @ r) = rune_len s"
    using rune_len_take(1) [OF assms(1), of r] unfolding w by simp
  moreover have "length (c # u) = rune_len s"
    using rune_len_take(2) [OF assms(1)] unfolding w [symmetric] by simp
  ultimately have l: "rune_len (c # u @ r) = rune_len s" "length (c # u) = rune_len s" .
  have n: "rune_len s = Suc (length u)" using l(2) by simp
  show ?thesis
    unfolding w using assms(2) q l(1) n by (subst unquote.simps) (simp add: s [symmetric], simp add: s)
qed

lemma separator_runes:
  "encode_rune 0x2028 = [byte 0xE2, byte 0x80, byte 0xA8]"
  "encode_rune 0x2029 = [byte 0xE2, byte 0x80, byte 0xA9]"
  "encode_rune 0xFFFD = rune_error"
  by (simp_all add: encode_rune_def rune_error_def)

lemma coerce_rune: "0 < rune_len s \<Longrightarrow> coerce_utf8 s = take (rune_len s) s @ coerce_utf8 (drop (rune_len s) s)"
  by (subst coerce_utf8.simps) (auto dest: rune_len_pos_nonempty)

lemma coerce_bad: "s \<noteq> [] \<Longrightarrow> rune_len s = 0 \<Longrightarrow> coerce_utf8 s = rune_error @ coerce_utf8 (tl s)"
  by (subst coerce_utf8.simps) auto

lemma rune_len_ascii: "byte_of c < 0x80 \<Longrightarrow> rune_len (c # t) = 1"
  by (simp add: rune_len_def rune_tail_def conts_def)

lemma rune_len_separator:
  assumes "has_prefix s [byte 0xE2, byte 0x80, byte x]" and "x = 0xA8 \<or> x = 0xA9"
  shows "rune_len s = 3" and "take 3 s = [byte 0xE2, byte 0x80, byte x]"
  using assms
  by (auto simp: has_prefix_iff rune_len_def rune_tail_def conts_def second_ok_def cont_byte_def)

theorem unquote_esc_str: "unquote (esc_str s @ quote_chr # r) = Some (coerce_utf8 s, r)"
proof (induction s rule: esc_str.induct)
  case (1 s)
  show ?case
  proof (cases s)
    case Nil
    then show ?thesis by (simp add: esc_str.simps [of "[]"] unquote.simps [of "quote_chr # r"])
  next
    case (Cons c t)
    consider (asc) "byte_of c < 0x80" | (bad) "\<not> byte_of c < 0x80" "rune_len s = 0"
      | (ls) "\<not> byte_of c < 0x80" "rune_len s \<noteq> 0" "has_prefix s [byte 0xE2, byte 0x80, byte 0xA8]"
      | (ps) "\<not> byte_of c < 0x80" "rune_len s \<noteq> 0" "\<not> has_prefix s [byte 0xE2, byte 0x80, byte 0xA8]"
          "has_prefix s [byte 0xE2, byte 0x80, byte 0xA9]"
      | (rune) "\<not> byte_of c < 0x80" "rune_len s \<noteq> 0" "\<not> has_prefix s [byte 0xE2, byte 0x80, byte 0xA8]"
          "\<not> has_prefix s [byte 0xE2, byte 0x80, byte 0xA9]"
      by blast
    then show ?thesis
    proof cases
      case asc
      have "coerce_utf8 s = c # coerce_utf8 t"
        using asc coerce_rune [of s] by (simp add: rune_len_ascii Cons)
      then show ?thesis
        using asc 1(1) [OF Cons asc]
        by (simp add: esc_str.simps [of "c # t"] Cons unquote_esc_ascii)
    next
      case bad
      then show ?thesis using 1(2) [OF Cons bad] coerce_bad [of s]
        by (simp add: esc_str.simps [of "c # t"] Cons unquote_unicode separator_runes)
    next
      case ls
      note rl = rune_len_separator [OF ls(3)]
      have "coerce_utf8 s = encode_rune 0x2028 @ coerce_utf8 (drop 3 s)"
        using coerce_rune [of s] rl by (simp add: separator_runes)
      then show ?thesis using 1(3) [OF Cons ls] ls
        by (simp add: esc_str.simps [of "c # t"] Cons unquote_unicode)
    next
      case ps
      note rl = rune_len_separator [OF ps(4)]
      have "coerce_utf8 s = encode_rune 0x2029 @ coerce_utf8 (drop 3 s)"
        using coerce_rune [of s] rl by (simp add: separator_runes)
      then show ?thesis using 1(4) [OF Cons ps] ps
        by (simp add: esc_str.simps [of "c # t"] Cons unquote_unicode)
    next
      case rune
      have e: "esc_str s = take (rune_len s) s @ esc_str (drop (rune_len s) s)"
        using rune by (subst esc_str.simps) (simp add: Cons)
      have "unquote (take (rune_len s) s @ esc_str (drop (rune_len s) s) @ quote_chr # r)
          = prepend (take (rune_len s) s) (unquote (esc_str (drop (rune_len s) s) @ quote_chr # r))"
        using rune by (intro unquote_rune) (simp_all add: Cons)
      then show ?thesis using 1(5) [OF Cons rune] coerce_rune [of s] rune(2) by (simp add: e)
    qed
  qed
qed

text \<open>The coerced string is what arrives; a valid string arrives as it is.\<close>

corollary unquote_quote: "unquote (tl (quote s) @ r) = Some (coerce_utf8 s, r)"
  using unquote_esc_str [of s r] by (simp add: quote_def)

lemma quote_Cons: "quote s = quote_chr # tl (quote s)"
  by (simp add: quote_def)

end
