(* ===== verification/Go_Float.thy ===== *)
theory Go_Float
  imports Zta_Prelude Complex_Main
begin

text \<open>
  Binary64 numbers as \<open>encoding/json\<close> reads and writes them: \<open>strconv.ParseFloat\<close>
  (the nearest binary64 value, ties to even) and \<open>strconv.AppendFloat\<close> with the
  shortest digits that read back to the same value, in the notation \<open>encoding/json\<close>
  chooses.  A value is its sign, its integer significand and its binary exponent.  The
  last theorem is the round trip: what is written for a value reads back as that value.
\<close>

section \<open>Values\<close>

datatype float64 = F64 (f_neg: bool) (f_mant: nat) (f_exp: int)

text \<open>Normal values have a 53-bit significand; subnormals (and zero) the least exponent.\<close>

definition f_canon :: "nat \<Rightarrow> int \<Rightarrow> bool" where
  "f_canon m e \<longleftrightarrow> m < 2 ^ 53 \<and> -1074 \<le> e \<and> e \<le> 971 \<and> (2 ^ 52 \<le> m \<or> e = -1074)"

definition f_wf :: "float64 \<Rightarrow> bool" where
  "f_wf f \<longleftrightarrow> f_canon (f_mant f) (f_exp f)"

section \<open>Nearest binary64 value of a quotient\<close>

fun bitlen :: "nat \<Rightarrow> nat" where
  "bitlen n = (if n = 0 then 0 else Suc (bitlen (n div 2)))"

declare bitlen.simps [simp del]

text \<open>\<open>scale n d e\<close> is the pair for \<open>(n / d) / 2 ^ e\<close>.\<close>

definition scale :: "nat \<Rightarrow> nat \<Rightarrow> int \<Rightarrow> nat \<times> nat" where
  "scale n d e = (if 0 \<le> e then (n, d * 2 ^ nat e) else (n * 2 ^ nat (- e), d))"

definition scale_floor :: "nat \<Rightarrow> nat \<Rightarrow> int \<Rightarrow> nat" where
  "scale_floor n d e = (case scale n d e of (a, b) \<Rightarrow> a div b)"

definition pick_exp :: "nat \<Rightarrow> nat \<Rightarrow> int" where
  "pick_exp n d =
     (let e0 = int (bitlen n) - int (bitlen d) - 53
      in max (if 2 ^ 53 \<le> scale_floor n d e0 then e0 + 1 else e0) (-1074))"

definition round_quot :: "nat \<Rightarrow> nat \<Rightarrow> (nat \<times> int) option" where
  "round_quot n d =
     (let e = pick_exp n d; (a, b) = scale n d e; q = a div b; r = a mod b;
          q' = (if b < 2 * r \<or> (2 * r = b \<and> odd q) then q + 1 else q);
          (m, e') = (if q' = 2 ^ 53 then (2 ^ 52, e + 1) else (q', e))
      in if 971 < e' then None else Some (m, e'))"

section \<open>Decimals\<close>

text \<open>A decimal \<open>(D, k)\<close> is \<open>D * 10 ^ k\<close>; its canonical form has no trailing zero.\<close>

function norm_dec :: "nat \<Rightarrow> int \<Rightarrow> nat \<times> int" where
  "norm_dec D k =
     (if D = 0 then (0, 0)
      else if D mod 10 = 0 then norm_dec (D div 10) (k + 1) else (D, k))"
  by pat_completeness auto
termination by (relation "measure fst") auto

declare norm_dec.simps [simp del]

definition round_dec :: "nat \<times> int \<Rightarrow> (nat \<times> int) option" where
  "round_dec = (\<lambda>(D, k).
     if D = 0 then Some (0, -1074)
     else if 0 \<le> k then round_quot (D * 10 ^ nat k) 1
     else round_quot D (10 ^ nat (- k)))"

text \<open>\<open>strconv.ParseFloat\<close> on the parts of a number: \<open>None\<close> is the range error.\<close>

definition read_float :: "bool \<Rightarrow> string \<Rightarrow> string \<Rightarrow> int \<Rightarrow> float64 option" where
  "read_float neg ip fp ex =
     map_option (\<lambda>(m, e). F64 neg m e)
       (round_dec (norm_dec (read_nat (ip @ fp)) (ex - int (length fp))))"

section \<open>Shortest digits\<close>

definition float_quot :: "nat \<Rightarrow> int \<Rightarrow> nat \<times> nat" where
  "float_quot m e = (if 0 \<le> e then (m * 2 ^ nat e, 1) else (m, 2 ^ nat (- e)))"

function lead_zeros :: "nat \<Rightarrow> nat \<Rightarrow> nat" where
  "lead_zeros n d = (if 0 < n \<and> 10 * n < d then Suc (lead_zeros (10 * n) d) else 0)"
  by pat_completeness auto
termination by (relation "measure (\<lambda>(n, d). d - n)") auto

declare lead_zeros.simps [simp del]

text \<open>The decimal exponent \<open>p\<close> with \<open>10 ^ (p - 1) \<le> n / d < 10 ^ p\<close>.\<close>

definition dec_exp :: "nat \<Rightarrow> nat \<Rightarrow> int" where
  "dec_exp n d =
     (if d \<le> n then int (length (show_nat (n div d))) else - int (lead_zeros n d))"

text \<open>
  The decimal of \<open>len\<close> digits that reads back as \<open>(m, e)\<close> and is nearest to it, if one
  does: the two neighbours of the value are the only candidates.
\<close>

definition dec_of_len :: "nat \<Rightarrow> int \<Rightarrow> nat \<Rightarrow> (nat \<times> int) option" where
  "dec_of_len m e len =
     (let (n, d) = float_quot m e; k = dec_exp n d - int len;
          (a, b) = (if 0 \<le> k then (n, d * 10 ^ nat k) else (n * 10 ^ nat (- k), d));
          lo = a div b; r = a mod b;
          ok = (\<lambda>D. round_dec (norm_dec D k) = Some (m, e))
      in if ok lo \<and> (2 * r < b \<or> (2 * r = b \<and> even lo) \<or> \<not> ok (lo + 1)) then Some (norm_dec lo k)
         else if ok (lo + 1) then Some (norm_dec (lo + 1) k)
         else None)"

text \<open>
  The exact expansion of the value.  17 digits always determine a binary64 value, so the
  search below finds a decimal before it gets here; the definition is total without that fact.
\<close>

definition exact_dec :: "nat \<Rightarrow> int \<Rightarrow> nat \<times> int" where
  "exact_dec m e =
     (if 0 \<le> e then norm_dec (m * 2 ^ nat e) 0 else norm_dec (m * 5 ^ nat (- e)) e)"

fun shortest_from :: "nat \<Rightarrow> int \<Rightarrow> nat list \<Rightarrow> nat \<times> int" where
  "shortest_from m e [] = exact_dec m e"
| "shortest_from m e (len # lens) =
     (case dec_of_len m e len of Some dk \<Rightarrow> dk | None \<Rightarrow> shortest_from m e lens)"

definition shortest :: "nat \<Rightarrow> int \<Rightarrow> nat \<times> int" where
  "shortest m e = (if m = 0 then (0, 0) else shortest_from m e [1..<18])"

section \<open>Writing\<close>

text \<open>
  \<open>encoding/json\<close> uses the \<open>%f\<close> form between 1e-6 and 1e21 and the \<open>%e\<close> form, with a
  one-digit negative exponent shortened, outside.
\<close>

definition fmt_f :: "string \<Rightarrow> int \<Rightarrow> string" where
  "fmt_f ds dp =
     (if 0 < dp then take (nat dp) ds @ replicate (nat dp - length ds) CHR ''0'' else ''0'')
     @ (if int (length ds) \<le> dp then []
        else CHR ''.'' # replicate (nat (- dp)) CHR ''0'' @ drop (nat dp) ds)"

definition fmt_exp :: "int \<Rightarrow> string" where
  "fmt_exp x =
     (if x < 0 then CHR ''-'' # show_nat (nat (- x))
      else CHR ''+'' # (if x < 10 then CHR ''0'' # show_nat (nat x) else show_nat (nat x)))"

definition fmt_e :: "string \<Rightarrow> int \<Rightarrow> string" where
  "fmt_e ds dp =
     take 1 ds @ (if length ds \<le> 1 then [] else CHR ''.'' # drop 1 ds)
     @ CHR ''e'' # fmt_exp (dp - 1)"

definition show_float :: "float64 \<Rightarrow> string" where
  "show_float f =
     (let (D, k) = shortest (f_mant f) (f_exp f); ds = show_nat D; dp = int (length ds) + k;
          body = (if D \<noteq> 0 \<and> (dp < -5 \<or> 21 < dp) then fmt_e ds dp
                  else if D = 0 then ''0'' else fmt_f ds dp)
      in if f_neg f then CHR ''-'' # body else body)"


section \<open>Reading\<close>

text \<open>The JSON grammar of numbers: sign, integer part, fraction and exponent.\<close>

definition parse_frac :: "string \<Rightarrow> (string \<times> string) option" where
  "parse_frac s =
     (case s of [] \<Rightarrow> Some ([], [])
      | c # cs \<Rightarrow>
          if c = CHR ''.'' then
            (if takeWhile is_digit cs = [] then None
             else Some (takeWhile is_digit cs, dropWhile is_digit cs))
          else Some ([], s))"

definition parse_exp :: "string \<Rightarrow> int option" where
  "parse_exp s =
     (case s of [] \<Rightarrow> Some 0
      | c # cs \<Rightarrow>
          if c = CHR ''e'' \<or> c = CHR ''E'' then
            (let (neg, ds) = (case cs of [] \<Rightarrow> (False, [])
                              | x # xs \<Rightarrow> if x = CHR ''-'' then (True, xs)
                                        else if x = CHR ''+'' then (False, xs) else (False, cs))
             in if ds = [] \<or> \<not> list_all is_digit ds then None
                else Some (if neg then - int (read_nat ds) else int (read_nat ds)))
          else None)"

definition parse_unsigned :: "string \<Rightarrow> (string \<times> string \<times> int) option" where
  "parse_unsigned s =
     (let ip = takeWhile is_digit s
      in if ip = [] \<or> (hd ip = CHR ''0'' \<and> 1 < length ip) then None
         else case parse_frac (dropWhile is_digit s) of None \<Rightarrow> None
           | Some (fp, t) \<Rightarrow> (case parse_exp t of None \<Rightarrow> None | Some x \<Rightarrow> Some (ip, fp, x)))"

definition parse_num :: "string \<Rightarrow> (bool \<times> string \<times> string \<times> int) option" where
  "parse_num s =
     (case s of [] \<Rightarrow> None
      | c # cs \<Rightarrow> if c = CHR ''-'' then map_option (Pair True) (parse_unsigned cs)
                else map_option (Pair False) (parse_unsigned s))"

definition parse_float :: "string \<Rightarrow> float64 option" where
  "parse_float s =
     (case parse_num s of None \<Rightarrow> None | Some (neg, ip, fp, x) \<Rightarrow> read_float neg ip fp x)"

section \<open>Rounding is exact on binary64 values\<close>

lemma bitlen_bounds: "0 < n \<Longrightarrow> 2 ^ (bitlen n - 1) \<le> n \<and> n < 2 ^ bitlen n \<and> 0 < bitlen n"
proof (induction n rule: bitlen.induct)
  case (1 n)
  show ?case
  proof (cases "n = 1")
    case True
    then show ?thesis by (simp add: bitlen.simps [of "Suc 0"] bitlen.simps [of 0])
  next
    case False
    with 1 have "0 < n div 2" by auto
    with 1 have ih: "2 ^ (bitlen (n div 2) - 1) \<le> n div 2" "n div 2 < 2 ^ bitlen (n div 2)"
      "0 < bitlen (n div 2)" by auto
    have b: "bitlen n = Suc (bitlen (n div 2))" using "1.prems" by (simp add: bitlen.simps [of n])
    obtain l where l: "bitlen (n div 2) = Suc l" using ih(3) by (cases "bitlen (n div 2)") auto
    show ?thesis using ih(1,2) by (auto simp: b l)
  qed
qed

lemma scale_real:
  assumes "0 < d" and "scale n d e = (a, b)"
  shows "0 < b" and "real a / real b = real n / real d * 2 powi (- e)"
  using assms
  by (auto simp: scale_def power_int_def power_int_minus field_simps split: if_splits)

lemma scale_floor_real:
  assumes "0 < d"
  shows "int (scale_floor n d e) = \<lfloor>real n / real d * 2 powi (- e)\<rfloor>"
proof -
  obtain a b where ab: "scale n d e = (a, b)" by (cases "scale n d e")
  have "\<lfloor>real a / real b\<rfloor> = int (a div b)" by (rule floor_divide_of_nat_eq)
  then show ?thesis using scale_real(2) [OF assms ab] by (simp add: scale_floor_def ab)
qed

lemma powi_mult: "(2::real) powi a * 2 powi b = 2 powi (a + b)"
  by (simp add: power_int_add)

lemma powi_less_iff: "(2::real) powi a < 2 powi b \<longleftrightarrow> a < b"
  using power_int_strict_increasing [of a b "2::real"] power_int_increasing [of b a "2::real"]
  by (meson leD linorder_not_less one_le_numeral one_less_numeral_iff semiring_norm(76))

lemma bitlen_powi:
  assumes "0 < n"
  shows "2 powi (int (bitlen n) - 1) \<le> real n" and "real n < 2 powi (int (bitlen n))"
proof -
  obtain l where l: "bitlen n = Suc l" using bitlen_bounds [OF assms] by (cases "bitlen n") auto
  have "real (2 ^ l) \<le> real n" using bitlen_bounds [OF assms] l by (simp only: of_nat_le_iff) simp
  then show "2 powi (int (bitlen n) - 1) \<le> real n" by (simp add: l)
  have "real n < real (2 ^ bitlen n)" using bitlen_bounds [OF assms] by (simp only: of_nat_less_iff)
  then show "real n < 2 powi (int (bitlen n))" by simp
qed

text \<open>The bit lengths give the quotient's exponent up to one.\<close>

lemma quot_bounds:
  assumes "0 < n" and "0 < d"
  defines "t \<equiv> int (bitlen n) - int (bitlen d)"
  shows "2 powi (t - 1) < real n / real d" and "real n / real d < 2 powi (t + 1)"
proof -
  note bn = bitlen_powi [OF assms(1)] and bd = bitlen_powi [OF assms(2)]
  have "2 powi (t - 1) * real d < 2 powi (t - 1) * 2 powi (int (bitlen d))"
    using bd(2) by (intro mult_strict_left_mono) auto
  also have "\<dots> = 2 powi (int (bitlen n) - 1)"
    unfolding powi_mult by (simp add: t_def)
  finally show "2 powi (t - 1) < real n / real d"
    using bn(1) assms(2) by (simp add: field_simps)
  have "real n < 2 powi (int (bitlen n))" by (rule bn(2))
  also have "\<dots> = 2 powi (t + 1) * 2 powi (int (bitlen d) - 1)"
    unfolding powi_mult by (simp add: t_def)
  also have "\<dots> \<le> 2 powi (t + 1) * real d" using bd(1) by (intro mult_left_mono) auto
  finally show "real n / real d < 2 powi (t + 1)"
    using assms(2) by (simp add: field_simps)
qed

lemma pick_exp_exact:
  assumes n: "0 < n" and d: "0 < d" and v: "real n / real d = real m * 2 powi e"
    and c: "f_canon m e"
  shows "pick_exp n d = e"
proof -
  define t where "t = int (bitlen n) - int (bitlen d)"
  have lo: "2 powi (t - 1) < real m * 2 powi e" and hi: "real m * 2 powi e < 2 powi (t + 1)"
    using quot_bounds [OF n d] by (simp_all add: v t_def)
  have "real m < 2 powi 53" using c by (simp add: f_canon_def)
  then have "real m * 2 powi e < 2 powi 53 * 2 powi e" by (intro mult_strict_right_mono) auto
  with lo have "2 powi (t - 1) < (2::real) powi (53 + e)" by (simp only: powi_mult)
  then have t1: "t - 1 < 53 + e" by (simp only: powi_less_iff)
  have fl: "int (scale_floor n d (t - 53)) = \<lfloor>real m * 2 powi (e + 53 - t)\<rfloor>"
    unfolding scale_floor_real [OF d] v by (simp add: algebra_simps powi_mult)
  show ?thesis
  proof (cases "2 ^ 52 \<le> m")
    case True
    then have "2 powi 52 \<le> real m" by (metis numeral_power_le_of_nat_cancel_iff power_int_numeral)
    then have "2 powi 52 * 2 powi e \<le> real m * 2 powi e" by (intro mult_right_mono) auto
    then have "(2::real) powi (52 + e) < 2 powi (t + 1)" using hi by (simp only: powi_mult)
    then have t2: "52 + e < t + 1" by (simp only: powi_less_iff)
    with t1 consider "t = 53 + e" | "t = 52 + e" by linarith
    then show ?thesis
    proof cases
      case 1
      with fl have "int (scale_floor n d (t - 53)) = int m" by simp
      with 1 c show ?thesis by (simp add: pick_exp_def t_def [symmetric] f_canon_def)
    next
      case 2
      with fl have "int (scale_floor n d (t - 53)) = \<lfloor>real (2 * m)\<rfloor>" by (simp add: mult.commute)
      then have "scale_floor n d (t - 53) = 2 * m" by linarith
      with 2 c True show ?thesis by (simp add: pick_exp_def t_def [symmetric] f_canon_def)
    qed
  next
    case False
    with c have e: "e = -1074" and "m < 2 ^ 52" by (auto simp: f_canon_def)
    then have "real m < 2 powi 52" by simp
    then have "real m * 2 powi e < 2 powi 52 * 2 powi e" by (intro mult_strict_right_mono) auto
    with lo have "2 powi (t - 1) < (2::real) powi (52 + e)" by (simp only: powi_mult)
    then have "t - 1 < 52 + e" by (simp only: powi_less_iff)
    with e show ?thesis by (simp add: pick_exp_def t_def [symmetric] Let_def)
  qed
qed

lemma round_quot_exact:
  assumes "0 < n" and "0 < d" and "real n / real d = real m * 2 powi e" and "f_canon m e"
  shows "round_quot n d = Some (m, e)"
proof -
  obtain a b where ab: "scale n d e = (a, b)" by (cases "scale n d e")
  note sc = scale_real [OF assms(2) ab]
  have "real a / real b = real m" using sc(2) assms(3) by (simp add: power_int_minus)
  then have "real a = real (m * b)" using sc(1) by (simp add: field_simps)
  then have "a = m * b" by (simp only: of_nat_eq_iff)
  then show ?thesis
    using sc(1) assms(4)
    by (simp add: round_quot_def pick_exp_exact [OF assms] ab f_canon_def Let_def)
qed

section \<open>Decimals keep their value\<close>

definition dec_val :: "nat \<times> int \<Rightarrow> real" where
  "dec_val x = real (fst x) * 10 powi (snd x)"

lemma norm_dec_val [num_simps]: "dec_val (norm_dec D k) = dec_val (D, k)"
proof (induction D k rule: norm_dec.induct)
  case (1 D k)
  show ?case
  proof (cases "D = 0 \<or> D mod 10 \<noteq> 0")
    case True
    then show ?thesis by (auto simp: norm_dec.simps [of D] dec_val_def)
  next
    case False
    then have "real D = real (D div 10) * 10" by (metis mod_0_imp_dvd neq0_conv of_nat_mult of_nat_numeral dvd_div_mult_self)
    then have "dec_val (D div 10, k + 1) = dec_val (D, k)"
      by (simp add: dec_val_def power_int_add)
    then show ?thesis using 1 False by (simp add: norm_dec.simps [of D])
  qed
qed

lemma norm_dec_canon: "0 < D \<Longrightarrow> 0 < fst (norm_dec D k) \<and> fst (norm_dec D k) mod 10 \<noteq> 0"
proof (induction D k rule: norm_dec.induct)
  case (1 D k)
  then show ?case by (cases "D mod 10 = 0") (auto simp: norm_dec.simps [of D])
qed

lemma norm_dec_zero [simp]: "norm_dec 0 k = (0, 0)"
  by (simp add: norm_dec.simps)

lemma norm_dec_idem [simp]: "norm_dec (fst (norm_dec D k)) (snd (norm_dec D k)) = norm_dec D k"
proof (cases "D = 0")
  case False
  then show ?thesis
    using norm_dec_canon [of D k] by (subst norm_dec.simps) auto
qed simp

lemma norm_dec_shift: "0 < D \<Longrightarrow> norm_dec (D * 10 ^ j) k = norm_dec D (k + int j)"
proof (induction j arbitrary: k)
  case (Suc j)
  have "norm_dec (D * 10 ^ Suc j) k = norm_dec (D * 10 ^ j) (k + 1)"
    using Suc.prems by (subst norm_dec.simps) simp
  then show ?case using Suc by (simp add: add.assoc)
qed simp

lemma round_dec_exact:
  assumes "0 < m" and "dec_val x = real m * 2 powi e" and "f_canon m e"
  shows "round_dec x = Some (m, e)"
proof -
  obtain D k where x: "x = (D, k)" by (cases x)
  have "0 < real m * 2 powi e" using assms(1) by simp
  then have D: "D \<noteq> 0" using assms(2) by (cases "D = 0") (simp_all add: x dec_val_def)
  show ?thesis
  proof (cases "0 \<le> k")
    case True
    then have "real (D * 10 ^ nat k) / real 1 = real m * 2 powi e"
      using assms(2) by (simp add: x dec_val_def power_int_def)
    then show ?thesis using D True round_quot_exact [OF _ _ _ assms(3), of "D * 10 ^ nat k" 1]
      by (simp add: round_dec_def x)
  next
    case False
    then have "real D / real (10 ^ nat (- k)) = real m * 2 powi e"
      using assms(2) by (simp add: x dec_val_def power_int_def field_simps)
    then show ?thesis using D False round_quot_exact [OF _ _ _ assms(3), of D "10 ^ nat (- k)"]
      by (simp add: round_dec_def x)
  qed
qed

lemma exact_dec_val: "dec_val (exact_dec m e) = real m * 2 powi e"
proof (cases "0 \<le> e")
  case True
  then show ?thesis by (simp add: exact_dec_def norm_dec_val) (simp add: dec_val_def power_int_def)
next
  case False
  have "(10::real) ^ nat (- e) = 2 ^ nat (- e) * 5 ^ nat (- e)" by (simp flip: power_mult_distrib)
  then show ?thesis using False
    by (simp add: exact_dec_def norm_dec_val) (simp add: dec_val_def power_int_def field_simps)
qed

section \<open>The digits written for a value read back as it\<close>

text \<open>A decimal in canonical form that rounds to the value.\<close>

definition good_dec :: "nat \<Rightarrow> int \<Rightarrow> nat \<times> int \<Rightarrow> bool" where
  "good_dec m e x \<longleftrightarrow> round_dec x = Some (m, e) \<and> norm_dec (fst x) (snd x) = x"

lemma dec_of_len_good: "dec_of_len m e len = Some x \<Longrightarrow> good_dec m e x"
  by (auto simp: dec_of_len_def good_dec_def Let_def split: prod.splits if_splits)

lemma shortest_from_good:
  "0 < m \<Longrightarrow> f_canon m e \<Longrightarrow> good_dec m e (shortest_from m e lens)"
proof (induction lens)
  case Nil
  have "round_dec (exact_dec m e) = Some (m, e)"
    by (rule round_dec_exact [OF Nil(1) exact_dec_val Nil(2)])
  then show ?case by (simp add: good_dec_def exact_dec_def)
next
  case (Cons len lens)
  then show ?case by (auto simp: dec_of_len_good split: option.splits)
qed

lemma shortest_good:
  assumes "f_canon m e"
  shows "good_dec m e (shortest m e)"
proof (cases "m = 0")
  case True
  then show ?thesis using assms
    by (auto simp: shortest_def good_dec_def round_dec_def f_canon_def)
next
  case False
  then show ?thesis using shortest_from_good [OF _ assms] by (simp add: shortest_def)
qed

section \<open>The text written for a value reads back as it\<close>

lemma digits_split:
  assumes "list_all is_digit a" and "b = [] \<or> \<not> is_digit (hd b)"
  shows "takeWhile is_digit (a @ b) = a" and "dropWhile is_digit (a @ b) = b"
  using assms by (induction a) (auto simp: list_all_iff, (cases b, auto)+)

lemma show_nat_all_digits [simp]: "list_all is_digit (show_nat n)"
  by (simp add: list_all_iff show_nat_digits)

lemma not_digit [simp]: "\<not> is_digit CHR ''.''" "\<not> is_digit CHR ''e''" "\<not> is_digit CHR ''-''"
  "is_digit CHR ''0''"
  by (simp_all add: is_digit_def)

lemma read_nat_append [num_simps]: "read_nat (a @ b) = read_nat a * 10 ^ length b + read_nat b"
proof (induction b rule: rev_induct)
  case Nil
  show ?case by (simp add: read_nat_def)
next
  case (snoc c b)
  have "read_nat (a @ b @ [c]) = 10 * read_nat (a @ b) + digit_val c"
    using read_nat_snoc [of "a @ b" c] by simp
  then show ?case using snoc by (simp add: read_nat_snoc algebra_simps)
qed

lemma read_nat_zeros [num_simps, simp]: "read_nat (replicate n CHR ''0'') = 0"
  by (induction n) (simp_all add: read_nat_def digit_val_def)

lemma read_nat_zero_Cons [num_simps, simp]: "read_nat (CHR ''0'' # s) = read_nat s"
  by (simp add: read_nat_def digit_val_def)

lemma parse_exp_fmt [num_simps]: "parse_exp (CHR ''e'' # fmt_exp x) = Some x"
proof -
  obtain c cs where "show_nat (nat \<bar>x\<bar>) = c # cs" by (cases "show_nat (nat \<bar>x\<bar>)") auto
  then show ?thesis
    by (auto simp: parse_exp_def fmt_exp_def read_show_nat)
qed

lemma parse_unsigned_parts:
  assumes "list_all is_digit ip" and "ip \<noteq> []" and "hd ip \<noteq> CHR ''0'' \<or> ip = ''0''"
    and "s = [] \<or> \<not> is_digit (hd s)"
    and "parse_frac s = Some (fp, t)" and "parse_exp t = Some x"
  shows "parse_unsigned (ip @ s) = Some (ip, fp, x)"
  using assms by (auto simp: parse_unsigned_def digits_split)

lemma parse_frac_dot:
  assumes "list_all is_digit fp" and "fp \<noteq> []" and "t = [] \<or> \<not> is_digit (hd t)"
  shows "parse_frac (CHR ''.'' # fp @ t) = Some (fp, t)"
  using assms by (simp add: parse_frac_def digits_split)

text \<open>A canonical decimal with at least one digit; both notations give its value back.\<close>

lemma parse_fmt_e:
  assumes "0 < D"
  defines "ds \<equiv> show_nat D"
  shows "parse_unsigned (fmt_e ds dp) = Some (take 1 ds, drop 1 ds, dp - 1)"
proof -
  obtain c cs where ds: "ds = c # cs" by (cases ds) (auto simp: ds_def)
  have c: "is_digit c" "c \<noteq> CHR ''0''" "list_all is_digit cs"
    using show_nat_all_digits [of D] show_nat_hd [OF assms(1)] by (simp_all add: ds ds_def [symmetric])
  define t where "t = CHR ''e'' # fmt_exp (dp - 1)"
  have t: "t = [] \<or> \<not> is_digit (hd t)" "parse_exp t = Some (dp - 1)"
    by (simp_all add: t_def parse_exp_fmt)
  have fr: "parse_frac ((if cs = [] then [] else CHR ''.'' # cs) @ t) = Some (cs, t)"
    using parse_frac_dot [OF c(3) _ t(1)] by (auto simp: parse_frac_def t_def)
  have "parse_unsigned ([c] @ (if cs = [] then [] else CHR ''.'' # cs) @ t)
      = Some ([c], cs, dp - 1)"
    by (rule parse_unsigned_parts [OF _ _ _ _ fr t(2)]) (auto simp: c t_def)
  then show ?thesis by (auto simp: fmt_e_def ds t_def)
qed

lemma parse_fmt_f:
  assumes "0 < D"
  defines "ds \<equiv> show_nat D"
  assumes k: "dp = int (length ds) + k"
  obtains ip fp where "parse_unsigned (fmt_f ds dp) = Some (ip, fp, 0)"
    and "norm_dec (read_nat (ip @ fp)) (0 - int (length fp)) = norm_dec D k"
proof -
  have dig: "list_all is_digit ds" "ds \<noteq> []" "hd ds \<noteq> CHR ''0''" "read_nat ds = D"
    using show_nat_hd [OF assms(1)] by (simp_all add: ds_def read_show_nat)
  consider (small) "dp \<le> 0" | (mid) "0 < dp" "dp < int (length ds)" | (big) "int (length ds) \<le> dp"
    by linarith
  then show ?thesis
  proof cases
    case small
    let ?fp = "replicate (nat (- dp)) CHR ''0'' @ ds"
    have fmt: "fmt_f ds dp = ''0'' @ CHR ''.'' # ?fp"
      using small dig(2) by (cases ds) (auto simp: fmt_f_def)
    have "parse_frac (CHR ''.'' # ?fp) = Some (?fp, [])"
      using parse_frac_dot [of ?fp "[]"] dig by (fastforce simp: list_all_iff)
    then have "parse_unsigned (fmt_f ds dp) = Some (''0'', ?fp, 0)"
      unfolding fmt by (intro parse_unsigned_parts) (auto simp: parse_exp_def)
    then show ?thesis
      using that [of "''0''" ?fp] small k dig(4) by (simp add: read_nat_append)
  next
    case mid
    let ?ip = "take (nat dp) ds" and ?fp = "drop (nat dp) ds"
    have fmt: "fmt_f ds dp = ?ip @ CHR ''.'' # ?fp" using mid by (auto simp: fmt_f_def)
    have all: "list_all is_digit ?ip" "list_all is_digit ?fp"
      using dig(1) by (auto simp: list_all_iff dest: in_set_takeD in_set_dropD)
    have "parse_frac (CHR ''.'' # ?fp) = Some (?fp, [])"
      using parse_frac_dot [of ?fp "[]"] all mid by simp
    then have "parse_unsigned (fmt_f ds dp) = Some (?ip, ?fp, 0)"
      unfolding fmt using all mid dig by (intro parse_unsigned_parts) (auto simp: parse_exp_def)
    then show ?thesis using that [of ?ip ?fp] mid k dig(4) by simp
  next
    case big
    let ?ip = "ds @ replicate (nat dp - length ds) CHR ''0''"
    have fmt: "fmt_f ds dp = ?ip @ []"
      using big dig(2) by (cases ds) (auto simp: fmt_f_def)
    have "parse_unsigned (fmt_f ds dp) = Some (?ip, [], 0)"
      unfolding fmt using dig
      by (intro parse_unsigned_parts) (auto simp: parse_exp_def parse_frac_def list_all_iff)
    moreover have "norm_dec (read_nat (?ip @ [])) 0 = norm_dec D k"
      using norm_dec_shift [OF assms(1), of "nat dp - length ds" 0] big k dig(4)
      by (simp add: read_nat_append)
    ultimately show ?thesis using that [of ?ip "[]"] by simp
  qed
qed

text \<open>The number body has no sign of its own.\<close>

lemma parse_unsigned_digit: "parse_unsigned s = Some x \<Longrightarrow> s \<noteq> [] \<and> is_digit (hd s)"
  by (cases s) (auto simp: parse_unsigned_def Let_def split: if_splits)

lemma parse_num_signed:
  assumes "parse_unsigned s = Some (ip, fp, x)"
  shows "parse_num (if neg then CHR ''-'' # s else s) = Some (neg, ip, fp, x)"
proof -
  obtain c cs where s: "s = c # cs" and "is_digit c"
    using parse_unsigned_digit [OF assms] by (cases s) auto
  then have "c \<noteq> CHR ''-''" by auto
  then show ?thesis using assms by (simp add: parse_num_def s)
qed

theorem parse_show_float:
  assumes "f_wf f"
  shows "parse_float (show_float f) = Some f"
proof -
  obtain neg m e where f: "f = F64 neg m e" by (cases f)
  have c: "f_canon m e" using assms by (simp add: f_wf_def f)
  obtain D k where sh: "shortest m e = (D, k)" by (cases "shortest m e")
  have rd: "round_dec (D, k) = Some (m, e)" and nd: "norm_dec D k = (D, k)"
    using shortest_good [OF c] by (simp_all add: good_dec_def sh)
  define ds where "ds = show_nat D"
  define dp where "dp = int (length ds) + k"
  define body where "body = (if D \<noteq> 0 \<and> (dp < -5 \<or> 21 < dp) then fmt_e ds dp
                  else if D = 0 then ''0'' else fmt_f ds dp)"
  have shf: "show_float f = (if neg then CHR ''-'' # body else body)"
    by (simp add: show_float_def f sh body_def ds_def dp_def Let_def)
  obtain ip fp x where p: "parse_unsigned body = Some (ip, fp, x)"
    and v: "norm_dec (read_nat (ip @ fp)) (x - int (length fp)) = (D, k)"
  proof (cases "D = 0")
    case True
    then have "k = 0" using nd by simp
    moreover have "parse_unsigned ''0'' = Some (''0'', [], 0)"
      by (simp add: parse_unsigned_def parse_frac_def parse_exp_def)
    ultimately show ?thesis using that [of "''0''" "[]" 0] True by (simp add: body_def read_nat_def digit_val_def)
  next
    case False
    then have D: "0 < D" by simp
    show ?thesis
    proof (cases "dp < -5 \<or> 21 < dp")
      case True
      obtain c cs where "show_nat D = c # cs" by (cases "show_nat D") auto
      then have "dp - 1 - int (length (drop 1 ds)) = k" by (simp add: dp_def ds_def)
      moreover have "take 1 ds @ drop 1 ds = ds" by (rule append_take_drop_id)
      ultimately show ?thesis
        using that [of "take 1 ds" "drop 1 ds" "dp - 1"] parse_fmt_e [OF D, of dp] True D nd
        by (simp add: body_def ds_def read_show_nat)
    next
      case False
      obtain ip fp where "parse_unsigned (fmt_f ds dp) = Some (ip, fp, 0)"
        and "norm_dec (read_nat (ip @ fp)) (0 - int (length fp)) = norm_dec D k"
        using parse_fmt_f [OF D, of dp k] by (auto simp: ds_def dp_def)
      then show ?thesis using that [of ip fp 0] False D nd by (simp add: body_def)
    qed
  qed
  show ?thesis
    using parse_num_signed [OF p, of neg] v rd
    by (simp add: parse_float_def shf [unfolded f] read_float_def f)
qed

end
