(* ===== verification/Go_Json.thy ===== *)
theory Go_Json
  imports Go_Utf8 Go_Float
begin

text \<open>
  \<open>encoding/json\<close> as the program uses it: the text \<open>Marshal\<close> writes, the reader behind
  \<open>Unmarshal\<close> and \<open>Decoder.Decode\<close> (a state machine over tokens with a bounded nesting
  stack, like the package's own scanner), and the conversion between JSON values and Go's
  \<open>any\<close>.  The main facts are the round trips: what \<open>Marshal\<close> wrote is read back as the same
  value, alone (\<open>json_parse_print\<close>) or followed by more input.
\<close>

section \<open>JSON values\<close>

datatype jval =
    JNull
  | JBool bool
  | JNum string  \<comment> \<open>the literal\<close>
  | JStr string
  | JArr "jval list"
  | JObj "(string \<times> jval) list"  \<comment> \<open>members in text order, duplicates kept\<close>

section \<open>Writing\<close>

fun print_j :: "jval \<Rightarrow> string"
and print_rest :: "jval list \<Rightarrow> string"
and print_mems :: "(string \<times> jval) list \<Rightarrow> string" where
  "print_j JNull = ''null''"
| "print_j (JBool b) = (if b then ''true'' else ''false'')"
| "print_j (JNum s) = s"
| "print_j (JStr s) = quote s"
| "print_j (JArr []) = ''[]''"
| "print_j (JArr (v # vs)) = CHR ''['' # print_j v @ print_rest vs @ '']''"
| "print_j (JObj []) = ''{}''"
| "print_j (JObj ((k, v) # kvs)) =
     CHR ''{'' # quote k @ CHR '':'' # print_j v @ print_mems kvs @ ''}''"
| "print_rest [] = []"
| "print_rest (v # vs) = CHR '','' # print_j v @ print_rest vs"
| "print_mems [] = []"
| "print_mems ((k, v) # kvs) =
     CHR '','' # quote k @ CHR '':'' # print_j v @ print_mems kvs"

section \<open>Tokens\<close>

datatype tok = TLit jval | TStr string | TLBrack | TRBrack | TLBrace | TRBrace | TColon | TComma

definition is_ws :: "char \<Rightarrow> bool" where
  "is_ws c \<longleftrightarrow> byte_of c = 32 \<or> byte_of c = 9 \<or> byte_of c = 10 \<or> byte_of c = 13"

definition num_char :: "char \<Rightarrow> bool" where
  "num_char c \<longleftrightarrow> is_digit c \<or> c = CHR ''-'' \<or> c = CHR ''+'' \<or> c = CHR ''.'' \<or> c = CHR ''e'' \<or> c = CHR ''E''"

definition punct :: "char \<Rightarrow> tok option" where
  "punct c =
     (if c = CHR ''['' then Some TLBrack
      else if c = CHR '']'' then Some TRBrack
      else if c = CHR ''{'' then Some TLBrace
      else if c = CHR ''}'' then Some TRBrace
      else if c = CHR '':'' then Some TColon
      else if c = CHR '','' then Some TComma
      else None)"

text \<open>
  One token and the rest of the input.  No JSON text has a number directly followed by
  another number character, so the longest run of them must itself be a number.
\<close>

definition next_token :: "string \<Rightarrow> (tok \<times> string) option" where
  "next_token s0 =
     (let s = dropWhile is_ws s0 in
      case s of [] \<Rightarrow> None
      | c # t \<Rightarrow>
         (case punct c of Some k \<Rightarrow> Some (k, t)
          | None \<Rightarrow>
             if c = quote_chr then map_option (\<lambda>(x, r). (TStr x, r)) (unquote t)
             else if has_prefix s ''null'' then Some (TLit JNull, drop 4 s)
             else if has_prefix s ''true'' then Some (TLit (JBool True), drop 4 s)
             else if has_prefix s ''false'' then Some (TLit (JBool False), drop 5 s)
             else if num_char c \<and> parse_num (takeWhile num_char s) \<noteq> None
               then Some (TLit (JNum (takeWhile num_char s)), dropWhile num_char s)
             else None))"

section \<open>The reader\<close>

text \<open>
  An open array holds its elements so far (latest first); an open object its members so far
  and the key whose value is being read.  The mode is what the next token may be.
\<close>

datatype frame = FArr "jval list" | FObj "(string \<times> jval) list" string

datatype mode = MVal | MArr0 | MKey0 | MKey | MColon | MAfter

datatype outcome_j = Fail | Done jval | Cont mode "frame list"

definition complete :: "jval \<Rightarrow> frame list \<Rightarrow> outcome_j" where
  "complete v fs =
     (case fs of [] \<Rightarrow> Done v
      | FArr vs # fs' \<Rightarrow> Cont MAfter (FArr (v # vs) # fs')
      | FObj kvs k # fs' \<Rightarrow> Cont MAfter (FObj ((k, v) # kvs) k # fs'))"

text \<open>\<open>maxNestingDepth\<close> of the package.\<close>

definition max_depth :: nat where
  "max_depth = 10000"

definition push :: "frame \<Rightarrow> mode \<Rightarrow> frame list \<Rightarrow> outcome_j" where
  "push f m fs = (if length fs < max_depth then Cont m (f # fs) else Fail)"

definition begin_value :: "frame list \<Rightarrow> tok \<Rightarrow> outcome_j" where
  "begin_value fs t =
     (case t of
        TLit v \<Rightarrow> complete v fs
      | TStr s \<Rightarrow> complete (JStr s) fs
      | TLBrack \<Rightarrow> push (FArr []) MArr0 fs
      | TLBrace \<Rightarrow> push (FObj [] []) MKey0 fs
      | _ \<Rightarrow> Fail)"

definition begin_key :: "frame list \<Rightarrow> tok \<Rightarrow> outcome_j" where
  "begin_key fs t =
     (case (t, fs) of (TStr k, FObj kvs _ # fs') \<Rightarrow> Cont MColon (FObj kvs k # fs') | _ \<Rightarrow> Fail)"

fun step_j :: "mode \<Rightarrow> frame list \<Rightarrow> tok \<Rightarrow> outcome_j" where
  "step_j MVal fs t = begin_value fs t"
| "step_j MArr0 fs t =
     (if t = TRBrack then complete (JArr []) (tl fs) else begin_value fs t)"
| "step_j MKey0 fs t =
     (if t = TRBrace then complete (JObj []) (tl fs) else begin_key fs t)"
| "step_j MKey fs t = begin_key fs t"
| "step_j MColon fs t = (if t = TColon then Cont MVal fs else Fail)"
| "step_j MAfter (FArr vs # fs) t =
     (if t = TComma then Cont MVal (FArr vs # fs)
      else if t = TRBrack then complete (JArr (rev vs)) fs
      else Fail)"
| "step_j MAfter (FObj kvs k # fs) t =
     (if t = TComma then Cont MKey (FObj kvs k # fs)
      else if t = TRBrace then complete (JObj (rev kvs)) fs
      else Fail)"
| "step_j MAfter [] t = Fail"

lemma dropWhile_length: "length (dropWhile p s) \<le> length s"
  by (induction s) auto

lemma unquote_shorter: "unquote s = Some (x, r) \<Longrightarrow> length r < length s"
proof (induction s arbitrary: x r rule: unquote.induct)
  case (1 s)
  obtain c t where s: "s = c # t" using "1.prems" by (cases s) (auto simp: unquote.simps [of "[]"])
  have pre: "prepend p q = Some (x, r) \<Longrightarrow> \<exists>y. q = Some (y, r)" for p q
    by (cases q) auto
  note eq = unquote.simps [of "c # t"]
  consider (q) "c = quote_chr"
    | (b) "c \<noteq> quote_chr" "c = bslash"
    | (low) "c \<noteq> quote_chr" "c \<noteq> bslash" "byte_of c < 0x20"
    | (asc) "c \<noteq> quote_chr" "c \<noteq> bslash" "\<not> byte_of c < 0x20" "byte_of c < 0x80"
    | (bad) "c \<noteq> quote_chr" "c \<noteq> bslash" "\<not> byte_of c < 0x20" "\<not> byte_of c < 0x80" "rune_len s = 0"
    | (rune) "c \<noteq> quote_chr" "c \<noteq> bslash" "\<not> byte_of c < 0x20" "\<not> byte_of c < 0x80" "rune_len s \<noteq> 0"
    by blast
  then show ?case
  proof cases
    case q
    then show ?thesis using "1.prems" by (simp add: s unquote.simps [of "quote_chr # t"])
  next
    case b
    then obtain w u where w: "read_escape t = Some (w, u)" and "prepend w (unquote u) = Some (x, r)"
      using "1.prems" by (auto simp: s unquote.simps [of "bslash # t"] split: option.splits)
    then obtain y where "unquote u = Some (y, r)" using pre by blast
    then have "length r < length u" using 1(1) [OF s b w] by simp
    then show ?thesis using read_escape_shorter [OF w] by (simp add: s)
  next
    case low
    then show ?thesis using "1.prems" by (simp add: s eq)
  next
    case asc
    then have "prepend [c] (unquote t) = Some (x, r)" using "1.prems" by (simp add: s eq)
    then obtain y where "unquote t = Some (y, r)" using pre by blast
    then show ?thesis using 1(2) [OF s asc] by (simp add: s)
  next
    case bad
    then have "prepend rune_error (unquote t) = Some (x, r)" using "1.prems" by (simp add: s eq)
    then obtain y where "unquote t = Some (y, r)" using pre by blast
    then show ?thesis using 1(3) [OF s bad] by (simp add: s)
  next
    case rune
    then have "prepend (take (rune_len s) s) (unquote (drop (rune_len s) s)) = Some (x, r)"
      using "1.prems" by (simp add: s eq)
    then obtain y where "unquote (drop (rune_len s) s) = Some (y, r)" using pre by blast
    then show ?thesis using 1(4) [OF s rune] by (simp add: s)
  qed
qed

lemma next_token_shorter:
  assumes "next_token s0 = Some (t, r)"
  shows "length r < length s0"
proof -
  obtain c u where s: "dropWhile is_ws s0 = c # u"
    using assms by (cases "dropWhile is_ws s0") (auto simp: next_token_def)
  then have "length u < length s0" using dropWhile_length [of is_ws s0] by simp
  moreover have "length r \<le> length u"
  proof -
    have "length (dropWhile num_char (c # u)) \<le> length u" if "num_char c"
      using that dropWhile_length [of num_char u] by simp
    then show ?thesis
      using assms by (auto simp: next_token_def s Let_def dest!: unquote_shorter split: option.splits if_splits)
  qed
  ultimately show ?thesis by simp
qed

function run_j :: "mode \<Rightarrow> frame list \<Rightarrow> string \<Rightarrow> (jval \<times> string) option" where
  "run_j m fs s =
     (case next_token s of None \<Rightarrow> None
      | Some (t, r) \<Rightarrow>
          (case step_j m fs t of
             Fail \<Rightarrow> None
           | Done v \<Rightarrow> Some (v, r)
           | Cont m' fs' \<Rightarrow> run_j m' fs' r))"
  by pat_completeness auto
termination
  by (relation "measure (\<lambda>(m, fs, s). length s)") (auto simp: next_token_shorter)

declare run_j.simps [simp del]

text \<open>
  \<open>Decoder.Decode\<close> reads one value and leaves the rest; \<open>Unmarshal\<close> wants nothing but white
  space after it.
\<close>

definition json_decode :: "string \<Rightarrow> jval option" where
  "json_decode s = map_option fst (run_j MVal [] s)"

definition json_parse :: "string \<Rightarrow> jval option" where
  "json_parse s =
     (case run_j MVal [] s of
        Some (v, r) \<Rightarrow> if dropWhile is_ws r = [] then Some v else None
      | None \<Rightarrow> None)"


section \<open>What was written is read back\<close>

fun jsan :: "jval \<Rightarrow> jval"
and jsan_list :: "jval list \<Rightarrow> jval list"
and jsan_mems :: "(string \<times> jval) list \<Rightarrow> (string \<times> jval) list" where
  "jsan JNull = JNull"
| "jsan (JBool b) = JBool b"
| "jsan (JNum s) = JNum s"
| "jsan (JStr s) = JStr (coerce_utf8 s)"
| "jsan (JArr vs) = JArr (jsan_list vs)"
| "jsan (JObj kvs) = JObj (jsan_mems kvs)"
| "jsan_list [] = []"
| "jsan_list (v # vs) = jsan v # jsan_list vs"
| "jsan_mems [] = []"
| "jsan_mems ((k, v) # kvs) = (coerce_utf8 k, jsan v) # jsan_mems kvs"

fun jdepth :: "jval \<Rightarrow> nat"
and jdepth_list :: "jval list \<Rightarrow> nat"
and jdepth_mems :: "(string \<times> jval) list \<Rightarrow> nat" where
  "jdepth (JArr vs) = Suc (jdepth_list vs)"
| "jdepth (JObj kvs) = Suc (jdepth_mems kvs)"
| "jdepth _ = 0"
| "jdepth_list [] = 0"
| "jdepth_list (v # vs) = max (jdepth v) (jdepth_list vs)"
| "jdepth_mems [] = 0"
| "jdepth_mems ((k, v) # kvs) = max (jdepth v) (jdepth_mems kvs)"

definition num_lit :: "string \<Rightarrow> bool" where
  "num_lit s \<longleftrightarrow> list_all num_char s \<and> parse_num s \<noteq> None"

fun jok :: "jval \<Rightarrow> bool"
and jok_list :: "jval list \<Rightarrow> bool"
and jok_mems :: "(string \<times> jval) list \<Rightarrow> bool" where
  "jok (JNum s) = num_lit s"
| "jok (JArr vs) = jok_list vs"
| "jok (JObj kvs) = jok_mems kvs"
| "jok _ = True"
| "jok_list [] = True"
| "jok_list (v # vs) = (jok v \<and> jok_list vs)"
| "jok_mems [] = True"
| "jok_mems ((k, v) # kvs) = (jok v \<and> jok_mems kvs)"

lemma next_punct: "punct c = Some k \<Longrightarrow> next_token (c # t) = Some (k, t)"
  by (auto simp: next_token_def punct_def is_ws_def split: if_splits)

lemma next_quote: "next_token (quote s @ r) = Some (TStr (coerce_utf8 s), r)"
proof -
  have "quote s @ r = quote_chr # esc_str s @ quote_chr # r" by (simp add: quote_def)
  then show ?thesis
    by (simp add: next_token_def is_ws_def punct_def unquote_esc_str)
qed

lemma next_word:
  "next_token (''null'' @ r) = Some (TLit JNull, r)"
  "next_token (''true'' @ r) = Some (TLit (JBool True), r)"
  "next_token (''false'' @ r) = Some (TLit (JBool False), r)"
  by (simp_all add: next_token_def is_ws_def punct_def has_prefix_def)

lemma parse_num_head: "parse_num s \<noteq> None \<Longrightarrow> \<exists>c t. s = c # t \<and> (is_digit c \<or> c = CHR ''-'')"
proof (cases s)
  case (Cons c t)
  assume "parse_num s \<noteq> None"
  then show ?thesis
    using parse_unsigned_digit [of s] by (cases "c = CHR ''-''") (auto simp: parse_num_def Cons)
qed (simp add: parse_num_def)

lemma num_run:
  "list_all num_char s \<Longrightarrow> r = [] \<or> \<not> num_char (hd r) \<Longrightarrow>
   takeWhile num_char (s @ r) = s \<and> dropWhile num_char (s @ r) = r"
  by (induction s) (auto, (cases r, auto)+)

lemma next_num:
  assumes "num_lit s" and "r = [] \<or> \<not> num_char (hd r)"
  shows "next_token (s @ r) = Some (TLit (JNum s), r)"
proof -
  obtain c t where s: "s = c # t" and c: "is_digit c \<or> c = CHR ''-''"
    using assms(1) parse_num_head [of s] by (auto simp: num_lit_def)
  have p: "punct c = None" "\<not> is_ws c" "c \<noteq> quote_chr" "num_char c"
    "c \<noteq> CHR ''n''" "c \<noteq> CHR ''t''" "c \<noteq> CHR ''f''"
    using c by (auto simp: punct_def is_ws_def num_char_def is_digit_def)
  have w: "takeWhile num_char (s @ r) = s" "dropWhile num_char (s @ r) = r"
    using num_run assms by (auto simp: num_lit_def)
  have "parse_num s \<noteq> None" using assms(1) by (simp add: num_lit_def)
  then show ?thesis
    using w by (simp add: s next_token_def p has_prefix_def)
qed

definition finish :: "jval \<Rightarrow> frame list \<Rightarrow> string \<Rightarrow> (jval \<times> string) option" where
  "finish v fs r =
     (case complete v fs of
        Fail \<Rightarrow> None | Done w \<Rightarrow> Some (w, r) | Cont m fs' \<Rightarrow> run_j m fs' r)"

lemma run_token:
  assumes "next_token s = Some (t, r)"
  shows "run_j m fs s =
     (case step_j m fs t of Fail \<Rightarrow> None | Done v \<Rightarrow> Some (v, r) | Cont m' fs' \<Rightarrow> run_j m' fs' r)"
  using assms by (subst run_j.simps) simp

lemma run_simple:
  assumes "next_token s = Some (t, r)" and "m = MVal \<or> m = MArr0"
    and "t = TLit v \<or> (\<exists>x. t = TStr x \<and> v = JStr x)"
  shows "run_j m fs s = finish v fs r"
  using assms by (auto simp: run_token finish_def begin_value_def)

lemma run_open:
  assumes "m = MVal \<or> m = MArr0" and "length fs < max_depth"
  shows "run_j m fs (CHR ''['' # s) = run_j MArr0 (FArr [] # fs) s"
    and "run_j m fs (CHR ''{'' # s) = run_j MKey0 (FObj [] [] # fs) s"
  using assms
  by (auto simp: run_token [OF next_punct] punct_def begin_value_def push_def)

lemma run_close:
  "run_j MArr0 (FArr [] # fs) (CHR '']'' # r) = finish (JArr []) fs r"
  "run_j MKey0 (FObj [] [] # fs) (CHR ''}'' # r) = finish (JObj []) fs r"
  "run_j MAfter (FArr vs # fs) (CHR '']'' # r) = finish (JArr (rev vs)) fs r"
  "run_j MAfter (FObj kvs k # fs) (CHR ''}'' # r) = finish (JObj (rev kvs)) fs r"
  by (simp_all add: run_token [OF next_punct] punct_def finish_def)

lemma run_comma:
  "run_j MAfter (FArr vs # fs) (CHR '','' # r) = run_j MVal (FArr vs # fs) r"
  "run_j MAfter (FObj kvs k # fs) (CHR '','' # r) = run_j MKey (FObj kvs k # fs) r"
  by (simp_all add: run_token [OF next_punct] punct_def)

lemma run_key:
  assumes "m = MKey0 \<or> m = MKey"
  shows "run_j m (FObj kvs k0 # fs) (quote k @ CHR '':'' # r) = run_j MVal (FObj kvs (coerce_utf8 k) # fs) r"
  using assms
  by (auto simp: run_token [OF next_quote] run_token [OF next_punct] punct_def begin_key_def)

lemma finish_frames:
  "finish v (FArr vs # fs) r = run_j MAfter (FArr (v # vs) # fs) r"
  "finish v (FObj kvs k # fs) r = run_j MAfter (FObj ((k, v) # kvs) k # fs) r"
  by (simp_all add: finish_def complete_def)

lemmas run_facts = run_open run_close run_comma run_key finish_frames

text \<open>What follows a value never continues a number.\<close>

definition boundary :: "string \<Rightarrow> bool" where
  "boundary r \<longleftrightarrow> r = [] \<or> \<not> num_char (hd r)"

lemma boundary_simps [simp]:
  "boundary []" "boundary (CHR '','' # r)" "boundary (CHR '']'' # r)" "boundary (CHR ''}'' # r)"
  "boundary (CHR 0x0A # r)"
  by (simp_all add: boundary_def num_char_def is_digit_def)

lemma boundary_rest [simp]: "boundary (print_rest vs @ CHR '']'' # r)"
  by (cases vs) simp_all

lemma boundary_mems [simp]: "boundary (print_mems kvs @ CHR ''}'' # r)"
  by (cases kvs rule: print_mems.cases) simp_all

lemma run_print:
  "jok v \<Longrightarrow> jdepth v + length fs \<le> max_depth \<Longrightarrow> boundary r \<Longrightarrow> m = MVal \<or> m = MArr0 \<Longrightarrow>
     run_j m fs (print_j v @ r) = finish (jsan v) fs r"
  "jok_list vs \<Longrightarrow> jdepth_list vs + Suc (length fs) \<le> max_depth \<Longrightarrow>
     run_j MAfter (FArr acc # fs) (print_rest vs @ CHR '']'' # r)
       = finish (JArr (rev acc @ jsan_list vs)) fs r"
  "jok_mems kvs \<Longrightarrow> jdepth_mems kvs + Suc (length fs) \<le> max_depth \<Longrightarrow>
     run_j MAfter (FObj kacc k # fs) (print_mems kvs @ CHR ''}'' # r)
       = finish (JObj (rev kacc @ jsan_mems kvs)) fs r"
proof (induction v and vs and kvs arbitrary: m fs r and fs acc r and fs kacc k r
    rule: print_j_print_rest_print_mems.induct)
  case 1
  then show ?case using run_simple [OF next_word(1)] by simp
next
  case (2 b)
  then show ?case using run_simple [OF next_word(2)] run_simple [OF next_word(3)] by (cases b) auto
next
  case (3 s)
  then show ?case using run_simple [OF next_num] by (simp add: boundary_def)
next
  case (4 s)
  then show ?case using run_simple [OF next_quote] by simp
next
  case 5
  then show ?case by (simp add: run_facts)
next
  case (6 v vs)
  then show ?case by (simp add: run_facts)
next
  case 7
  then show ?case by (simp add: run_facts)
next
  case (8 k v kvs)
  then show ?case by (simp add: run_facts)
next
  case 9
  then show ?case by (simp add: run_facts)
next
  case (10 v vs)
  then show ?case by (simp add: run_facts)
next
  case 11
  then show ?case by (simp add: run_facts)
next
  case (12 k v kvs)
  then show ?case by (simp add: run_facts)
qed

text \<open>
  The nesting bound is the package's own; the coercion of strings is the identity on valid
  UTF-8.
\<close>

theorem json_parse_print:
  assumes "jok v" and "jdepth v \<le> max_depth"
  shows "json_parse (print_j v) = Some (jsan v)"
  using run_print(1) [OF assms(1), of "[]" "[]" MVal] assms(2)
  by (simp add: json_parse_def finish_def complete_def)

theorem json_decode_print:
  assumes "jok v" and "jdepth v \<le> max_depth" and "boundary r"
  shows "json_decode (print_j v @ r) = Some (jsan v)"
  using run_print(1) [OF assms(1) _ assms(3), of "[]" MVal] assms(2)
  by (simp add: json_decode_def finish_def complete_def)

end
