(* ===== verification/Go_Value.thy ===== *)
theory Go_Value
  imports Go_Json
begin

text \<open>
  Go's \<open>any\<close> as the program meets it (what \<open>encoding/json\<close> produces and what the program
  builds from strings and maps), type assertions and map reads with their comma-ok forms,
  and the conversion from and to JSON: \<open>Marshal\<close> of a value, \<open>Unmarshal\<close> into
  \<open>map[string]any\<close>, and the decoding of objects into structs (exact name first, then the
  case-folded one, later members over earlier ones, \<open>null\<close> leaving a scalar alone).
\<close>

datatype gval =
    VNull
  | VBool bool
  | VNum float64
  | VStr string
  | VArr "gval list"
  | VObj "(string \<times> gval) list"

type_synonym gmap = "gval smap"

text \<open>A \<open>map[string]any\<close> variable: \<open>None\<close> is the nil map, which reads as empty.\<close>

type_synonym mapv = "gmap option"

definition entries :: "mapv \<Rightarrow> gmap" where
  "entries m = (case m of None \<Rightarrow> [] | Some kvs \<Rightarrow> kvs)"

lemma entries_simps [simp]: "entries None = []" "entries (Some m) = m"
  by (simp_all add: entries_def)

section \<open>Type assertions\<close>

fun as_str :: "gval \<Rightarrow> string option" where
  "as_str (VStr s) = Some s"
| "as_str _ = None"

fun as_bool :: "gval \<Rightarrow> bool option" where
  "as_bool (VBool b) = Some b"
| "as_bool _ = None"

fun as_map :: "gval \<Rightarrow> gmap option" where
  "as_map (VObj m) = Some m"
| "as_map _ = None"

fun as_arr :: "gval \<Rightarrow> gval list option" where
  "as_arr (VArr vs) = Some vs"
| "as_arr _ = None"

text \<open>\<open>v, ok := m[k].(T)\<close>: a missing key is a nil interface, so the assertion fails.\<close>

definition get_str :: "gmap \<Rightarrow> string \<Rightarrow> string option" where
  "get_str m k = Option.bind (mget m k) as_str"

definition get_bool :: "gmap \<Rightarrow> string \<Rightarrow> bool option" where
  "get_bool m k = Option.bind (mget m k) as_bool"

definition get_map :: "gmap \<Rightarrow> string \<Rightarrow> gmap option" where
  "get_map m k = Option.bind (mget m k) as_map"

definition get_arr :: "gmap \<Rightarrow> string \<Rightarrow> gval list option" where
  "get_arr m k = Option.bind (mget m k) as_arr"

lemmas get_defs = get_str_def get_bool_def get_map_def get_arr_def

lemma get_mput [gmap_simps]:
  "get_str (mput k v m) a = (if a = k then as_str v else get_str m a)"
  "get_bool (mput k v m) a = (if a = k then as_bool v else get_bool m a)"
  "get_map (mput k v m) a = (if a = k then as_map v else get_map m a)"
  "get_arr (mput k v m) a = (if a = k then as_arr v else get_arr m a)"
  by (simp_all add: get_defs mget_mput)

lemma get_Nil [gmap_simps]:
  "get_str [] a = None" "get_bool [] a = None" "get_map [] a = None" "get_arr [] a = None"
  by (simp_all add: get_defs mget_Nil)

section \<open>Well-formed values\<close>

fun wf_val :: "gval \<Rightarrow> bool"
and wf_vals :: "gval list \<Rightarrow> bool"
and wf_mems :: "(string \<times> gval) list \<Rightarrow> bool" where
  "wf_val (VNum f) = f_wf f"
| "wf_val (VStr s) = valid_utf8 s"
| "wf_val (VArr vs) = wf_vals vs"
| "wf_val (VObj kvs) = (smap_wf kvs \<and> wf_mems kvs)"
| "wf_val _ = True"
| "wf_vals [] = True"
| "wf_vals (v # vs) = (wf_val v \<and> wf_vals vs)"
| "wf_mems [] = True"
| "wf_mems ((k, v) # kvs) = (valid_utf8 k \<and> wf_val v \<and> wf_mems kvs)"

abbreviation wf_map :: "gmap \<Rightarrow> bool" where
  "wf_map m \<equiv> wf_val (VObj m)"

fun gdepth :: "gval \<Rightarrow> nat"
and gdepth_list :: "gval list \<Rightarrow> nat"
and gdepth_mems :: "(string \<times> gval) list \<Rightarrow> nat" where
  "gdepth (VArr vs) = Suc (gdepth_list vs)"
| "gdepth (VObj kvs) = Suc (gdepth_mems kvs)"
| "gdepth _ = 0"
| "gdepth_list [] = 0"
| "gdepth_list (v # vs) = max (gdepth v) (gdepth_list vs)"
| "gdepth_mems [] = 0"
| "gdepth_mems ((k, v) # kvs) = max (gdepth v) (gdepth_mems kvs)"

lemma wf_mems_mput [gmap_simps]:
  "valid_utf8 k \<Longrightarrow> wf_val v \<Longrightarrow> wf_mems m \<Longrightarrow> wf_mems (mput k v m)"
  by (induction k v m rule: mput.induct) auto

lemma gdepth_mput [gmap_simps]: "gdepth_mems (mput k v m) \<le> max (gdepth v) (gdepth_mems m)"
  by (induction k v m rule: mput.induct) auto

lemma wf_mems_get: "wf_mems m \<Longrightarrow> mget m k = Some v \<Longrightarrow> wf_val v"
proof (induction m)
  case (Cons p m)
  then show ?case by (cases p) (auto simp: mget_def split: if_splits)
qed (simp add: mget_def)

section \<open>Marshal\<close>

fun to_j :: "gval \<Rightarrow> jval"
and to_js :: "gval list \<Rightarrow> jval list"
and to_jmems :: "(string \<times> gval) list \<Rightarrow> (string \<times> jval) list" where
  "to_j VNull = JNull"
| "to_j (VBool b) = JBool b"
| "to_j (VNum f) = JNum (show_float f)"
| "to_j (VStr s) = JStr s"
| "to_j (VArr vs) = JArr (to_js vs)"
| "to_j (VObj kvs) = JObj (to_jmems kvs)"
| "to_js [] = []"
| "to_js (v # vs) = to_j v # to_js vs"
| "to_jmems [] = []"
| "to_jmems ((k, v) # kvs) = (k, to_j v) # to_jmems kvs"

definition mapv_j :: "mapv \<Rightarrow> jval" where
  "mapv_j m = (case m of None \<Rightarrow> JNull | Some kvs \<Rightarrow> to_j (VObj kvs))"

text \<open>\<open>json.Marshal\<close> of a \<open>map[string]any\<close>; the nil map is \<open>null\<close>.\<close>

definition marshal_map :: "mapv \<Rightarrow> string" where
  "marshal_map m = print_j (mapv_j m)"

text \<open>A map field tagged \<open>omitempty\<close>: left out when it has no entries.\<close>

definition omit_map :: "string \<Rightarrow> mapv \<Rightarrow> (string \<times> jval) list" where
  "omit_map k m = (if entries m = [] then [] else [(k, to_j (VObj (entries m)))])"

text \<open>A string field tagged \<open>omitempty\<close>.\<close>

definition omit_str :: "string \<Rightarrow> string \<Rightarrow> (string \<times> jval) list" where
  "omit_str k s = (if s = [] then [] else [(k, JStr s)])"

definition int_j :: "int \<Rightarrow> jval" where
  "int_j i = JNum (show_int i)"

section \<open>Unmarshal\<close>

fun of_j :: "jval \<Rightarrow> gval option"
and of_js :: "jval list \<Rightarrow> gval list option"
and of_jmems :: "gmap \<Rightarrow> (string \<times> jval) list \<Rightarrow> gmap option" where
  "of_j JNull = Some VNull"
| "of_j (JBool b) = Some (VBool b)"
| "of_j (JNum s) = map_option VNum (parse_float s)"
| "of_j (JStr s) = Some (VStr s)"
| "of_j (JArr vs) = map_option VArr (of_js vs)"
| "of_j (JObj kvs) = map_option VObj (of_jmems [] kvs)"
| "of_js [] = Some []"
| "of_js (v # vs) =
     (case of_j v of None \<Rightarrow> None | Some g \<Rightarrow> map_option (Cons g) (of_js vs))"
| "of_jmems m [] = Some m"
| "of_jmems m ((k, v) # kvs) =
     (case of_j v of None \<Rightarrow> None | Some g \<Rightarrow> of_jmems (mput k g m) kvs)"

text \<open>
  Decoding into a map that may already hold entries: an object adds its members to them,
  \<open>null\<close> makes the map nil.
\<close>

definition dec_map :: "jval \<Rightarrow> mapv \<Rightarrow> mapv option" where
  "dec_map v m =
     (case v of JNull \<Rightarrow> Some None
      | JObj kvs \<Rightarrow> map_option Some (of_jmems (entries m) kvs)
      | _ \<Rightarrow> None)"

definition dec_str :: "jval \<Rightarrow> string \<Rightarrow> string option" where
  "dec_str v s = (case v of JStr x \<Rightarrow> Some x | JNull \<Rightarrow> Some s | _ \<Rightarrow> None)"

definition dec_bool :: "jval \<Rightarrow> bool \<Rightarrow> bool option" where
  "dec_bool v b = (case v of JBool x \<Rightarrow> Some x | JNull \<Rightarrow> Some b | _ \<Rightarrow> None)"

text \<open>\<open>strconv.ParseInt(lit, 10, 64)\<close> on a JSON number literal.\<close>

definition parse_int64 :: "string \<Rightarrow> int option" where
  "parse_int64 s =
     (let (neg, ds) = (case s of [] \<Rightarrow> (False, [])
                       | c # cs \<Rightarrow> if c = CHR ''-'' then (True, cs) else (False, s));
          i = (if neg then - int (read_nat ds) else int (read_nat ds))
      in if ds = [] \<or> \<not> list_all is_digit ds \<or> \<not> in_int64 i then None else Some i)"

definition dec_int :: "jval \<Rightarrow> int \<Rightarrow> int option" where
  "dec_int v i = (case v of JNum s \<Rightarrow> parse_int64 s | JNull \<Rightarrow> Some i | _ \<Rightarrow> None)"

text \<open>\<open>json.Unmarshal(b, &m)\<close> for a fresh \<open>map[string]any\<close>.\<close>

definition unmarshal_map :: "string \<Rightarrow> mapv option" where
  "unmarshal_map s = Option.bind (json_parse s) (\<lambda>v. dec_map v None)"

subsection \<open>Structs\<close>

text \<open>
  \<open>foldName\<close>: letters compare in upper case; U+017F and U+212A fold to S and K.
\<close>

function fold_name :: "string \<Rightarrow> string" where
  "fold_name s =
     (case s of [] \<Rightarrow> []
      | c # t \<Rightarrow>
         if 97 \<le> byte_of c \<and> byte_of c \<le> 122 then byte (byte_of c - 32) # fold_name t
         else if has_prefix s [byte 0xC5, byte 0xBF] then CHR ''S'' # fold_name (drop 2 s)
         else if has_prefix s [byte 0xE2, byte 0x84, byte 0xAA] then CHR ''K'' # fold_name (drop 3 s)
         else c # fold_name t)"
  by pat_completeness auto
termination by (relation "measure length") auto

declare fold_name.simps [simp del]

definition field_of :: "string list \<Rightarrow> string \<Rightarrow> string option" where
  "field_of names k =
     (if k \<in> set names then Some k else find (\<lambda>n. fold_name n = fold_name k) names)"

fun dec_fields ::
  "(string \<Rightarrow> jval \<Rightarrow> 's \<Rightarrow> 's option) \<Rightarrow> bool \<Rightarrow> string list \<Rightarrow> (string \<times> jval) list \<Rightarrow> 's \<Rightarrow> 's option"
where
  "dec_fields f strict names [] s = Some s"
| "dec_fields f strict names ((k, v) # kvs) s =
     (case field_of names k of
        None \<Rightarrow> if strict then None else dec_fields f strict names kvs s
      | Some n \<Rightarrow> (case f n v s of None \<Rightarrow> None | Some s' \<Rightarrow> dec_fields f strict names kvs s'))"

definition dec_struct ::
  "(string \<Rightarrow> jval \<Rightarrow> 's \<Rightarrow> 's option) \<Rightarrow> bool \<Rightarrow> string list \<Rightarrow> jval \<Rightarrow> 's \<Rightarrow> 's option"
where
  "dec_struct f strict names v s =
     (case v of JNull \<Rightarrow> Some s | JObj kvs \<Rightarrow> dec_fields f strict names kvs s | _ \<Rightarrow> None)"

section \<open>Round trips\<close>

lemma digits_num_char [simp]: "list_all num_char (show_nat n)"
  using show_nat_all_digits [of n] by (auto simp: list_all_iff num_char_def)

lemma num_char_simps [simp]:
  "num_char CHR ''-''" "num_char CHR ''+''" "num_char CHR ''.''" "num_char CHR ''e''" "num_char CHR ''0''"
  by (simp_all add: num_char_def)

lemma list_all_part: "list_all p s \<Longrightarrow> list_all p (take n s)" "list_all p s \<Longrightarrow> list_all p (drop n s)"
  by (auto simp: list_all_iff dest: in_set_takeD in_set_dropD)

lemma list_all_replicate: "p x \<Longrightarrow> list_all p (replicate n x)"
  by (simp add: list_all_iff)

lemma show_float_chars: "list_all num_char (show_float f)"
proof -
  have "list_all num_char (fmt_f (show_nat D) x)" for D x
    by (simp add: fmt_f_def list_all_part list_all_replicate)
  moreover have "list_all num_char (fmt_e (show_nat D) x)" for D x
    by (simp add: fmt_e_def fmt_exp_def list_all_part)
  ultimately show ?thesis by (simp add: show_float_def Let_def split: prod.splits)
qed

lemma show_float_lit: "f_wf f \<Longrightarrow> num_lit (show_float f)"
  using parse_show_float [of f] show_float_chars [of f]
  by (auto simp: num_lit_def parse_float_def split: option.splits)

lemma to_j_ok:
  "wf_val v \<Longrightarrow> jok (to_j v)" "wf_vals vs \<Longrightarrow> jok_list (to_js vs)" "wf_mems kvs \<Longrightarrow> jok_mems (to_jmems kvs)"
  by (induction v and vs and kvs rule: to_j_to_js_to_jmems.induct) (auto simp: show_float_lit)

lemma to_j_san:
  "wf_val v \<Longrightarrow> jsan (to_j v) = to_j v" "wf_vals vs \<Longrightarrow> jsan_list (to_js vs) = to_js vs"
  "wf_mems kvs \<Longrightarrow> jsan_mems (to_jmems kvs) = to_jmems kvs"
  by (induction v and vs and kvs rule: to_j_to_js_to_jmems.induct) auto

lemma to_j_depth:
  "jdepth (to_j v) = gdepth v" "jdepth_list (to_js vs) = gdepth_list vs"
  "jdepth_mems (to_jmems kvs) = gdepth_mems kvs"
  by (induction v and vs and kvs rule: to_j_to_js_to_jmems.induct) auto

lemma of_to_j:
  "wf_val v \<Longrightarrow> of_j (to_j v) = Some v"
  "wf_vals vs \<Longrightarrow> of_js (to_js vs) = Some vs"
  "smap_wf (m @ kvs) \<Longrightarrow> wf_mems kvs \<Longrightarrow> of_jmems m (to_jmems kvs) = Some (m @ kvs)"
proof (induction v and vs and kvs arbitrary: and and m rule: to_j_to_js_to_jmems.induct)
  case (10 k v kvs)
  have "\<forall>a \<in> set (map fst m). a < k" using "10.prems"(1) by (auto simp: smap_wf_def sorted_wrt_append)
  then have "mput k v m = m @ [(k, v)]" by (rule mput_snoc)
  then show ?case using 10 by simp
qed (auto simp: parse_show_float)

text \<open>A well-formed map that is not nested too deeply survives the text round trip.\<close>

theorem unmarshal_marshal_map:
  assumes "wf_map m" and "gdepth (VObj m) \<le> max_depth"
  shows "unmarshal_map (marshal_map (Some m)) = Some (Some m)"
proof -
  have "json_parse (print_j (to_j (VObj m))) = Some (to_j (VObj m))"
    using json_parse_print [of "to_j (VObj m)"] to_j_ok(1) [OF assms(1)] to_j_san(1) [OF assms(1)]
      to_j_depth(1) [of "VObj m"] assms(2) by simp
  moreover have "of_jmems [] (to_jmems m) = Some m" using of_to_j(3) [of "[]" m] assms(1) by simp
  ultimately show ?thesis by (simp add: unmarshal_map_def marshal_map_def mapv_j_def dec_map_def)
qed

lemma unmarshal_marshal_nil: "unmarshal_map (marshal_map None) = Some None"
  using json_parse_print [of JNull] by (simp add: unmarshal_map_def marshal_map_def mapv_j_def dec_map_def max_depth_def)

text \<open>Integers.\<close>

lemma parse_show_int64 [num_simps]: "in_int64 i \<Longrightarrow> parse_int64 (show_int i) = Some i"
proof -
  assume i: "in_int64 i"
  obtain c cs where s: "show_nat (nat \<bar>i\<bar>) = c # cs" by (cases "show_nat (nat \<bar>i\<bar>)") auto
  have "is_digit c" using show_nat_all_digits [of "nat \<bar>i\<bar>"] by (simp add: s)
  then have "c \<noteq> CHR ''-''" by auto
  moreover have "list_all is_digit (c # cs)" "read_nat (c # cs) = nat \<bar>i\<bar>"
    using show_nat_all_digits [of "nat \<bar>i\<bar>"] read_show_nat [of "nat \<bar>i\<bar>"] by (simp_all add: s)
  ultimately show ?thesis using i s
    by (cases "i < 0") (auto simp: parse_int64_def show_int_def)
qed

lemma show_int_lit [num_simps]: "num_lit (show_int i)"
proof -
  have hd: "hd (show_nat n) \<noteq> CHR ''0'' \<or> show_nat n = ''0''" for n
    using show_nat_hd [of n] show_nat_0 by (cases "n = 0") auto
  have "parse_unsigned (show_nat n @ []) = Some (show_nat n, [], 0)" for n
    by (rule parse_unsigned_parts) (use hd in \<open>auto simp: parse_frac_def parse_exp_def\<close>)
  then have "parse_num (if neg then CHR ''-'' # show_nat n else show_nat n) = Some (neg, show_nat n, [], 0)"
    for neg n using parse_num_signed [of "show_nat n"] by simp
  from this [of True] this [of False] show ?thesis
    by (auto simp: show_int_def num_lit_def)
qed

lemma dec_int_j [num_simps]: "in_int64 i \<Longrightarrow> dec_int (int_j i) j = Some i"
  by (simp add: dec_int_def int_j_def parse_show_int64)

lemma dec_str_JStr [simp]: "dec_str (JStr x) s = Some x"
  by (simp add: dec_str_def)

lemma dec_map_obj [simp]: "wf_map m \<Longrightarrow> dec_map (JObj (to_jmems m)) None = Some (Some m)"
  using of_to_j(3) [of "[]" m] by (simp add: dec_map_def)

text \<open>Fields present under their own names are decoded in order.\<close>

lemma field_of_exact [simp]: "k \<in> set names \<Longrightarrow> field_of names k = Some k"
  by (simp add: field_of_def)

lemma dec_fields_append:
  "dec_fields f strict names (a @ b) s =
     (case dec_fields f strict names a s of None \<Rightarrow> None | Some t \<Rightarrow> dec_fields f strict names b t)"
  by (induction a arbitrary: s) (auto split: option.splits)

end
