(* ===== verification/Go_Typing.thy ===== *)
theory Go_Typing
  imports Go_Value
begin

text \<open>
  Type soundness of the JSON reader: whatever bytes arrive, the values read from them have
  valid UTF-8 strings, binary64 numbers in canonical form, sorted maps without duplicate keys,
  and a nesting of at most \<open>max_depth\<close>.  The program relies on this without checking it: what
  it decoded it encodes again, and hands to engines that know no other values.
\<close>

section \<open>Strings\<close>

lemma valid_runeI: "rune_len s = length s \<Longrightarrow> valid_utf8 s"
  by (simp add: valid_utf8.simps [of s])

lemma valid_take_rune: "valid_utf8 (take (rune_len s) s)"
proof (cases "0 < rune_len s")
  case True
  then show ?thesis
    using rune_len_take(1) [OF True, of "[]"] rune_len_take(2) [OF True] by (intro valid_runeI) simp
qed simp

lemma valid_ascii_char: "byte_of c < 0x80 \<Longrightarrow> valid_utf8 [c]"
  by (intro ascii_valid) (simp add: ascii_def)

lemma valid_rune_error [simp]: "valid_utf8 rune_error"
  by (intro valid_runeI) (simp add: rune_error_def rune_len_def rune_tail_def conts_def cont_byte_def second_ok_def)

lemma valid_encode_rune:
  assumes "n < 0x110000" and "n < 0xD800 \<or> 0xDFFF < n"
  shows "valid_utf8 (encode_rune n)"
proof (intro valid_runeI)
  have cont: "cont_byte (byte (0x80 + k mod 64))" for k by (simp add: cont_byte_def)
  consider "n < 0x80" | "0x80 \<le> n" "n < 0x800" | "0x800 \<le> n" "n < 0x10000" | "0x10000 \<le> n" by linarith
  then show "rune_len (encode_rune n) = length (encode_rune n)"
  proof cases
    case 1
    then show ?thesis by (simp add: encode_rune_def rune_len_def rune_tail_def conts_def)
  next
    case 2
    then have "2 \<le> n div 64" "n div 64 < 32" by auto
    then have "rune_tail (byte_of (byte (0xC0 + n div 64))) = Some 1" by (simp add: rune_tail_def)
    moreover have "192 + n div 64 < 224" "194 \<le> 192 + n div 64" using 2 by auto
    ultimately show ?thesis
      using 2 cont by (simp add: encode_rune_def rune_len_def conts_def second_ok_def)
  next
    case 3
    then have b: "n div 4096 < 16" by auto
    then have r: "rune_tail (byte_of (byte (0xE0 + n div 4096))) = Some 2" by (simp add: rune_tail_def)
    have m: "n div 64 mod 64 = n div 64 - 64 * (n div 4096)"
      by (simp add: minus_mult_div_eq_mod [symmetric] div_mult2_eq [symmetric])
    have "n div 4096 = 0 \<Longrightarrow> 0x20 \<le> n div 64 mod 64" using 3 by (simp add: m)
    moreover have "n div 64 mod 64 < 0x20" if "n div 4096 = 13"
    proof -
      have "n < 57344" using that by linarith
      then show ?thesis using that assms(2) unfolding m by linarith
    qed
    ultimately have "second_ok (0xE0 + n div 4096) [byte (0x80 + n div 64 mod 64), byte (0x80 + n mod 64)]"
      using b by (auto simp: second_ok_def)
    then show ?thesis
      using 3 b r cont by (simp add: encode_rune_def rune_len_def conts_def numeral_2_eq_2)
  next
    case 4
    then have b: "n div 262144 < 5" using assms(1) by auto
    then have r: "rune_tail (byte_of (byte (0xF0 + n div 262144))) = Some 3" by (simp add: rune_tail_def)
    have m: "n div 4096 mod 64 = n div 4096 - 64 * (n div 262144)"
      by (simp add: minus_mult_div_eq_mod [symmetric] div_mult2_eq [symmetric])
    have "n div 262144 = 0 \<Longrightarrow> 0x10 \<le> n div 4096 mod 64" using 4 by (simp add: m)
    moreover have "n div 262144 = 4 \<Longrightarrow> n div 4096 mod 64 < 0x10"
      using 4 assms(1) unfolding m by linarith
    ultimately have "second_ok (0xF0 + n div 262144)
        [byte (0x80 + n div 4096 mod 64), byte (0x80 + n div 64 mod 64), byte (0x80 + n mod 64)]"
      using b by (auto simp: second_ok_def)
    then show ?thesis
      using 4 b r cont by (simp add: encode_rune_def rune_len_def conts_def numeral_3_eq_3)
  qed
qed

lemma hex_val_less: "hex_val c = Some x \<Longrightarrow> x < 16"
  by (auto simp: hex_val_def Let_def split: if_splits)

lemma hex4_less: "hex4 s = Some n \<Longrightarrow> n < 0x10000"
  by (auto simp: hex4_def split: list.splits option.splits dest!: hex_val_less)

lemma low_surrogate_range: "low_surrogate s = Some m \<Longrightarrow> 0xDC00 \<le> m \<and> m \<le> 0xDFFF"
  by (auto simp: low_surrogate_def split: list.splits if_splits option.splits)

lemma read_escape_valid: "read_escape s = Some (x, r) \<Longrightarrow> valid_utf8 x"
proof -
  assume e: "read_escape s = Some (x, r)"
  have pair: "valid_utf8 (encode_rune (0x10000 + (n - 0xD800) * 1024 + (m - 0xDC00)))"
    if "0xD800 \<le> n" "n < 0xDC00" "low_surrogate u = Some m" for n m u
    using that(1,2) low_surrogate_range [OF that(3)] by (intro valid_encode_rune) auto
  have single: "valid_utf8 (encode_rune n)" if "hex4 u = Some n" "n < 0xD800 \<or> 0xDFFF < n" for n u
    using hex4_less [OF that(1)] that(2) by (intro valid_encode_rune) auto
  show ?thesis
    using e pair single
    by (auto simp: read_escape_def valid_ascii_char not_le split: list.splits if_splits option.splits bool.splits)
qed

lemma unquote_valid: "unquote s = Some (x, r) \<Longrightarrow> valid_utf8 x"
proof (induction s arbitrary: x r rule: unquote.induct)
  case (1 s)
  obtain c t where s: "s = c # t" using "1.prems" by (cases s) (auto simp: unquote.simps [of "[]"])
  have pre: "valid_utf8 x" if "prepend p q = Some (x, r)" "valid_utf8 p" "\<And>y. q = Some (y, r) \<Longrightarrow> valid_utf8 y" for p q
    using that by (cases q) auto
  note eq = unquote.simps [of "c # t"]
  show ?case
  proof (cases "c = quote_chr \<or> byte_of c < 0x20")
    case True
    then show ?thesis using "1.prems" by (auto simp: s eq split: if_splits)
  next
    case F: False
    show ?thesis
    proof (cases "c = bslash")
      case True
      then obtain w u where w: "read_escape t = Some (w, u)" and "prepend w (unquote u) = Some (x, r)"
        using "1.prems" F by (auto simp: s unquote.simps [of "bslash # t"] split: option.splits)
      then show ?thesis using pre [of w] read_escape_valid [OF w] 1(1) [OF s _ True w] F by blast
    next
      case B: False
      show ?thesis
      proof (cases "byte_of c < 0x80")
        case True
        then have "prepend [c] (unquote t) = Some (x, r)" using "1.prems" F B by (simp add: s eq)
        then show ?thesis using pre valid_ascii_char [OF True] 1(2) [OF s _ B _ True] F by blast
      next
        case N: False
        show ?thesis
        proof (cases "rune_len s = 0")
          case True
          then have "prepend rune_error (unquote t) = Some (x, r)" using "1.prems" F B N by (simp add: s eq)
          then show ?thesis using pre valid_rune_error 1(3) [OF s _ B _ N True] F by blast
        next
          case False
          then have "prepend (take (rune_len s) s) (unquote (drop (rune_len s) s)) = Some (x, r)"
            using "1.prems" F B N by (simp add: s eq)
          then show ?thesis using pre valid_take_rune 1(4) [OF s _ B _ N False] F by blast
        qed
      qed
    qed
  qed
qed

section \<open>Numbers\<close>

lemma round_quot_canon:
  assumes n: "0 < n" and d: "0 < d" and r: "round_quot n d = Some (m, e)"
  shows "f_canon m e"
proof -
  define t where "t = int (bitlen n) - int (bitlen d)"
  define e1 where "e1 = (if 2 ^ 53 \<le> scale_floor n d (t - 53) then t - 52 else t - 53)"
  define v where "v = real n / real d"
  have v: "2 powi (t - 1) < v" "v < 2 powi (t + 1)" using quot_bounds [OF n d] by (simp_all add: t_def v_def)
  note fl = scale_floor_real [OF d, of n, folded v_def]
  have up: "v * 2 powi (- x) < 2 powi (t + 1 - x)" and lo: "2 powi (t - 1 - x) < v * 2 powi (- x)" for x
    using mult_strict_right_mono [OF v(2), of "2 powi (- x)"] mult_strict_right_mono [OF v(1), of "2 powi (- x)"]
    by (simp_all add: powi_mult)
  have hi1: "scale_floor n d e1 < 2 ^ 53" and lo1: "2 ^ 52 \<le> scale_floor n d e1"
  proof -
    show "scale_floor n d e1 < 2 ^ 53"
    proof (cases "2 ^ 53 \<le> scale_floor n d (t - 53)")
      case True
      then have "e1 = t - 52" by (simp add: e1_def)
      then have "v * 2 powi (- e1) < 2 ^ 53" using up [of e1] by simp
      then have "\<lfloor>v * 2 powi (- e1)\<rfloor> < 2 ^ 53" by (simp add: floor_less_iff)
      then have "int (scale_floor n d e1) < 2 ^ 53" using fl [of e1] by simp
      then show ?thesis by simp
    qed (simp add: e1_def)
    show "2 ^ 52 \<le> scale_floor n d e1"
    proof (cases "2 ^ 53 \<le> scale_floor n d (t - 53)")
      case True
      then have e1: "e1 = t - 52" by (simp add: e1_def)
      have "2 ^ 53 \<le> real (scale_floor n d (t - 53))" using True by simp
      also have "\<dots> \<le> v * 2 powi (53 - t)"
        using fl [of "t - 53"] unfolding minus_diff_eq by linarith
      finally have "2 ^ 53 \<le> v * 2 powi (53 - t)" .
      moreover have "v * 2 powi (53 - t) = 2 * (v * 2 powi (- e1))"
        using powi_mult [of 1 "- e1"] by (simp add: e1 algebra_simps)
      ultimately have "2 ^ 52 \<le> v * 2 powi (- e1)" by simp
      then have "2 ^ 52 \<le> \<lfloor>v * 2 powi (- e1)\<rfloor>" by (simp add: le_floor_iff)
      then have "2 ^ 52 \<le> int (scale_floor n d e1)" using fl [of e1] by simp
      then show ?thesis by simp
    next
      case False
      then have e1: "e1 = t - 53" by (simp add: e1_def)
      then have "2 ^ 52 \<le> v * 2 powi (- e1)" using lo [of e1] by simp
      then have "2 ^ 52 \<le> \<lfloor>v * 2 powi (- e1)\<rfloor>" by (simp add: le_floor_iff)
      then have "2 ^ 52 \<le> int (scale_floor n d e1)" using fl [of e1] by simp
      then show ?thesis by simp
    qed
  qed
  define ep where "ep = pick_exp n d"
  have ep: "ep = max e1 (- 1074)" by (simp add: ep_def pick_exp_def Let_def e1_def t_def)
  have q: "scale_floor n d ep < 2 ^ 53" "2 ^ 52 \<le> scale_floor n d ep \<or> ep = - 1074"
  proof -
    have "v * 2 powi (- ep) \<le> v * 2 powi (- e1)"
      by (intro mult_left_mono power_int_increasing) (simp_all add: ep v_def)
    then have "\<lfloor>v * 2 powi (- ep)\<rfloor> \<le> \<lfloor>v * 2 powi (- e1)\<rfloor>" by (rule floor_mono)
    then have "scale_floor n d ep \<le> scale_floor n d e1" using fl [of e1] fl [of ep] by linarith
    then show "scale_floor n d ep < 2 ^ 53" using hi1 by simp
    show "2 ^ 52 \<le> scale_floor n d ep \<or> ep = - 1074" using lo1 ep by (cases "- 1074 \<le> e1") auto
  qed
  obtain a b where ab: "scale n d ep = (a, b)" by (cases "scale n d ep")
  define q' where "q' = (if b < 2 * (a mod b) \<or> (2 * (a mod b) = b \<and> odd (a div b)) then a div b + 1 else a div b)"
  have "a div b = scale_floor n d ep" by (simp add: scale_floor_def ab)
  then have q': "q' \<le> 2 ^ 53" "2 ^ 52 \<le> q' \<or> ep = - 1074" using q by (auto simp: q'_def)
  have "(if 971 < (if q' = 2 ^ 53 then ep + 1 else ep) then None
         else Some (if q' = 2 ^ 53 then 2 ^ 52 else q', if q' = 2 ^ 53 then ep + 1 else ep)) = Some (m, e)"
    using r unfolding round_quot_def Let_def ep_def [symmetric] ab q'_def [symmetric] prod.case
    by (simp add: q'_def split: if_splits)
  then show ?thesis
    using q' ep by (auto simp: f_canon_def split: if_splits)
qed

lemma round_dec_canon:
  assumes "round_dec x = Some (m, e)"
  shows "f_canon m e"
proof (cases x)
  case (Pair D k)
  consider "D = 0" | "0 < D" "0 \<le> k" | "0 < D" "k < 0" by linarith
  then show ?thesis
  proof cases
    case 1
    then show ?thesis using assms by (auto simp: Pair round_dec_def f_canon_def)
  next
    case 2
    then have "round_quot (D * 10 ^ nat k) 1 = Some (m, e)" using assms by (simp add: Pair round_dec_def)
    moreover have "0 < D * 10 ^ nat k" using 2 by simp
    ultimately show ?thesis by (intro round_quot_canon) simp_all
  next
    case 3
    then have "round_quot D (10 ^ nat (- k)) = Some (m, e)" using assms by (simp add: Pair round_dec_def)
    then show ?thesis using 3 by (intro round_quot_canon) simp_all
  qed
qed

lemma parse_float_wf: "parse_float s = Some f \<Longrightarrow> f_wf f"
  by (auto simp: parse_float_def read_float_def f_wf_def dest!: round_dec_canon split: option.splits)

section \<open>Parsed values\<close>

fun jvalid :: "jval \<Rightarrow> bool"
and jvalid_list :: "jval list \<Rightarrow> bool"
and jvalid_mems :: "(string \<times> jval) list \<Rightarrow> bool" where
  "jvalid (JStr s) = valid_utf8 s"
| "jvalid (JArr vs) = jvalid_list vs"
| "jvalid (JObj kvs) = jvalid_mems kvs"
| "jvalid _ = True"
| "jvalid_list [] = True"
| "jvalid_list (v # vs) = (jvalid v \<and> jvalid_list vs)"
| "jvalid_mems [] = True"
| "jvalid_mems ((k, v) # kvs) = (valid_utf8 k \<and> jvalid v \<and> jvalid_mems kvs)"

lemma jvalid_list_rev: "jvalid_list (rev vs) = jvalid_list vs" and jdepth_list_rev: "jdepth_list (rev vs) = jdepth_list vs"
proof -
  have "jvalid_list (xs @ ys) = (jvalid_list xs \<and> jvalid_list ys)"
    "jdepth_list (xs @ ys) = max (jdepth_list xs) (jdepth_list ys)" for xs ys
    by (induction xs) auto
  then show "jvalid_list (rev vs) = jvalid_list vs" "jdepth_list (rev vs) = jdepth_list vs"
    by (induction vs) auto
qed

lemma jvalid_mems_rev: "jvalid_mems (rev kvs) = jvalid_mems kvs" and jdepth_mems_rev: "jdepth_mems (rev kvs) = jdepth_mems kvs"
proof -
  have "jvalid_mems (xs @ ys) = (jvalid_mems xs \<and> jvalid_mems ys)"
    "jdepth_mems (xs @ ys) = max (jdepth_mems xs) (jdepth_mems ys)" for xs ys
    by (induction xs) auto
  then show "jvalid_mems (rev kvs) = jvalid_mems kvs" "jdepth_mems (rev kvs) = jdepth_mems kvs"
    by (induction kvs) auto
qed

lemmas rev_facts = jvalid_list_rev jdepth_list_rev jvalid_mems_rev jdepth_mems_rev

text \<open>
  The reader's invariant: what an open frame holds may nest as deep as the frames above the
  limit leave room for.
\<close>

fun frame_ok :: "nat \<Rightarrow> frame \<Rightarrow> bool" where
  "frame_ok d (FArr vs) \<longleftrightarrow> jvalid_list vs \<and> jdepth_list vs \<le> d"
| "frame_ok d (FObj kvs k) \<longleftrightarrow> jvalid_mems kvs \<and> jdepth_mems kvs \<le> d \<and> valid_utf8 k"

fun frames_ok :: "frame list \<Rightarrow> bool" where
  "frames_ok [] = True"
| "frames_ok (f # fs) \<longleftrightarrow> Suc (length fs) \<le> max_depth \<and> frame_ok (max_depth - Suc (length fs)) f \<and> frames_ok fs"

definition value_ok :: "jval \<Rightarrow> nat \<Rightarrow> bool" where
  "value_ok v d \<longleftrightarrow> jvalid v \<and> jdepth v \<le> d"

definition outcome_ok :: "outcome_j \<Rightarrow> bool" where
  "outcome_ok r = (case r of Fail \<Rightarrow> True | Done v \<Rightarrow> value_ok v max_depth | Cont m fs \<Rightarrow> frames_ok fs)"

lemma outcome_ok_simps [simp]:
  "outcome_ok Fail" "outcome_ok (Done v) = value_ok v max_depth" "outcome_ok (Cont m fs) = frames_ok fs"
  by (simp_all add: outcome_ok_def)

lemma complete_ok:
  "value_ok v (max_depth - length fs) \<Longrightarrow> frames_ok fs \<Longrightarrow> outcome_ok (complete v fs)"
  by (cases fs) (auto simp: complete_def value_ok_def split: frame.split)

lemma frames_ok_tl: "frames_ok fs \<Longrightarrow> frames_ok (tl fs)"
  by (cases fs) auto

lemma frames_ok_length: "frames_ok fs \<Longrightarrow> length fs \<le> max_depth"
  by (cases fs) auto

fun tok_ok :: "tok \<Rightarrow> bool" where
  "tok_ok (TLit v) = (jvalid v \<and> jdepth v = 0)"
| "tok_ok (TStr s) = valid_utf8 s"
| "tok_ok _ = True"

lemma begin_value_ok: "tok_ok t \<Longrightarrow> frames_ok fs \<Longrightarrow> outcome_ok (begin_value fs t)"
  by (cases t) (auto simp: begin_value_def complete_ok value_ok_def push_def)

lemma begin_key_ok: "tok_ok t \<Longrightarrow> frames_ok fs \<Longrightarrow> outcome_ok (begin_key fs t)"
  by (auto simp: begin_key_def split: tok.splits list.splits frame.splits)

lemma empty_ok:
  "frames_ok fs \<Longrightarrow> outcome_ok (complete (JArr []) (tl fs))"
  "frames_ok fs \<Longrightarrow> outcome_ok (complete (JObj []) (tl fs))"
  using frames_ok_length [of fs]
  by (intro complete_ok; cases fs; auto simp: value_ok_def max_depth_def)+

lemma step_ok: "tok_ok t \<Longrightarrow> frames_ok fs \<Longrightarrow> outcome_ok (step_j m fs t)"
proof (induction m fs t rule: step_j.induct)
  case (6 vs fs t)
  then have "value_ok (JArr (rev vs)) (max_depth - length fs)" by (simp add: value_ok_def rev_facts) linarith
  then show ?case using 6 complete_ok [of "JArr (rev vs)" fs] by simp
next
  case (7 kvs k fs t)
  then have "value_ok (JObj (rev kvs)) (max_depth - length fs)" by (simp add: value_ok_def rev_facts) linarith
  then show ?case using 7 complete_ok [of "JObj (rev kvs)" fs] by simp
qed (auto simp: begin_value_ok begin_key_ok empty_ok)

lemma punct_ok: "punct c = Some t \<Longrightarrow> tok_ok t"
  by (auto simp: punct_def split: if_splits)

lemma next_token_ok: "next_token s = Some (t, r) \<Longrightarrow> tok_ok t"
  by (auto simp: next_token_def Let_def punct_ok dest!: unquote_valid split: list.splits option.splits if_splits)

lemma run_ok: "run_j m fs s = Some (v, r) \<Longrightarrow> frames_ok fs \<Longrightarrow> value_ok v max_depth"
proof (induction m fs s rule: run_j.induct)
  case (1 m fs s)
  then obtain t u where t: "next_token s = Some (t, u)"
    by (cases "next_token s") (auto simp: run_j.simps [of m fs s])
  have "outcome_ok (step_j m fs t)" using step_ok next_token_ok [OF t] "1.prems"(2) by blast
  then show ?case
    using "1.prems" "1.IH" [OF t refl] t
    by (cases "step_j m fs t") (auto simp: run_token)
qed

theorem json_decode_ok: "json_decode s = Some v \<Longrightarrow> value_ok v max_depth"
  by (auto simp: json_decode_def dest: run_ok)

theorem json_parse_ok: "json_parse s = Some v \<Longrightarrow> value_ok v max_depth"
  by (auto simp: json_parse_def dest: run_ok split: option.splits if_splits)

section \<open>Decoded values\<close>

lemma of_j_ok:
  "jvalid v \<Longrightarrow> of_j v = Some g \<Longrightarrow> wf_val g \<and> gdepth g \<le> jdepth v"
  "jvalid_list vs \<Longrightarrow> of_js vs = Some gs \<Longrightarrow> wf_vals gs \<and> gdepth_list gs \<le> jdepth_list vs"
  "jvalid_mems kvs \<Longrightarrow> wf_map m \<Longrightarrow> of_jmems m kvs = Some m' \<Longrightarrow>
     wf_map m' \<and> gdepth_mems m' \<le> max (gdepth_mems m) (jdepth_mems kvs)"
proof (induction v and vs and m kvs arbitrary: g and gs and m' rule: of_j_of_js_of_jmems.induct)
  case (8 v vs)
  from "8.prems"(2) obtain g hs where g: "of_j v = Some g" "of_js vs = Some hs" "gs = g # hs"
    by (auto split: option.splits)
  then show ?case
    using "8.IH"(1) [OF _ g(1)] "8.IH"(2) [OF g(1) _ g(2)] "8.prems"(1) by (auto simp: le_max_iff_disj)
next
  case (10 m k v kvs)
  from "10.prems"(3) obtain g where g: "of_j v = Some g" "of_jmems (mput k g m) kvs = Some m'"
    by (auto split: option.splits)
  have v: "wf_val g" "gdepth g \<le> jdepth v" using "10.IH"(1) [OF _ g(1)] "10.prems"(1) by simp_all
  then have "wf_map (mput k g m)" using "10.prems" by (simp add: smap_wf_mput wf_mems_mput)
  then have "wf_map m'" "gdepth_mems m' \<le> max (gdepth_mems (mput k g m)) (jdepth_mems kvs)"
    using "10.IH"(2) [OF g(1)] "10.prems"(1) g(2) by auto
  then show ?case using gdepth_mput [of k g m] v by (auto simp: le_max_iff_disj)
qed (auto simp: parse_float_wf le_max_iff_disj split: option.splits)

text \<open>A decoded map is well-formed and no deeper than the text or the map it was decoded over.\<close>

definition map_ok :: "nat \<Rightarrow> mapv \<Rightarrow> bool" where
  "map_ok d m \<longleftrightarrow> wf_map (entries m) \<and> gdepth (VObj (entries m)) \<le> d"

lemma dec_map_ok:
  assumes "value_ok v d" and "dec_map v m = Some m'" and "map_ok d m"
  shows "map_ok d m'"
proof (cases v)
  case (JObj kvs)
  then obtain g where g: "of_jmems (entries m) kvs = Some g" "m' = Some g"
    using assms(2) by (auto simp: dec_map_def)
  have "jvalid_mems kvs" "Suc (jdepth_mems kvs) \<le> d" using assms(1) by (simp_all add: JObj value_ok_def)
  with of_j_ok(3) [OF _ _ g(1)] show ?thesis
    using assms(3) unfolding map_ok_def g(2) by (auto simp: le_max_iff_disj)
next
  case JNull
  then show ?thesis using assms by (auto simp: dec_map_def map_ok_def)
qed (use assms(2) in \<open>auto simp: dec_map_def\<close>)

lemma dec_str_ok: "value_ok v d \<Longrightarrow> dec_str v s = Some x \<Longrightarrow> valid_utf8 s \<Longrightarrow> valid_utf8 x"
  by (auto simp: dec_str_def value_ok_def split: jval.splits)

lemma parse_int64_range: "parse_int64 s = Some i \<Longrightarrow> in_int64 i"
  by (auto simp: parse_int64_def Let_def split: if_splits prod.splits)

lemma dec_int_ok: "dec_int v i = Some x \<Longrightarrow> in_int64 i \<Longrightarrow> in_int64 x"
  by (auto simp: dec_int_def parse_int64_range split: jval.splits)

lemma dec_fields_inv:
  assumes "dec_fields f strict names kvs s = Some s'" and "P s" and "jvalid_mems kvs" and "jdepth_mems kvs \<le> d"
    and "\<And>n v s s'. P s \<Longrightarrow> value_ok v d \<Longrightarrow> f n v s = Some s' \<Longrightarrow> P s'"
  shows "P s'"
  using assms(1-4)
proof (induction kvs arbitrary: s)
  case (Cons p kvs)
  obtain k v where p: "p = (k, v)" by (cases p)
  note prems = Cons.prems [unfolded p]
  show ?case
  proof (cases "field_of names k")
    case None
    then show ?thesis using Cons.IH prems by (auto split: if_splits)
  next
    case (Some n)
    then obtain u where u: "f n v s = Some u" "dec_fields f strict names kvs u = Some s'"
      using prems(1) by (auto split: option.splits)
    have "value_ok v d" using prems by (simp add: value_ok_def)
    then have "P u" using assms(5) prems(2) u(1) by blast
    then show ?thesis using Cons.IH [OF u(2)] prems by simp
  qed
qed simp

end
