(* ===== verification/Go_Crypto.thy ===== *)
theory Go_Crypto
  imports Zta_Prelude
begin

text \<open>
  The three standard-library codecs behind signed tokens: \<open>base64.RawURLEncoding\<close>,
  \<open>crypto/sha256\<close> and \<open>crypto/hmac\<close>.  Theorems: decoding inverts encoding, the encoded
  text never contains the separator of a token, and digests have 32 bytes.
\<close>

unbundle bit_operations_syntax

section \<open>base64.RawURLEncoding\<close>

definition b64_chr :: "nat \<Rightarrow> char" where
  "b64_chr v =
     (if v < 26 then byte (65 + v)
      else if v < 52 then byte (71 + v)
      else if v < 62 then byte (v - 4)
      else if v = 62 then CHR ''-''
      else CHR ''_'')"

definition b64_val :: "char \<Rightarrow> nat option" where
  "b64_val c =
     (let b = byte_of c in
      if 65 \<le> b \<and> b \<le> 90 then Some (b - 65)
      else if 97 \<le> b \<and> b \<le> 122 then Some (b - 71)
      else if 48 \<le> b \<and> b \<le> 57 then Some (b + 4)
      else if b = 45 then Some 62
      else if b = 95 then Some 63
      else None)"

fun b64_encode :: "string \<Rightarrow> string" where
  "b64_encode [] = []"
| "b64_encode [a] =
     (let x = byte_of a in [b64_chr (x div 4), b64_chr (x mod 4 * 16)])"
| "b64_encode [a, b] =
     (let x = byte_of a; y = byte_of b in
      [b64_chr (x div 4), b64_chr (x mod 4 * 16 + y div 16), b64_chr (y mod 16 * 4)])"
| "b64_encode (a # b # c # r) =
     (let x = byte_of a; y = byte_of b; z = byte_of c in
      b64_chr (x div 4) # b64_chr (x mod 4 * 16 + y div 16)
      # b64_chr (y mod 16 * 4 + z div 64) # b64_chr (z mod 64) # b64_encode r)"

text \<open>
  Groups of four characters give three bytes; two or three left over give one or two, and
  their unused low bits are not looked at (the encoding is not in strict mode).
\<close>

fun b64_quads :: "string \<Rightarrow> string option" where
  "b64_quads [] = Some []"
| "b64_quads [p] = None"
| "b64_quads [p, q] =
     (case (b64_val p, b64_val q) of
        (Some i, Some j) \<Rightarrow> Some [byte (i * 4 + j div 16)]
      | _ \<Rightarrow> None)"
| "b64_quads [p, q, r] =
     (case (b64_val p, b64_val q, b64_val r) of
        (Some i, Some j, Some k) \<Rightarrow>
          Some [byte (i * 4 + j div 16), byte (j mod 16 * 16 + k div 4)]
      | _ \<Rightarrow> None)"
| "b64_quads (p # q # r # s # t) =
     (case (b64_val p, b64_val q, b64_val r, b64_val s, b64_quads t) of
        (Some i, Some j, Some k, Some l, Some bs) \<Rightarrow>
          Some (byte (i * 4 + j div 16) # byte (j mod 16 * 16 + k div 4)
                # byte (k mod 4 * 64 + l) # bs)
      | _ \<Rightarrow> None)"

text \<open>The decoder skips carriage returns and newlines.\<close>

definition b64_decode :: "string \<Rightarrow> string option" where
  "b64_decode s = b64_quads (filter (\<lambda>c. byte_of c \<noteq> 10 \<and> byte_of c \<noteq> 13) s)"

lemma b64_val_chr [simp]: "v < 64 \<Longrightarrow> b64_val (b64_chr v) = Some v"
  by (auto simp: b64_val_def b64_chr_def Let_def)

lemma byte_of_b64_chr:
  "v < 64 \<Longrightarrow> byte_of (b64_chr v) \<noteq> 10 \<and> byte_of (b64_chr v) \<noteq> 13 \<and> byte_of (b64_chr v) \<noteq> 46
     \<and> byte_of (b64_chr v) < 128"
  by (auto simp: b64_chr_def)

lemma byte_parts [simp]:
  "byte_of c div 4 < 64" "byte_of c div 16 < 16" "byte_of c div 64 < 4"
  using nat_of_char_less_256 [of c] by linarith+

lemma b64_sextets [simp]:
  "byte_of a mod 4 * 16 < 64" "byte_of a mod 4 * 16 + byte_of b div 16 < 64"
  "byte_of b mod 16 * 4 < 64" "byte_of b mod 16 * 4 + byte_of c div 64 < 64"
  using byte_parts(2) [of b] byte_parts(3) [of c] mod_less_divisor [of 4 "byte_of a"]
    mod_less_divisor [of 16 "byte_of b"] by linarith+

lemma b64_encode_chars:
  "c \<in> set (b64_encode s) \<Longrightarrow>
     byte_of c \<noteq> 10 \<and> byte_of c \<noteq> 13 \<and> byte_of c \<noteq> 46 \<and> byte_of c < 128"
  by (induction s rule: b64_encode.induct) (auto simp: Let_def byte_of_b64_chr)

lemma byte_join:
  "byte (byte_of a div 4 * 4 + (byte_of a mod 4 * 16) div 16) = a"
  "byte (byte_of a div 4 * 4 + (byte_of a mod 4 * 16 + byte_of b div 16) div 16) = a"
  "byte ((byte_of a mod 4 * 16 + byte_of b div 16) mod 16 * 16 + (byte_of b mod 16 * 4) div 4) = b"
  "byte ((byte_of a mod 4 * 16 + byte_of b div 16) mod 16 * 16
     + (byte_of b mod 16 * 4 + byte_of c div 64) div 4) = b"
  "byte ((byte_of b mod 16 * 4 + byte_of c div 64) mod 4 * 64 + byte_of c mod 64) = c"
  using byte_parts(2) [of b] byte_parts(3) [of c]
  by simp_all

theorem b64_roundtrip: "b64_decode (b64_encode s) = Some s"
proof -
  have "b64_quads (b64_encode s) = Some s"
    by (induction s rule: b64_encode.induct) (simp_all add: Let_def byte_join)
  moreover have "filter (\<lambda>c. byte_of c \<noteq> 10 \<and> byte_of c \<noteq> 13) (b64_encode s) = b64_encode s"
    using b64_encode_chars [of _ s] by (auto simp: filter_id_conv)
  ultimately show ?thesis by (simp add: b64_decode_def)
qed

lemma b64_no_dot: "CHR ''.'' \<notin> set (b64_encode s)"
  using b64_encode_chars [of "CHR ''.''" s] by auto

section \<open>SHA-256\<close>

type_synonym w32 = "32 word"

text \<open>The round constants, in decimal.\<close>

definition sha_k :: "w32 list" where
  "sha_k =
   [1116352408, 1899447441, 3049323471, 3921009573, 961987163, 1508970993, 2453635748, 2870763221,
    3624381080, 310598401, 607225278, 1426881987, 1925078388, 2162078206, 2614888103, 3248222580,
    3835390401, 4022224774, 264347078, 604807628, 770255983, 1249150122, 1555081692, 1996064986,
    2554220882, 2821834349, 2952996808, 3210313671, 3336571891, 3584528711, 113926993, 338241895,
    666307205, 773529912, 1294757372, 1396182291, 1695183700, 1986661051, 2177026350, 2456956037,
    2730485921, 2820302411, 3259730800, 3345764771, 3516065817, 3600352804, 4094571909, 275423344,
    430227734, 506948616, 659060556, 883997877, 958139571, 1322822218, 1537002063, 1747873779,
    1955562222, 2024104815, 2227730452, 2361852424, 2428436474, 2756734187, 3204031479, 3329325298]"

datatype sha_state = Sha w32 w32 w32 w32 w32 w32 w32 w32

definition sha_init :: sha_state where
  "sha_init = Sha 0x6a09e667 0xbb67ae85 0x3c6ef372 0xa54ff53a 0x510e527f 0x9b05688c 0x1f83d9ab 0x5be0cd19"

fun sha_round :: "sha_state \<Rightarrow> w32 \<times> w32 \<Rightarrow> sha_state" where
  "sha_round (Sha a b c d e f g h) (k, w) =
     (let s1 = word_rotr 6 e XOR word_rotr 11 e XOR word_rotr 25 e;
          ch = (e AND f) XOR (NOT e AND g);
          t1 = h + s1 + ch + k + w;
          s0 = word_rotr 2 a XOR word_rotr 13 a XOR word_rotr 22 a;
          mj = (a AND b) XOR (a AND c) XOR (b AND c);
          t2 = s0 + mj
      in Sha (t1 + t2) a b c (d + t1) e f g)"

fun sha_add :: "sha_state \<Rightarrow> sha_state \<Rightarrow> sha_state" where
  "sha_add (Sha a b c d e f g h) (Sha a' b' c' d' e' f' g' h') =
     Sha (a + a') (b + b') (c + c') (d + d') (e + e') (f + f') (g + g') (h + h')"

text \<open>The message schedule, latest word first.\<close>

fun sha_extend :: "nat \<Rightarrow> w32 list \<Rightarrow> w32 list" where
  "sha_extend 0 ws = ws"
| "sha_extend (Suc n) ws =
     (let x = ws ! 1; y = ws ! 14;
          s1 = word_rotr 17 x XOR word_rotr 19 x XOR drop_bit 10 x;
          s0 = word_rotr 7 y XOR word_rotr 18 y XOR drop_bit 3 y
      in sha_extend n ((s1 + ws ! 6 + s0 + ws ! 15) # ws))"

fun be_words :: "string \<Rightarrow> w32 list" where
  "be_words (a # b # c # d # r) =
     word_of_int (((int (byte_of a) * 256 + int (byte_of b)) * 256 + int (byte_of c)) * 256 + int (byte_of d)) # be_words r"
| "be_words _ = []"

definition be_bytes :: "w32 \<Rightarrow> string" where
  "be_bytes w =
     map (\<lambda>n. byte (nat n)) (let n = uint w in [n div 16777216, n div 65536 mod 256, n div 256 mod 256, n mod 256])"

definition sha_block :: "sha_state \<Rightarrow> string \<Rightarrow> sha_state" where
  "sha_block st blk =
     sha_add st (foldl sha_round st (zip sha_k (rev (sha_extend 48 (rev (be_words blk))))))"

definition sha_pad :: "string \<Rightarrow> string" where
  "sha_pad m =
     (let n = length m; z = (119 - n mod 64) mod 64; bits = int (8 * n) in
      m @ [byte 0x80] @ replicate z (byte 0)
      @ map (\<lambda>i. byte (nat (bits div 256 ^ i mod 256))) [7, 6, 5, 4, 3, 2, 1, 0])"

function sha_blocks :: "sha_state \<Rightarrow> string \<Rightarrow> sha_state" where
  "sha_blocks st m = (if length m < 64 then st else sha_blocks (sha_block st (take 64 m)) (drop 64 m))"
  by pat_completeness auto
termination by (relation "measure (\<lambda>(st, m). length m)") auto

declare sha_blocks.simps [simp del]

definition sha256 :: "string \<Rightarrow> string" where
  "sha256 m =
     (case sha_blocks sha_init (sha_pad m) of
        Sha a b c d e f g h \<Rightarrow> concat (map be_bytes [a, b, c, d, e, f, g, h]))"

lemma length_sha256 [simp]: "length (sha256 m) = 32"
  by (simp add: sha256_def be_bytes_def Let_def split: sha_state.split)

section \<open>HMAC\<close>

definition hmac_key :: "string \<Rightarrow> string" where
  "hmac_key k =
     (let k' = (if 64 < length k then sha256 k else k) in k' @ replicate (64 - length k') (byte 0))"

definition xor_pad :: "nat \<Rightarrow> string \<Rightarrow> string" where
  "xor_pad p k = map (\<lambda>c. byte (byte_of c XOR p)) k"

definition hmac_sha256 :: "string \<Rightarrow> string \<Rightarrow> string" where
  "hmac_sha256 k m =
     sha256 (xor_pad 0x5C (hmac_key k) @ sha256 (xor_pad 0x36 (hmac_key k) @ m))"

lemma length_hmac [simp]: "length (hmac_sha256 k m) = 32"
  by (simp add: hmac_sha256_def)

end
