(* ===== verification/Envelope.thy ===== *)
theory Envelope
  imports Go_Crypto
begin

text \<open>
  The signed two-part form that decision tokens (\<open>authz/token/token.go\<close>) and security event
  tokens (\<open>signals/caep/caep.go\<close>) share: an encoded body, a dot, the encoded MAC of the
  encoded body.  The interface to the codec and the MAC is the locale \<open>sealing\<close>; its one
  instance is \<open>base64.RawURLEncoding\<close> with HMAC-SHA256.
\<close>

datatype envelope_error = Malformed | BadSigEncoding | SigMismatch | BadBodyEncoding

definition seal_with :: "(string \<Rightarrow> string) \<Rightarrow> (string \<Rightarrow> string) \<Rightarrow> string \<Rightarrow> string" where
  "seal_with enc mac payload = (let body = enc payload in body @ ''.'' @ enc (mac body))"

definition unseal_with ::
  "(string \<Rightarrow> string option) \<Rightarrow> (string \<Rightarrow> string) \<Rightarrow> string \<Rightarrow> envelope_error + string"
where
  "unseal_with dec mac tok =
     (case cut_byte CHR ''.'' tok of
        None \<Rightarrow> Inl Malformed
      | Some (body, sig) \<Rightarrow>
          (case dec sig of
             None \<Rightarrow> Inl BadSigEncoding
           | Some want \<Rightarrow>
               if want \<noteq> mac body then Inl SigMismatch
               else (case dec body of None \<Rightarrow> Inl BadBodyEncoding | Some payload \<Rightarrow> Inr payload)))"

text \<open>What the envelope needs of its codec: it inverts, and never writes the separator.\<close>

locale sealing =
  fixes enc :: "string \<Rightarrow> string" and dec :: "string \<Rightarrow> string option"
  assumes dec_enc: "dec (enc s) = Some s"
    and enc_no_dot: "CHR ''.'' \<notin> set (enc s)"
begin

lemma cut_seal: "cut_byte CHR ''.'' (seal_with enc mac p) = Some (enc p, enc (mac (enc p)))"
  using cut_byte_append [OF enc_no_dot] by (simp add: seal_with_def Let_def)

lemma unseal_sealed: "unseal_with dec mac (seal_with enc mac p) = Inr p"
  by (simp add: unseal_with_def cut_seal dec_enc)

text \<open>Opened with another MAC, the envelope is refused unless the two MACs agree on the body.\<close>

lemma unseal_other_mac:
  "unseal_with dec mac' (seal_with enc mac p) =
     (if mac (enc p) = mac' (enc p) then Inr p else Inl SigMismatch)"
  by (simp add: unseal_with_def cut_seal dec_enc)

end

text \<open>Whatever opens carries the MAC of its own body.\<close>

lemma unseal_InrD:
  assumes "unseal_with dec mac tok = Inr p"
  obtains body sig where "tok = body @ ''.'' @ sig" "CHR ''.'' \<notin> set body"
    "dec sig = Some (mac body)" "dec body = Some p"
  using assms by (auto simp: unseal_with_def cut_byte_Some split: option.splits if_splits prod.splits)

interpretation b64: sealing b64_encode b64_decode
  by unfold_locales (simp_all add: b64_roundtrip b64_no_dot)

definition seal :: "string \<Rightarrow> string \<Rightarrow> string" where
  "seal secret = seal_with b64_encode (hmac_sha256 secret)"

definition unseal :: "string \<Rightarrow> string \<Rightarrow> envelope_error + string" where
  "unseal secret = unseal_with b64_decode (hmac_sha256 secret)"

lemma unseal_seal [simp]: "unseal k (seal k p) = Inr p"
  by (simp add: unseal_def seal_def b64.unseal_sealed)

lemma unseal_other_key:
  "unseal k' (seal k p) =
     (if hmac_sha256 k (b64_encode p) = hmac_sha256 k' (b64_encode p) then Inr p else Inl SigMismatch)"
  by (simp add: unseal_def seal_def b64.unseal_other_mac)

lemma unseal_authentic:
  assumes "unseal k tok = Inr p"
  obtains body sig where "tok = body @ ''.'' @ sig" "CHR ''.'' \<notin> set body"
    "b64_decode sig = Some (hmac_sha256 k body)" "b64_decode body = Some p"
  using assms unfolding unseal_def by (rule unseal_InrD)

text \<open>
  An accepted body with another signature part is refused, unless that part decodes to the
  same bytes.
\<close>

lemma unseal_tampered_sig:
  assumes "unseal k (body @ ''.'' @ sig) = Inr p" and "CHR ''.'' \<notin> set body"
    and "b64_decode sig' \<noteq> b64_decode sig"
  shows "\<exists>e. unseal k (body @ ''.'' @ sig') = Inl e"
  using assms
  by (auto simp: unseal_def unseal_with_def cut_byte_append split: option.splits if_splits)

end
