(* ===== verification/AuthZen.thy ===== *)
theory AuthZen
  imports Go_Value
begin

text \<open>
  The AuthZEN contract (\<open>authz/authzen/types.go\<close>, \<open>authz/authzen/validate.go\<close>): requests
  and responses with their JSON form, the typed accessors, and the validation of the
  contract's structural and naming rules.
\<close>

section \<open>Constants\<close>

type_synonym profile = string

definition ProfileEdge :: profile where "ProfileEdge = ''edge''"
definition ProfileEastWest :: profile where "ProfileEastWest = ''east_west''"
definition ProfilePartner :: profile where "ProfilePartner = ''partner''"

definition SubjectTypeUser :: string where "SubjectTypeUser = ''user''"
definition SubjectTypeWorkload :: string where "SubjectTypeWorkload = ''workload''"

definition AAL1 :: string where "AAL1 = ''AAL1''"
definition AAL2 :: string where "AAL2 = ''AAL2''"
definition AAL3 :: string where "AAL3 = ''AAL3''"

definition ObligationStepUp :: string where "ObligationStepUp = ''step_up''"
definition ObligationLog :: string where "ObligationLog = ''log''"

lemmas profile_defs = ProfileEdge_def ProfileEastWest_def ProfilePartner_def
lemmas authzen_consts = profile_defs SubjectTypeUser_def SubjectTypeWorkload_def
  AAL1_def AAL2_def AAL3_def ObligationStepUp_def ObligationLog_def

section \<open>Requests and responses\<close>

record subject =
  subj_type :: string
  subj_id :: string
  subj_props :: mapv

record action =
  act_name :: string
  act_props :: mapv

record resource =
  res_type :: string
  res_id :: string
  res_props :: mapv

record request =
  req_subject :: subject
  req_action :: action
  req_resource :: resource
  req_context :: mapv

record decision_token =
  tok_value :: string
  tok_ttl :: int

record obligation =
  ob_type :: string
  ob_details :: mapv

record response_context =
  rc_token :: "decision_token option"
  rc_obligations :: "obligation list"
  rc_reason :: string

record response =
  decision :: bool
  resp_context :: "response_context option"

text \<open>Go's zero values.\<close>

definition zero_subject :: subject where
  "zero_subject = \<lparr>subj_type = [], subj_id = [], subj_props = None\<rparr>"
definition zero_action :: action where
  "zero_action = \<lparr>act_name = [], act_props = None\<rparr>"
definition zero_resource :: resource where
  "zero_resource = \<lparr>res_type = [], res_id = [], res_props = None\<rparr>"
definition zero_request :: request where
  "zero_request = \<lparr>req_subject = zero_subject, req_action = zero_action,
     req_resource = zero_resource, req_context = None\<rparr>"
definition zero_token :: decision_token where
  "zero_token = \<lparr>tok_value = [], tok_ttl = 0\<rparr>"
definition zero_obligation :: obligation where
  "zero_obligation = \<lparr>ob_type = [], ob_details = None\<rparr>"
definition zero_context :: response_context where
  "zero_context = \<lparr>rc_token = None, rc_obligations = [], rc_reason = []\<rparr>"
definition zero_response :: response where
  "zero_response = \<lparr>decision = False, resp_context = None\<rparr>"

lemmas zero_defs = zero_subject_def zero_action_def zero_resource_def zero_request_def
  zero_token_def zero_obligation_def zero_context_def zero_response_def

section \<open>Typed accessors\<close>

definition str_or_empty :: "string option \<Rightarrow> string" where
  "str_or_empty v = (case v of Some s \<Rightarrow> s | None \<Rightarrow> [])"

lemma str_or_empty_simps [simp]: "str_or_empty None = []" "str_or_empty (Some s) = s"
  by (simp_all add: str_or_empty_def)

definition authz_profile :: "request \<Rightarrow> profile" where
  "authz_profile r = str_or_empty (get_str (entries (req_context r)) ''authz_profile'')"

definition correlation_id :: "request \<Rightarrow> string" where
  "correlation_id r = str_or_empty (get_str (entries (req_context r)) ''correlation_id'')"

definition pep_id :: "request \<Rightarrow> string" where
  "pep_id r =
     (case get_map (entries (req_context r)) ''pep'' of
        None \<Rightarrow> []
      | Some pep \<Rightarrow> str_or_empty (get_str pep ''id''))"

definition auth_assurance_level :: "subject \<Rightarrow> string" where
  "auth_assurance_level s = str_or_empty (get_str (entries (subj_props s)) ''auth_assurance_level'')"

definition act_subject :: "subject \<Rightarrow> gmap option" where
  "act_subject s = get_map (entries (subj_props s)) ''act''"

section \<open>Validation\<close>

text \<open>\<open>nameToken\<close>: a lower-case letter, then lower-case letters, digits, underscores, hyphens.\<close>

definition lower :: "char \<Rightarrow> bool" where
  "lower c \<longleftrightarrow> 97 \<le> byte_of c \<and> byte_of c \<le> 122"

definition name_char :: "char \<Rightarrow> bool" where
  "name_char c \<longleftrightarrow> lower c \<or> is_digit c \<or> c = CHR ''_'' \<or> c = CHR ''-''"

definition name_token :: "string \<Rightarrow> bool" where
  "name_token s = (case s of [] \<Rightarrow> False | c # cs \<Rightarrow> lower c \<and> list_all name_char cs)"

definition is_colon_pair :: "string \<Rightarrow> bool" where
  "is_colon_pair s =
     (case split_byte CHR '':'' s of [a, b] \<Rightarrow> name_token a \<and> name_token b | _ \<Rightarrow> False)"

definition domain_of :: "string \<Rightarrow> string option" where
  "domain_of s =
     (if \<not> is_colon_pair s then None
      else Some (case cut_byte CHR '':'' s of None \<Rightarrow> s | Some (a, b) \<Rightarrow> a))"

text \<open>The issues \<open>Validate\<close> can report, with the values their messages quote.\<close>

datatype issue =
    SubjectTypeRequired
  | SubjectTypeBad string
  | SubjectIDRequired
  | ActionNameRequired
  | ActionNameBad string
  | ResourceTypeRequired
  | ResourceTypeBad string
  | DomainMismatch string string string string
  | ProfileRequired
  | ProfileBad string

datatype validation_error = ValidationError (issues: "issue list")

definition subject_issues :: "request \<Rightarrow> issue list" where
  "subject_issues r =
     (let t = subj_type (req_subject r) in
      (if t = SubjectTypeUser \<or> t = SubjectTypeWorkload then []
       else if t = [] then [SubjectTypeRequired] else [SubjectTypeBad t])
      @ (if subj_id (req_subject r) = [] then [SubjectIDRequired] else []))"

definition name_issues :: "request \<Rightarrow> issue list" where
  "name_issues r =
     (let a = act_name (req_action r); t = res_type (req_resource r) in
      (if a = [] then [ActionNameRequired] else if \<not> is_colon_pair a then [ActionNameBad a] else [])
      @ (if t = [] then [ResourceTypeRequired] else if \<not> is_colon_pair t then [ResourceTypeBad t] else []))"

definition domain_issues :: "request \<Rightarrow> issue list" where
  "domain_issues r =
     (let a = act_name (req_action r); t = res_type (req_resource r) in
      case domain_of a of None \<Rightarrow> []
      | Some ad \<Rightarrow>
          (case domain_of t of None \<Rightarrow> []
           | Some rd \<Rightarrow> if ad \<noteq> rd then [DomainMismatch a ad t rd] else []))"

definition profile_issues :: "request \<Rightarrow> issue list" where
  "profile_issues r =
     (let p = authz_profile r in
      if p = ProfileEdge \<or> p = ProfileEastWest \<or> p = ProfilePartner then []
      else if p = [] then [ProfileRequired] else [ProfileBad p])"

definition all_issues :: "request \<Rightarrow> issue list" where
  "all_issues r = subject_issues r @ name_issues r @ domain_issues r @ profile_issues r"

definition validate :: "request \<Rightarrow> validation_error option" where
  "validate r = (if all_issues r \<noteq> [] then Some (ValidationError (all_issues r)) else None)"

text \<open>
  The message texts.  \<open>q\<close> is the \<open>%q\<close> verb of \<open>fmt\<close>, whose treatment of non-ASCII runes
  follows the Unicode tables.
\<close>

fun issue_text :: "(string \<Rightarrow> string) \<Rightarrow> issue \<Rightarrow> string" where
  "issue_text q SubjectTypeRequired = ''subject.type is required''"
| "issue_text q (SubjectTypeBad t) =
     ''subject.type '' @ q t @ '' must be '' @ q SubjectTypeUser @ '' or '' @ q SubjectTypeWorkload"
| "issue_text q SubjectIDRequired = ''subject.id is required''"
| "issue_text q ActionNameRequired = ''action.name is required''"
| "issue_text q (ActionNameBad a) =
     ''action.name '' @ q a @ '' must match '' @ [quote_chr] @ ''<domain>:<action>'' @ [quote_chr]
     @ '' (e.g. wallet:settle)''"
| "issue_text q ResourceTypeRequired = ''resource.type is required''"
| "issue_text q (ResourceTypeBad t) =
     ''resource.type '' @ q t @ '' must match '' @ [quote_chr] @ ''<domain>:<entity>'' @ [quote_chr]
     @ '' (e.g. wallet:account)''"
| "issue_text q (DomainMismatch a ad t rd) =
     ''domain mismatch: action '' @ q a @ '' is in domain '' @ q ad @ '' but resource '' @ q t
     @ '' is in domain '' @ q rd"
| "issue_text q ProfileRequired = ''context.authz_profile is required (edge|east_west|partner)''"
| "issue_text q (ProfileBad p) =
     ''context.authz_profile '' @ q p @ '' must be one of edge|east_west|partner''"

fun join_strings :: "string \<Rightarrow> string list \<Rightarrow> string" where
  "join_strings sep [] = []"
| "join_strings sep [x] = x"
| "join_strings sep (x # y # ys) = x @ sep @ join_strings sep (y # ys)"

definition validation_text :: "(string \<Rightarrow> string) \<Rightarrow> validation_error \<Rightarrow> string" where
  "validation_text q e =
     ''authzen: invalid request: '' @ join_strings ''; '' (map (issue_text q) (issues e))"

subsection \<open>The naming convention as a specification\<close>

text \<open>A name \<open>d:x\<close> of two tokens, and what it means for a request to satisfy the contract.\<close>

definition named :: "string \<Rightarrow> string \<Rightarrow> string \<Rightarrow> bool" where
  "named s d x \<longleftrightarrow> name_token d \<and> name_token x \<and> s = d @ CHR '':'' # x"

definition conforms :: "request \<Rightarrow> bool" where
  "conforms r \<longleftrightarrow>
     subj_type (req_subject r) \<in> {SubjectTypeUser, SubjectTypeWorkload}
     \<and> subj_id (req_subject r) \<noteq> []
     \<and> (\<exists>d a e. named (act_name (req_action r)) d a \<and> named (res_type (req_resource r)) d e)
     \<and> authz_profile r \<in> {ProfileEdge, ProfileEastWest, ProfilePartner}"

lemma name_token_no_colon: "name_token s \<Longrightarrow> CHR '':'' \<notin> set s"
  by (cases s) (auto simp: name_token_def lower_def name_char_def is_digit_def list_all_iff)

lemma is_colon_pair_iff: "is_colon_pair s \<longleftrightarrow> (\<exists>d x. named s d x)"
proof
  assume "is_colon_pair s"
  then obtain a b where "split_byte CHR '':'' s = [a, b]" and "name_token a" "name_token b"
    by (auto simp: is_colon_pair_def split: list.splits)
  then show "\<exists>d x. named s d x" by (auto simp: split_byte_two named_def)
next
  assume "\<exists>d x. named s d x"
  then obtain d x where n: "named s d x" by blast
  then have "split_byte CHR '':'' s = [d, x]"
    using name_token_no_colon by (auto simp: named_def split_byte_two)
  with n show "is_colon_pair s" by (simp add: is_colon_pair_def named_def)
qed

lemma named_unique: "named s d x \<Longrightarrow> named s d' x' \<Longrightarrow> d = d' \<and> x = x'"
  using name_token_no_colon cut_byte_append unfolding named_def by (metis option.inject prod.inject)

lemma domain_of_iff: "domain_of s = Some d \<longleftrightarrow> (\<exists>x. named s d x)"
proof -
  have "domain_of s = Some d" if n: "named s d x" for x
    using n name_token_no_colon is_colon_pair_iff cut_byte_append
    by (fastforce simp: domain_of_def named_def)
  moreover have "\<exists>x. named s d x" if "domain_of s = Some d"
    using that is_colon_pair_iff [of s] calculation
    by (auto simp: domain_of_def named_def cut_byte_append name_token_no_colon split: if_splits)
  ultimately show ?thesis by blast
qed

lemma named_nonempty: "named s d x \<Longrightarrow> s \<noteq> []"
  by (auto simp: named_def)

lemma colon_pair_nonempty: "is_colon_pair s \<Longrightarrow> s \<noteq> []"
  using is_colon_pair_iff named_nonempty by blast

lemma all_issues_Nil: "all_issues r = [] \<longleftrightarrow> conforms r"
proof -
  let ?a = "act_name (req_action r)" and ?t = "res_type (req_resource r)"
  have names: "name_issues r = [] \<longleftrightarrow> is_colon_pair ?a \<and> is_colon_pair ?t"
    using colon_pair_nonempty by (auto simp: name_issues_def Let_def)
  have dom: "domain_issues r = [] \<longleftrightarrow> (\<forall>d e. domain_of ?a = Some d \<and> domain_of ?t = Some e \<longrightarrow> d = e)"
    by (auto simp: domain_issues_def Let_def split: option.splits)
  have "name_issues r = [] \<and> domain_issues r = [] \<longleftrightarrow> (\<exists>d a e. named ?a d a \<and> named ?t d e)"
    unfolding names dom is_colon_pair_iff domain_of_iff using named_unique by blast
  then show ?thesis
    by (auto simp: all_issues_def conforms_def subject_issues_def profile_issues_def Let_def
        SubjectTypeUser_def SubjectTypeWorkload_def)
qed

section \<open>Properties\<close>

text \<open>Which rule of the contract a request breaks, issue by issue.\<close>

fun breaks :: "request \<Rightarrow> issue \<Rightarrow> bool" where
  "breaks r SubjectTypeRequired \<longleftrightarrow> subj_type (req_subject r) = []"
| "breaks r (SubjectTypeBad t) \<longleftrightarrow>
     subj_type (req_subject r) = t \<and> t \<notin> {[], SubjectTypeUser, SubjectTypeWorkload}"
| "breaks r SubjectIDRequired \<longleftrightarrow> subj_id (req_subject r) = []"
| "breaks r ActionNameRequired \<longleftrightarrow> act_name (req_action r) = []"
| "breaks r (ActionNameBad a) \<longleftrightarrow> act_name (req_action r) = a \<and> a \<noteq> [] \<and> (\<nexists>d x. named a d x)"
| "breaks r ResourceTypeRequired \<longleftrightarrow> res_type (req_resource r) = []"
| "breaks r (ResourceTypeBad t) \<longleftrightarrow> res_type (req_resource r) = t \<and> t \<noteq> [] \<and> (\<nexists>d x. named t d x)"
| "breaks r (DomainMismatch a ad t rd) \<longleftrightarrow>
     act_name (req_action r) = a \<and> res_type (req_resource r) = t \<and> ad \<noteq> rd
     \<and> (\<exists>x. named a ad x) \<and> (\<exists>x. named t rd x)"
| "breaks r ProfileRequired \<longleftrightarrow> authz_profile r = []"
| "breaks r (ProfileBad p) \<longleftrightarrow>
     authz_profile r = p \<and> p \<notin> {[], ProfileEdge, ProfileEastWest, ProfilePartner}"

lemma consts_nonempty [simp]:
  "SubjectTypeUser \<noteq> []" "SubjectTypeWorkload \<noteq> []"
  "ProfileEdge \<noteq> []" "ProfileEastWest \<noteq> []" "ProfilePartner \<noteq> []"
  by (simp_all add: authzen_consts)

lemma set_all_issues: "x \<in> set (all_issues r) \<longleftrightarrow> breaks r x"
proof -
  have a: "is_colon_pair s \<longleftrightarrow> (\<exists>d x. named s d x)" for s by (rule is_colon_pair_iff)
  have "x \<in> set (subject_issues r) \<union> set (name_issues r) \<union> set (profile_issues r) \<longleftrightarrow> breaks r x"
    if "\<nexists>p q u v. x = DomainMismatch p q u v"
    using that consts_nonempty [symmetric]
    by (cases x) (auto simp: subject_issues_def name_issues_def profile_issues_def Let_def a)
  moreover have "DomainMismatch p d t e \<in> set (domain_issues r) \<longleftrightarrow> breaks r (DomainMismatch p d t e)" for p d t e
    by (cases "domain_of (act_name (req_action r))"; cases "domain_of (res_type (req_resource r))")
       (auto simp: domain_issues_def Let_def simp flip: domain_of_iff)
  moreover have "x \<in> set (domain_issues r) \<Longrightarrow> \<exists>p q u v. x = DomainMismatch p q u v"
    by (auto simp: domain_issues_def Let_def split: option.splits if_splits)
  moreover have "DomainMismatch p d t e \<notin> set (subject_issues r) \<union> set (name_issues r) \<union> set (profile_issues r)"
    for p d t e by (auto simp: subject_issues_def name_issues_def profile_issues_def Let_def)
  ultimately show ?thesis unfolding all_issues_def set_append by blast
qed

text \<open>The four groups of issues do not overlap.\<close>

fun issue_group :: "issue \<Rightarrow> nat" where
  "issue_group SubjectTypeRequired = 0"
| "issue_group (SubjectTypeBad _) = 0"
| "issue_group SubjectIDRequired = 0"
| "issue_group (DomainMismatch _ _ _ _) = 2"
| "issue_group ProfileRequired = 3"
| "issue_group (ProfileBad _) = 3"
| "issue_group _ = 1"

lemma issue_groups:
  "x \<in> set (subject_issues r) \<Longrightarrow> issue_group x = 0"
  "x \<in> set (name_issues r) \<Longrightarrow> issue_group x = 1"
  "x \<in> set (domain_issues r) \<Longrightarrow> issue_group x = 2"
  "x \<in> set (profile_issues r) \<Longrightarrow> issue_group x = 3"
  by (auto simp: subject_issues_def name_issues_def domain_issues_def profile_issues_def Let_def
      split: if_splits option.splits)

lemma distinct_all_issues: "distinct (all_issues r)"
proof -
  have "distinct (subject_issues r)" "distinct (name_issues r)" "distinct (profile_issues r)"
    by (simp_all add: subject_issues_def name_issues_def profile_issues_def Let_def)
  moreover have "distinct (domain_issues r)"
    by (simp add: domain_issues_def Let_def split: option.split)
  ultimately show ?thesis
    by (auto simp: all_issues_def dest!: issue_groups)
qed

text \<open>
  C15.  Validation accepts exactly the requests that satisfy the contract: a user or workload
  subject with an id, an action and a resource type that are both \<open><domain>:<name>\<close> in the
  same domain, and one of the three profiles.  Otherwise it reports every broken rule, each
  once, and nothing else.
\<close>

theorem validate_contract:
  "(validate r = None \<longleftrightarrow> conforms r)
   \<and> (\<exists>xs. validate r = (if conforms r then None else Some (ValidationError xs))
          \<and> distinct xs \<and> (\<forall>x. x \<in> set xs \<longleftrightarrow> breaks r x))"
  using set_all_issues [of _ r] distinct_all_issues [of r]
  by (auto simp: validate_def all_issues_Nil intro: exI [of _ "all_issues r"])

end
