(* ===== verification/AuthZen_Json.thy ===== *)
theory AuthZen_Json
  imports AuthZen
begin

text \<open>
  The JSON form of requests and responses (the struct tags of
  \<open>authz/authzen/types.go\<close>): what \<open>json.Marshal\<close> writes for them, how \<open>encoding/json\<close>
  decodes into them (strictly for the facade, leniently for the client), and the round
  trips.  The only loss is that an empty map arrives as a nil map, because \<open>omitempty\<close>
  leaves it out.
\<close>

section \<open>Marshalling\<close>

definition subject_j :: "subject \<Rightarrow> jval" where
  "subject_j s =
     JObj ([(''type'', JStr (subj_type s)), (''id'', JStr (subj_id s))]
           @ omit_map ''properties'' (subj_props s))"

definition action_j :: "action \<Rightarrow> jval" where
  "action_j a = JObj ((''name'', JStr (act_name a)) # omit_map ''properties'' (act_props a))"

definition resource_j :: "resource \<Rightarrow> jval" where
  "resource_j r =
     JObj ((''type'', JStr (res_type r)) # omit_str ''id'' (res_id r)
           @ omit_map ''properties'' (res_props r))"

definition request_mems :: "request \<Rightarrow> (string \<times> jval) list" where
  "request_mems r =
     [(''subject'', subject_j (req_subject r)), (''action'', action_j (req_action r)),
      (''resource'', resource_j (req_resource r))] @ omit_map ''context'' (req_context r)"

definition marshal_request :: "request \<Rightarrow> string" where
  "marshal_request r = print_j (JObj (request_mems r))"

definition token_j :: "decision_token \<Rightarrow> jval" where
  "token_j t = JObj [(''value'', JStr (tok_value t)), (''ttl_seconds'', int_j (tok_ttl t))]"

definition obligation_j :: "obligation \<Rightarrow> jval" where
  "obligation_j b = JObj ((''type'', JStr (ob_type b)) # omit_map ''details'' (ob_details b))"

definition context_j :: "response_context \<Rightarrow> jval" where
  "context_j c =
     JObj ((case rc_token c of None \<Rightarrow> [] | Some t \<Rightarrow> [(''decision_token'', token_j t)])
           @ (if rc_obligations c = [] then []
              else [(''obligations'', JArr (map obligation_j (rc_obligations c)))])
           @ omit_str ''reason_code'' (rc_reason c))"

definition response_j :: "response \<Rightarrow> jval" where
  "response_j r =
     JObj ((''decision'', JBool (decision r))
           # (case resp_context r of None \<Rightarrow> [] | Some c \<Rightarrow> [(''context'', context_j c)]))"

text \<open>\<open>json.NewEncoder(w).Encode(v)\<close> ends the text with a newline.\<close>

definition encode_response :: "response \<Rightarrow> string" where
  "encode_response r = print_j (response_j r) @ [CHR 0x0A]"

section \<open>Decoding\<close>

definition dec_subject :: "bool \<Rightarrow> jval \<Rightarrow> subject \<Rightarrow> subject option" where
  "dec_subject strict =
     dec_struct (\<lambda>n v s.
         if n = ''type'' then map_option (\<lambda>x. s\<lparr>subj_type := x\<rparr>) (dec_str v (subj_type s))
         else if n = ''id'' then map_option (\<lambda>x. s\<lparr>subj_id := x\<rparr>) (dec_str v (subj_id s))
         else map_option (\<lambda>x. s\<lparr>subj_props := x\<rparr>) (dec_map v (subj_props s)))
       strict [''type'', ''id'', ''properties'']"

definition dec_action :: "bool \<Rightarrow> jval \<Rightarrow> action \<Rightarrow> action option" where
  "dec_action strict =
     dec_struct (\<lambda>n v a.
         if n = ''name'' then map_option (\<lambda>x. a\<lparr>act_name := x\<rparr>) (dec_str v (act_name a))
         else map_option (\<lambda>x. a\<lparr>act_props := x\<rparr>) (dec_map v (act_props a)))
       strict [''name'', ''properties'']"

definition dec_resource :: "bool \<Rightarrow> jval \<Rightarrow> resource \<Rightarrow> resource option" where
  "dec_resource strict =
     dec_struct (\<lambda>n v r.
         if n = ''type'' then map_option (\<lambda>x. r\<lparr>res_type := x\<rparr>) (dec_str v (res_type r))
         else if n = ''id'' then map_option (\<lambda>x. r\<lparr>res_id := x\<rparr>) (dec_str v (res_id r))
         else map_option (\<lambda>x. r\<lparr>res_props := x\<rparr>) (dec_map v (res_props r)))
       strict [''type'', ''id'', ''properties'']"

definition dec_request :: "bool \<Rightarrow> jval \<Rightarrow> request \<Rightarrow> request option" where
  "dec_request strict =
     dec_struct (\<lambda>n v r.
         if n = ''subject'' then
           map_option (\<lambda>x. r\<lparr>req_subject := x\<rparr>) (dec_subject strict v (req_subject r))
         else if n = ''action'' then
           map_option (\<lambda>x. r\<lparr>req_action := x\<rparr>) (dec_action strict v (req_action r))
         else if n = ''resource'' then
           map_option (\<lambda>x. r\<lparr>req_resource := x\<rparr>) (dec_resource strict v (req_resource r))
         else map_option (\<lambda>x. r\<lparr>req_context := x\<rparr>) (dec_map v (req_context r)))
       strict [''subject'', ''action'', ''resource'', ''context'']"

text \<open>A pointer field: \<open>null\<close> clears it, anything else decodes into a fresh or the present value.\<close>

definition dec_ptr :: "(jval \<Rightarrow> 'a \<Rightarrow> 'a option) \<Rightarrow> 'a \<Rightarrow> jval \<Rightarrow> 'a option \<Rightarrow> 'a option option" where
  "dec_ptr f z v p =
     (if v = JNull then Some None
      else map_option Some (f v (case p of None \<Rightarrow> z | Some x \<Rightarrow> x)))"

definition dec_token :: "jval \<Rightarrow> decision_token \<Rightarrow> decision_token option" where
  "dec_token =
     dec_struct (\<lambda>n v t.
         if n = ''value'' then map_option (\<lambda>x. t\<lparr>tok_value := x\<rparr>) (dec_str v (tok_value t))
         else map_option (\<lambda>x. t\<lparr>tok_ttl := x\<rparr>) (dec_int v (tok_ttl t)))
       False [''value'', ''ttl_seconds'']"

definition dec_obligation :: "jval \<Rightarrow> obligation \<Rightarrow> obligation option" where
  "dec_obligation =
     dec_struct (\<lambda>n v b.
         if n = ''type'' then map_option (\<lambda>x. b\<lparr>ob_type := x\<rparr>) (dec_str v (ob_type b))
         else map_option (\<lambda>x. b\<lparr>ob_details := x\<rparr>) (dec_map v (ob_details b)))
       False [''type'', ''details'']"

text \<open>A slice is decoded element by element over the elements already there.\<close>

fun dec_obligations :: "obligation list \<Rightarrow> jval list \<Rightarrow> obligation list option" where
  "dec_obligations old [] = Some []"
| "dec_obligations old (v # vs) =
     (case dec_obligation v (case old of [] \<Rightarrow> zero_obligation | b # _ \<Rightarrow> b) of
        None \<Rightarrow> None
      | Some b \<Rightarrow> map_option (Cons b) (dec_obligations (tl old) vs))"

definition dec_slice :: "jval \<Rightarrow> obligation list \<Rightarrow> obligation list option" where
  "dec_slice v old =
     (case v of JNull \<Rightarrow> Some [] | JArr vs \<Rightarrow> dec_obligations old vs | _ \<Rightarrow> None)"

definition dec_context :: "jval \<Rightarrow> response_context \<Rightarrow> response_context option" where
  "dec_context =
     dec_struct (\<lambda>n v c.
         if n = ''decision_token'' then
           map_option (\<lambda>x. c\<lparr>rc_token := x\<rparr>) (dec_ptr dec_token zero_token v (rc_token c))
         else if n = ''obligations'' then
           map_option (\<lambda>x. c\<lparr>rc_obligations := x\<rparr>) (dec_slice v (rc_obligations c))
         else map_option (\<lambda>x. c\<lparr>rc_reason := x\<rparr>) (dec_str v (rc_reason c)))
       False [''decision_token'', ''obligations'', ''reason_code'']"

definition dec_response :: "jval \<Rightarrow> response \<Rightarrow> response option" where
  "dec_response =
     dec_struct (\<lambda>n v r.
         if n = ''decision'' then map_option (\<lambda>x. r\<lparr>decision := x\<rparr>) (dec_bool v (decision r))
         else map_option (\<lambda>x. r\<lparr>resp_context := x\<rparr>) (dec_ptr dec_context zero_context v (resp_context r)))
       False [''decision'', ''context'']"

definition decode_request :: "string \<Rightarrow> request option" where
  "decode_request s = Option.bind (json_decode s) (\<lambda>v. dec_request True v zero_request)"

definition decode_response :: "string \<Rightarrow> response option" where
  "decode_response s = Option.bind (json_decode s) (\<lambda>v. dec_response v zero_response)"

section \<open>What a round trip preserves\<close>

definition norm_map :: "mapv \<Rightarrow> mapv" where
  "norm_map m = (if entries m = [] then None else Some (entries m))"

lemma entries_norm [simp]: "entries (norm_map m) = entries m"
  by (simp add: norm_map_def)

lemma norm_map_idem [simp]: "norm_map (norm_map m) = norm_map m"
  by (simp add: norm_map_def)

definition norm_request :: "request \<Rightarrow> request" where
  "norm_request r =
     \<lparr>req_subject = (req_subject r)\<lparr>subj_props := norm_map (subj_props (req_subject r))\<rparr>,
      req_action = (req_action r)\<lparr>act_props := norm_map (act_props (req_action r))\<rparr>,
      req_resource = (req_resource r)\<lparr>res_props := norm_map (res_props (req_resource r))\<rparr>,
      req_context = norm_map (req_context r)\<rparr>"

definition norm_obligation :: "obligation \<Rightarrow> obligation" where
  "norm_obligation b = b\<lparr>ob_details := norm_map (ob_details b)\<rparr>"

definition norm_context :: "response_context \<Rightarrow> response_context" where
  "norm_context c = c\<lparr>rc_obligations := map norm_obligation (rc_obligations c)\<rparr>"

definition norm_response :: "response \<Rightarrow> response" where
  "norm_response r = r\<lparr>resp_context := map_option norm_context (resp_context r)\<rparr>"

text \<open>Valid UTF-8 throughout, maps with sorted keys and finite numbers.\<close>

abbreviation wf_mapv :: "mapv \<Rightarrow> bool" where
  "wf_mapv m \<equiv> wf_map (entries m)"

definition wf_request :: "request \<Rightarrow> bool" where
  "wf_request r \<longleftrightarrow>
     valid_utf8 (subj_type (req_subject r)) \<and> valid_utf8 (subj_id (req_subject r))
     \<and> wf_mapv (subj_props (req_subject r))
     \<and> valid_utf8 (act_name (req_action r)) \<and> wf_mapv (act_props (req_action r))
     \<and> valid_utf8 (res_type (req_resource r)) \<and> valid_utf8 (res_id (req_resource r))
     \<and> wf_mapv (res_props (req_resource r)) \<and> wf_mapv (req_context r)"

definition request_depth :: "request \<Rightarrow> nat" where
  "request_depth r =
     Suc (max (Suc (max (gdepth (VObj (entries (subj_props (req_subject r)))))
                        (max (gdepth (VObj (entries (act_props (req_action r)))))
                             (gdepth (VObj (entries (res_props (req_resource r))))))))
              (gdepth (VObj (entries (req_context r)))))"

definition wf_token :: "decision_token \<Rightarrow> bool" where
  "wf_token t \<longleftrightarrow> valid_utf8 (tok_value t) \<and> in_int64 (tok_ttl t)"

definition wf_obligation :: "obligation \<Rightarrow> bool" where
  "wf_obligation b \<longleftrightarrow> valid_utf8 (ob_type b) \<and> wf_mapv (ob_details b)"

definition wf_context :: "response_context \<Rightarrow> bool" where
  "wf_context c \<longleftrightarrow>
     (\<forall>t \<in> set_option (rc_token c). wf_token t) \<and> list_all wf_obligation (rc_obligations c)
     \<and> valid_utf8 (rc_reason c)"

definition wf_response :: "response \<Rightarrow> bool" where
  "wf_response r \<longleftrightarrow> (\<forall>c \<in> set_option (resp_context r). wf_context c)"

text \<open>Nesting: response, context, obligation list, obligation, details.\<close>

definition details_depth :: "obligation list \<Rightarrow> nat" where
  "details_depth bs = foldr (\<lambda>b. max (gdepth (VObj (entries (ob_details b))))) bs 0"

definition response_depth :: "response \<Rightarrow> nat" where
  "response_depth r =
     (case resp_context r of None \<Rightarrow> 1 | Some c \<Rightarrow> 4 + details_depth (rc_obligations c))"

section \<open>Structural facts of the written objects\<close>

lemma jmems_append [simp]:
  "jok_mems (a @ b) = (jok_mems a \<and> jok_mems b)"
  "jsan_mems (a @ b) = jsan_mems a @ jsan_mems b"
  "jdepth_mems (a @ b) = max (jdepth_mems a) (jdepth_mems b)"
  by (induction a) auto

named_theorems json_facts \<open>written objects: admissible, sanitised, nesting depth\<close>

lemma omit_map_facts [json_facts]:
  "valid_utf8 k \<Longrightarrow> wf_mapv m \<Longrightarrow> jok_mems (omit_map k m)"
  "valid_utf8 k \<Longrightarrow> wf_mapv m \<Longrightarrow> jsan_mems (omit_map k m) = omit_map k m"
  "jdepth_mems (omit_map k m) \<le> gdepth (VObj (entries m))"
  using to_j_ok(3) [of "entries m"] to_j_san(3) [of "entries m"] to_j_depth(3) [of "entries m"]
  by (auto simp: omit_map_def)

lemma omit_str_facts [json_facts]:
  "valid_utf8 k \<Longrightarrow> valid_utf8 s \<Longrightarrow> jok_mems (omit_str k s)"
  "valid_utf8 k \<Longrightarrow> valid_utf8 s \<Longrightarrow> jsan_mems (omit_str k s) = omit_str k s"
  "jdepth_mems (omit_str k s) = 0"
  by (auto simp: omit_str_def)

lemma field_names_valid [simp]:
  "valid_utf8 ''type''" "valid_utf8 ''id''" "valid_utf8 ''properties''" "valid_utf8 ''name''"
  "valid_utf8 ''subject''" "valid_utf8 ''action''" "valid_utf8 ''resource''" "valid_utf8 ''context''"
  "valid_utf8 ''value''" "valid_utf8 ''ttl_seconds''" "valid_utf8 ''details''"
  "valid_utf8 ''decision_token''" "valid_utf8 ''obligations''" "valid_utf8 ''reason_code''"
  "valid_utf8 ''decision''"
  by (auto intro!: ascii_valid simp: ascii_def)

lemma subject_j_facts [json_facts]:
  assumes "valid_utf8 (subj_type s)" "valid_utf8 (subj_id s)" "wf_mapv (subj_props s)"
  shows "jok (subject_j s)" "jsan (subject_j s) = subject_j s"
    "jdepth (subject_j s) \<le> Suc (gdepth (VObj (entries (subj_props s))))"
  using assms omit_map_facts [of "''properties''" "subj_props s"] by (simp_all add: subject_j_def)

lemma action_j_facts [json_facts]:
  assumes "valid_utf8 (act_name a)" "wf_mapv (act_props a)"
  shows "jok (action_j a)" "jsan (action_j a) = action_j a"
    "jdepth (action_j a) \<le> Suc (gdepth (VObj (entries (act_props a))))"
  using assms omit_map_facts [of "''properties''" "act_props a"] by (simp_all add: action_j_def)

lemma resource_j_facts [json_facts]:
  assumes "valid_utf8 (res_type r)" "valid_utf8 (res_id r)" "wf_mapv (res_props r)"
  shows "jok (resource_j r)" "jsan (resource_j r) = resource_j r"
    "jdepth (resource_j r) \<le> Suc (gdepth (VObj (entries (res_props r))))"
  using assms omit_map_facts [of "''properties''" "res_props r"] omit_str_facts [of "''id''" "res_id r"]
  by (simp_all add: resource_j_def)

lemma request_j_facts:
  assumes "wf_request r"
  shows "jok (JObj (request_mems r))" "jsan (JObj (request_mems r)) = JObj (request_mems r)"
    "jdepth (JObj (request_mems r)) \<le> request_depth r"
  using assms subject_j_facts [of "req_subject r"] action_j_facts [of "req_action r"]
    resource_j_facts [of "req_resource r"] omit_map_facts [of "''context''" "req_context r"]
  by (auto simp: request_mems_def wf_request_def request_depth_def simp del: gdepth.simps)

section \<open>Round trips\<close>

lemma dec_fields_omit_map:
  assumes "k \<in> set names" "wf_mapv m"
  shows "dec_fields f strict names (omit_map k m) s =
     (if entries m = [] then Some s else f k (JObj (to_jmems (entries m))) s)"
  using assms by (auto simp: omit_map_def split: option.splits)

lemma dec_fields_omit_str:
  "k \<in> set names \<Longrightarrow>
   dec_fields f strict names (omit_str k x) s = (if x = [] then Some s else f k (JStr x) s)"
  by (auto simp: omit_str_def split: option.splits)

lemma dec_subject_j:
  "wf_mapv (subj_props s) \<Longrightarrow>
   dec_subject b (subject_j s) zero_subject = Some (s\<lparr>subj_props := norm_map (subj_props s)\<rparr>)"
  by (auto simp: dec_subject_def subject_j_def dec_struct_def dec_fields_omit_map zero_subject_def
      norm_map_def)

lemma dec_action_j:
  "wf_mapv (act_props s) \<Longrightarrow>
   dec_action b (action_j s) zero_action = Some (s\<lparr>act_props := norm_map (act_props s)\<rparr>)"
  by (auto simp: dec_action_def action_j_def dec_struct_def dec_fields_omit_map zero_action_def
      norm_map_def)

lemma dec_resource_j:
  "wf_mapv (res_props s) \<Longrightarrow>
   dec_resource b (resource_j s) zero_resource = Some (s\<lparr>res_props := norm_map (res_props s)\<rparr>)"
  by (auto simp: dec_resource_def resource_j_def dec_struct_def dec_fields_append dec_fields_omit_map
      dec_fields_omit_str zero_resource_def norm_map_def)

lemma dec_request_j:
  assumes "wf_request r"
  shows "dec_request b (JObj (request_mems r)) zero_request = Some (norm_request r)"
  using assms
  by (auto simp: dec_request_def request_mems_def dec_struct_def dec_fields_omit_map wf_request_def
      zero_request_def dec_subject_j dec_action_j dec_resource_j norm_request_def norm_map_def)

lemma nl_boundary [simp]: "boundary [CHR 0x0A]" "boundary []"
  by (simp_all add: boundary_def num_char_def is_digit_def)

lemma decode_marshal_request:
  assumes "wf_request r" and "request_depth r \<le> max_depth"
  shows "decode_request (marshal_request r) = Some (norm_request r)"
proof -
  have "json_decode (print_j (JObj (request_mems r)) @ []) = Some (jsan (JObj (request_mems r)))"
    by (rule json_decode_print)
       (use request_j_facts [OF assms(1)] assms(2) in \<open>auto intro: order_trans\<close>)
  then show ?thesis
    using request_j_facts(2) [OF assms(1)] dec_request_j [OF assms(1)]
    by (simp add: decode_request_def marshal_request_def)
qed

lemma token_j_facts [json_facts]:
  "wf_token t \<Longrightarrow> jok (token_j t)" "wf_token t \<Longrightarrow> jsan (token_j t) = token_j t"
  "jdepth (token_j t) = 1"
  by (simp_all add: wf_token_def token_j_def int_j_def show_int_lit)

lemma obligation_j_facts [json_facts]:
  "wf_obligation b \<Longrightarrow> jok (obligation_j b)" "wf_obligation b \<Longrightarrow> jsan (obligation_j b) = obligation_j b"
  "jdepth (obligation_j b) \<le> Suc (gdepth (VObj (entries (ob_details b))))"
  using omit_map_facts [of "''details''" "ob_details b"] by (simp_all add: wf_obligation_def obligation_j_def)

lemma obligations_j_facts [json_facts]:
  "list_all wf_obligation bs \<Longrightarrow> jok_list (map obligation_j bs)"
  "list_all wf_obligation bs \<Longrightarrow> jsan_list (map obligation_j bs) = map obligation_j bs"
  "jdepth_list (map obligation_j bs) \<le> Suc (details_depth bs)"
proof (induction bs)
  case (Cons b bs)
  case 3
  then show ?case
    using Cons obligation_j_facts(3) [of b] by (auto simp: details_depth_def simp del: gdepth.simps)
qed (auto simp: obligation_j_facts details_depth_def)

lemma context_j_facts [json_facts]:
  assumes "wf_context c"
  shows "jok (context_j c)" "jsan (context_j c) = context_j c"
    "jdepth (context_j c) \<le> 3 + details_depth (rc_obligations c)"
  using assms token_j_facts obligations_j_facts [of "rc_obligations c"]
    omit_str_facts [of "''reason_code''" "rc_reason c"]
  by (auto simp: context_j_def wf_context_def split: option.splits)

lemma response_j_facts:
  assumes "wf_response r"
  shows "jok (response_j r)" "jsan (response_j r) = response_j r" "jdepth (response_j r) \<le> response_depth r"
  using assms context_j_facts
  by (fastforce simp: response_j_def wf_response_def response_depth_def split: option.splits)+

lemma dec_token_j: "wf_token t \<Longrightarrow> dec_token (token_j t) zero_token = Some t"
  by (simp add: dec_token_def token_j_def dec_struct_def wf_token_def dec_int_j zero_token_def)

lemma dec_obligation_j: "wf_obligation b \<Longrightarrow> dec_obligation (obligation_j b) zero_obligation = Some (norm_obligation b)"
  by (auto simp: dec_obligation_def obligation_j_def dec_struct_def wf_obligation_def dec_fields_omit_map
      zero_obligation_def norm_obligation_def norm_map_def)

lemma dec_obligations_j:
  "list_all wf_obligation bs \<Longrightarrow> dec_obligations [] (map obligation_j bs) = Some (map norm_obligation bs)"
  by (induction bs) (simp_all add: dec_obligation_j)

lemma dec_context_j:
  assumes "wf_context c"
  shows "dec_context (context_j c) zero_context = Some (norm_context c)"
proof -
  have "token_j t \<noteq> JNull" for t by (simp add: token_j_def)
  then show ?thesis
    using assms
    by (cases "rc_token c")
       (auto simp: dec_context_def context_j_def dec_struct_def wf_context_def dec_fields_append
        dec_fields_omit_str dec_ptr_def dec_slice_def dec_obligations_j dec_token_j zero_context_def
        norm_context_def)
qed

lemma dec_response_j:
  assumes "wf_response r"
  shows "dec_response (response_j r) zero_response = Some (norm_response r)"
proof -
  have "context_j c \<noteq> JNull" for c by (simp add: context_j_def)
  then show ?thesis
    using assms
    by (auto simp: dec_response_def response_j_def dec_struct_def wf_response_def dec_bool_def dec_ptr_def
        dec_context_j zero_response_def norm_response_def split: option.splits)
qed

lemma decode_encode_response:
  assumes "wf_response r" and "response_depth r \<le> max_depth"
  shows "decode_response (encode_response r) = Some (norm_response r)"
proof -
  have "json_decode (print_j (response_j r) @ [CHR 0x0A]) = Some (jsan (response_j r))"
    by (rule json_decode_print)
       (use response_j_facts [OF assms(1)] assms(2) in \<open>auto intro: order_trans\<close>)
  then show ?thesis
    using response_j_facts(2) [OF assms(1)] dec_response_j [OF assms(1)]
    by (simp add: decode_response_def encode_response_def)
qed

section \<open>The request as a JSON object\<close>

text \<open>The map a request becomes when it is marshalled and unmarshalled as \<open>map[string]any\<close>.\<close>

definition put_map :: "string \<Rightarrow> mapv \<Rightarrow> gmap \<Rightarrow> gmap" where
  "put_map k m g = (if entries m = [] then g else mput k (VObj (entries m)) g)"

definition put_str :: "string \<Rightarrow> string \<Rightarrow> gmap \<Rightarrow> gmap" where
  "put_str k s g = (if s = [] then g else mput k (VStr s) g)"

definition subject_map :: "subject \<Rightarrow> gmap" where
  "subject_map s =
     put_map ''properties'' (subj_props s)
       (mput ''id'' (VStr (subj_id s)) (mput ''type'' (VStr (subj_type s)) []))"

definition action_map :: "action \<Rightarrow> gmap" where
  "action_map a = put_map ''properties'' (act_props a) (mput ''name'' (VStr (act_name a)) [])"

definition resource_map :: "resource \<Rightarrow> gmap" where
  "resource_map r =
     put_map ''properties'' (res_props r)
       (put_str ''id'' (res_id r) (mput ''type'' (VStr (res_type r)) []))"

definition input_map :: "request \<Rightarrow> gmap" where
  "input_map r =
     put_map ''context'' (req_context r)
       (mput ''resource'' (VObj (resource_map (req_resource r)))
         (mput ''action'' (VObj (action_map (req_action r)))
           (mput ''subject'' (VObj (subject_map (req_subject r))) [])))"

lemma of_jmems_append:
  "of_jmems m (a @ b) = (case of_jmems m a of None \<Rightarrow> None | Some n \<Rightarrow> of_jmems n b)"
  by (induction a arbitrary: m) (auto split: option.splits)

lemma of_jmems_omit [simp]:
  "wf_mapv v \<Longrightarrow> of_jmems m (omit_map k v) = Some (put_map k v m)"
  "of_jmems m (omit_str k s) = Some (put_str k s m)"
  using of_to_j(3) [of "[]" "entries v"] by (auto simp: omit_map_def omit_str_def put_map_def put_str_def)

lemma of_jmems_request: "wf_request r \<Longrightarrow> of_jmems [] (request_mems r) = Some (input_map r)"
  by (simp add: request_mems_def subject_j_def action_j_def resource_j_def of_jmems_append wf_request_def
      input_map_def subject_map_def action_map_def resource_map_def)

lemma unmarshal_request:
  assumes "wf_request r" and "request_depth r \<le> max_depth"
  shows "unmarshal_map (marshal_request r) = Some (Some (input_map r))"
proof -
  have "json_parse (print_j (JObj (request_mems r))) = Some (jsan (JObj (request_mems r)))"
    by (rule json_parse_print)
       (use request_j_facts [OF assms(1)] assms(2) in \<open>auto intro: order_trans\<close>)
  then show ?thesis
    using request_j_facts(2) [OF assms(1)] of_jmems_request [OF assms(1)]
    by (simp add: unmarshal_map_def marshal_request_def dec_map_def)
qed

lemma mget_put [gmap_simps]:
  "mget (put_map k m g) a = (if a = k \<and> entries m \<noteq> [] then Some (VObj (entries m)) else mget g a)"
  "mget (put_str k s g) a = (if a = k \<and> s \<noteq> [] then Some (VStr s) else mget g a)"
  by (simp_all add: put_map_def put_str_def mget_mput)

lemma input_lookup [gmap_simps]:
  "mget (input_map r) ''subject'' = Some (VObj (subject_map (req_subject r)))"
  "mget (input_map r) ''action'' = Some (VObj (action_map (req_action r)))"
  "mget (input_map r) ''resource'' = Some (VObj (resource_map (req_resource r)))"
  "mget (input_map r) ''context'' =
     (if entries (req_context r) = [] then None else Some (VObj (entries (req_context r))))"
  "mget (subject_map s) ''type'' = Some (VStr (subj_type s))"
  "mget (subject_map s) ''id'' = Some (VStr (subj_id s))"
  "mget (subject_map s) ''properties'' =
     (if entries (subj_props s) = [] then None else Some (VObj (entries (subj_props s))))"
  "mget (action_map a) ''name'' = Some (VStr (act_name a))"
  "mget (resource_map e) ''type'' = Some (VStr (res_type e))"
  "mget (resource_map e) ''id'' = (if res_id e = [] then None else Some (VStr (res_id e)))"
  by (simp_all add: input_map_def subject_map_def action_map_def resource_map_def mget_put mget_mput mget_Nil
      del: mput.simps)

text \<open>What the written form forgets (nil against empty maps) cannot be seen in the input.\<close>

lemma input_map_norm [simp]: "input_map (norm_request r) = input_map r"
  by (simp add: input_map_def norm_request_def subject_map_def action_map_def resource_map_def put_map_def)

lemma wf_norm_request [simp]: "wf_request (norm_request r) = wf_request r"
  by (simp add: wf_request_def norm_request_def)

lemma request_depth_norm [simp]: "request_depth (norm_request r) = request_depth r"
  by (simp add: request_depth_def norm_request_def)

lemma validate_norm [simp]: "validate (norm_request r) = validate r"
  by (simp add: validate_def all_issues_def subject_issues_def name_issues_def domain_issues_def
      profile_issues_def authz_profile_def norm_request_def Let_def)

section \<open>Properties\<close>

text \<open>
  C30.  A request survives its JSON form: the strict decoder reads back what \<open>Marshal\<close> wrote,
  up to an empty map becoming nil, and that request has the same validation outcome and the
  same engine input as the original.
\<close>

theorem request_roundtrip:
  assumes "wf_request r" and "request_depth r \<le> max_depth"
  shows "\<exists>r'. decode_request (marshal_request r) = Some r' \<and> r' = norm_request r
     \<and> validate r' = validate r
     \<and> unmarshal_map (marshal_request r') = unmarshal_map (marshal_request r)"
  using decode_marshal_request [OF assms] unmarshal_request [OF assms]
    unmarshal_request [of "norm_request r"] assms by simp

definition plain_request :: request where
  "plain_request = \<lparr>
     req_subject = \<lparr>subj_type = ''user'', subj_id = [quote_chr, bslash],
       subj_props = Some [(''auth_assurance_level'', VStr ''AAL2'')]\<rparr>,
     req_action = \<lparr>act_name = ''wallet:settle'', act_props = Some []\<rparr>,
     req_resource = \<lparr>res_type = ''wallet:account'', res_id = [],
       res_props = Some [(''tags'', VArr [VNull, VBool True, VObj []])]\<rparr>,
     req_context = None\<rparr>"

lemma plain_request_wf: "wf_request plain_request" "request_depth plain_request \<le> max_depth"
  by (auto simp: wf_request_def plain_request_def smap_wf_def ascii_def request_depth_def max_depth_def
      intro!: ascii_valid)

lemma request_roundtrip_witness:
  "\<exists>r'. decode_request (marshal_request plain_request) = Some r' \<and> r' = norm_request plain_request
     \<and> validate r' = validate plain_request
     \<and> unmarshal_map (marshal_request r') = unmarshal_map (marshal_request plain_request)"
  by (rule request_roundtrip [OF plain_request_wf])

text \<open>
  C31.  A response survives the facade's encoder and the client's decoder: the decision, the
  token with its TTL, the reason code and the obligations in their order are those sent, up
  to empty detail maps becoming nil.
\<close>

theorem response_roundtrip:
  assumes "wf_response r" and "response_depth r \<le> max_depth"
  shows "\<exists>r'. decode_response (encode_response r) = Some r' \<and> decision r' = decision r
     \<and> map_option rc_token (resp_context r') = map_option rc_token (resp_context r)
     \<and> map_option rc_reason (resp_context r') = map_option rc_reason (resp_context r)
     \<and> map_option (map ob_type \<circ> rc_obligations) (resp_context r')
         = map_option (map ob_type \<circ> rc_obligations) (resp_context r)
     \<and> map_option (map (entries \<circ> ob_details) \<circ> rc_obligations) (resp_context r')
         = map_option (map (entries \<circ> ob_details) \<circ> rc_obligations) (resp_context r)"
  using decode_encode_response [OF assms]
  by (auto simp: norm_response_def norm_context_def norm_obligation_def option.map_comp comp_def)

definition plain_response :: response where
  "plain_response = \<lparr>decision = True, resp_context = Some \<lparr>
     rc_token = Some \<lparr>tok_value = ''a.b'', tok_ttl = 300\<rparr>,
     rc_obligations = [\<lparr>ob_type = ''log'', ob_details = Some [(''level'', VStr ''info'')]\<rparr>],
     rc_reason = ''ok''\<rparr>\<rparr>"

lemma plain_response_wf: "wf_response plain_response" "response_depth plain_response \<le> max_depth"
  by (auto simp: wf_response_def plain_response_def wf_context_def wf_token_def wf_obligation_def
      smap_wf_def ascii_def in_int64_def response_depth_def details_depth_def max_depth_def
      intro!: ascii_valid)

lemma response_roundtrip_witness:
  "\<exists>r'. decode_response (encode_response plain_response) = Some r' \<and> decision r' = decision plain_response
     \<and> map_option rc_token (resp_context r') = map_option rc_token (resp_context plain_response)
     \<and> map_option rc_reason (resp_context r') = map_option rc_reason (resp_context plain_response)
     \<and> map_option (map ob_type \<circ> rc_obligations) (resp_context r')
         = map_option (map ob_type \<circ> rc_obligations) (resp_context plain_response)
     \<and> map_option (map (entries \<circ> ob_details) \<circ> rc_obligations) (resp_context r')
         = map_option (map (entries \<circ> ob_details) \<circ> rc_obligations) (resp_context plain_response)"
  by (rule response_roundtrip [OF plain_response_wf])

end
