(* ===== verification/Token.thy ===== *)
theory Token
  imports Envelope AuthZen_Json
begin

text \<open>
  Decision tokens (\<open>authz/token/token.go\<close>): the claims and their JSON form, the digest of
  resource properties, and the issuer's \<open>Issue\<close> and \<open>Verify\<close>.  Instants and durations are
  nanosecond counts; the clock reading is an argument.
\<close>

section \<open>Clock\<close>

text \<open>\<open>Time.Unix\<close>, and \<open>int(d.Seconds())\<close> with its two roundings to binary64.\<close>

definition unix :: "int \<Rightarrow> int" where
  "unix t = to_int64 (t div 1000000000)"

definition trunc_float :: "(nat \<times> int) option \<Rightarrow> nat" where
  "trunc_float r =
     (case r of None \<Rightarrow> 0
      | Some (m, e) \<Rightarrow> if 0 \<le> e then m * 2 ^ nat e else m div 2 ^ nat (- e))"

definition dur_seconds :: "int \<Rightarrow> int" where
  "dur_seconds d =
     (let s = nat \<bar>d\<bar> div 1000000000; f = nat \<bar>d\<bar> mod 1000000000;
          v = (if f = 0 then s
               else (case round_quot f 1000000000 of
                       None \<Rightarrow> s
                     | Some (m, e) \<Rightarrow>
                         trunc_float (round_quot (s * 2 ^ nat (- e) + m) (2 ^ nat (- e)))))
      in if d < 0 then - int v else int v)"

lemma dur_seconds_whole [num_simps]: "dur_seconds (s * 1000000000) = s"
proof -
  have "nat \<bar>s * 1000000000\<bar> = nat \<bar>s\<bar> * 1000000000"
    by (simp add: abs_mult nat_mult_distrib)
  then show ?thesis by (auto simp: dur_seconds_def Let_def)
qed

section \<open>Claims\<close>

record claims =
  cl_sub :: string
  cl_act :: string
  cl_res :: string
  cl_aal :: string
  cl_rd :: string
  cl_cid :: string
  cl_iat :: int
  cl_exp :: int

definition zero_claims :: claims where
  "zero_claims = \<lparr>cl_sub = [], cl_act = [], cl_res = [], cl_aal = [], cl_rd = [], cl_cid = [],
     cl_iat = 0, cl_exp = 0\<rparr>"

definition claims_j :: "claims \<Rightarrow> jval" where
  "claims_j c =
     JObj ([(''sub'', JStr (cl_sub c)), (''act'', JStr (cl_act c)), (''res'', JStr (cl_res c)),
            (''aal'', JStr (cl_aal c))]
           @ omit_str ''rd'' (cl_rd c) @ omit_str ''cid'' (cl_cid c)
           @ [(''iat'', int_j (cl_iat c)), (''exp'', int_j (cl_exp c))])"

definition dec_claims :: "jval \<Rightarrow> claims \<Rightarrow> claims option" where
  "dec_claims =
     dec_struct (\<lambda>n v c.
         if n = ''sub'' then map_option (\<lambda>x. c\<lparr>cl_sub := x\<rparr>) (dec_str v (cl_sub c))
         else if n = ''act'' then map_option (\<lambda>x. c\<lparr>cl_act := x\<rparr>) (dec_str v (cl_act c))
         else if n = ''res'' then map_option (\<lambda>x. c\<lparr>cl_res := x\<rparr>) (dec_str v (cl_res c))
         else if n = ''aal'' then map_option (\<lambda>x. c\<lparr>cl_aal := x\<rparr>) (dec_str v (cl_aal c))
         else if n = ''rd'' then map_option (\<lambda>x. c\<lparr>cl_rd := x\<rparr>) (dec_str v (cl_rd c))
         else if n = ''cid'' then map_option (\<lambda>x. c\<lparr>cl_cid := x\<rparr>) (dec_str v (cl_cid c))
         else if n = ''iat'' then map_option (\<lambda>x. c\<lparr>cl_iat := x\<rparr>) (dec_int v (cl_iat c))
         else map_option (\<lambda>x. c\<lparr>cl_exp := x\<rparr>) (dec_int v (cl_exp c)))
       False [''sub'', ''act'', ''res'', ''aal'', ''rd'', ''cid'', ''iat'', ''exp'']"

text \<open>\<open>json.Unmarshal(payload, &c)\<close> into zero claims.\<close>

definition unmarshal_claims :: "string \<Rightarrow> claims option" where
  "unmarshal_claims s = Option.bind (json_parse s) (\<lambda>v. dec_claims v zero_claims)"

text \<open>\<open>ResourceDigest\<close>: maps of this shape always marshal, so its error branch is not taken.\<close>

definition resource_digest :: "mapv \<Rightarrow> string" where
  "resource_digest props = b64_encode (sha256 (marshal_map props))"

section \<open>Issuer\<close>

record issuer =
  is_secret :: string
  is_ttl :: int

definition ttl_seconds :: "issuer \<Rightarrow> int" where
  "ttl_seconds i = dur_seconds (is_ttl i)"

definition stamp :: "issuer \<Rightarrow> int \<Rightarrow> claims \<Rightarrow> claims" where
  "stamp i now c = c\<lparr>cl_iat := unix now, cl_exp := unix (now + is_ttl i)\<rparr>"

definition issue_token :: "issuer \<Rightarrow> int \<Rightarrow> claims \<Rightarrow> string" where
  "issue_token i now c = seal (is_secret i) (print_j (claims_j (stamp i now c)))"

datatype token_error = TokEnvelope envelope_error | TokBadClaims | TokExpired

definition verify_token :: "issuer \<Rightarrow> int \<Rightarrow> string \<Rightarrow> token_error + claims" where
  "verify_token i now tok =
     (case unseal (is_secret i) tok of
        Inl e \<Rightarrow> Inl (TokEnvelope e)
      | Inr payload \<Rightarrow>
          (case unmarshal_claims payload of
             None \<Rightarrow> Inl TokBadClaims
           | Some c \<Rightarrow> if cl_exp c \<le> unix now then Inl TokExpired else Inr c))"

section \<open>Lemmas\<close>

definition wf_claims :: "claims \<Rightarrow> bool" where
  "wf_claims c \<longleftrightarrow>
     valid_utf8 (cl_sub c) \<and> valid_utf8 (cl_act c) \<and> valid_utf8 (cl_res c) \<and> valid_utf8 (cl_aal c)
     \<and> valid_utf8 (cl_rd c) \<and> valid_utf8 (cl_cid c)"

lemma claim_names_valid [simp]:
  "valid_utf8 ''sub''" "valid_utf8 ''act''" "valid_utf8 ''res''" "valid_utf8 ''aal''"
  "valid_utf8 ''rd''" "valid_utf8 ''cid''" "valid_utf8 ''iat''" "valid_utf8 ''exp''"
  by (auto intro!: ascii_valid simp: ascii_def)

lemma unix_in_range [num_simps, simp]: "in_int64 (unix t)"
  by (simp add: unix_def to_int64_range)

lemma wf_stamp [simp]: "wf_claims (stamp i now c) = wf_claims c"
  by (simp add: wf_claims_def stamp_def)

lemma claims_j_facts [json_facts]:
  "wf_claims c \<Longrightarrow> jok (claims_j c)" "wf_claims c \<Longrightarrow> jsan (claims_j c) = claims_j c"
  "jdepth (claims_j c) = 1"
  by (simp_all add: claims_j_def wf_claims_def int_j_def show_int_lit omit_str_facts)

lemma dec_claims_j:
  "in_int64 (cl_iat c) \<Longrightarrow> in_int64 (cl_exp c) \<Longrightarrow> dec_claims (claims_j c) zero_claims = Some c"
  by (auto simp: dec_claims_def claims_j_def dec_struct_def dec_fields_append dec_fields_omit_str
      dec_int_j zero_claims_def)

lemma unmarshal_claims_j:
  assumes "wf_claims c" "in_int64 (cl_iat c)" "in_int64 (cl_exp c)"
  shows "unmarshal_claims (print_j (claims_j c)) = Some c"
  using json_parse_print [of "claims_j c"] claims_j_facts(1,2) [OF assms(1)] claims_j_facts(3) [of c]
    dec_claims_j [OF assms(2,3)]
  by (simp add: unmarshal_claims_def max_depth_def)

lemma unmarshal_stamped:
  "wf_claims c \<Longrightarrow> unmarshal_claims (print_j (claims_j (stamp i now c))) = Some (stamp i now c)"
  by (rule unmarshal_claims_j) (simp_all, simp_all add: stamp_def)

lemma b64_ascii: "ascii (b64_encode s)"
  using b64_encode_chars [of _ s] by (auto simp: ascii_def list_all_iff)

lemma digest_valid [simp]: "valid_utf8 (resource_digest m)"
  by (simp add: resource_digest_def b64_ascii ascii_valid)

text \<open>Verifying an issued token, at any instant and with any secret.\<close>

lemma verify_issued:
  assumes "wf_claims c"
  shows "verify_token i now' (issue_token i now c) =
     (if unix (now + is_ttl i) \<le> unix now' then Inl TokExpired else Inr (stamp i now c))"
  using assms by (simp add: verify_token_def issue_token_def unmarshal_stamped) (simp add: stamp_def)

lemma verify_InrD:
  assumes "verify_token i now tok = Inr c"
  shows "unix now < cl_exp c"
    "\<exists>payload. unseal (is_secret i) tok = Inr payload \<and> unmarshal_claims payload = Some c"
  using assms by (auto simp: verify_token_def split: sum.splits option.splits if_splits)

text \<open>Instants whose Unix seconds fit an \<open>int64\<close>.\<close>

definition clock_ok :: "int \<Rightarrow> bool" where
  "clock_ok t \<longleftrightarrow> in_int64 (t div 1000000000)"

lemma unix_id [num_simps]: "clock_ok t \<Longrightarrow> unix t = t div 1000000000"
  by (simp add: clock_ok_def unix_def to_int64_id)

lemma marshal_map_inj:
  assumes "wf_map m" "wf_map n" "gdepth (VObj m) \<le> max_depth" "gdepth (VObj n) \<le> max_depth"
    and "marshal_map (Some m) = marshal_map (Some n)"
  shows "m = n"
proof -
  have "Some (Some m) = (Some (Some n) :: mapv option)"
    using assms unmarshal_marshal_map [of m] unmarshal_marshal_map [of n] by metis
  then show ?thesis by simp
qed

section \<open>Properties\<close>

text \<open>
  C16.  A token issued at \<open>t\<close> is accepted, with the claims it was issued for stamped with its
  issue and expiry times, at every instant up to one second before \<open>t\<close> plus the TTL, and is
  refused as expired at every instant from \<open>t\<close> plus the TTL on.
\<close>

theorem token_lifetime:
  assumes "wf_claims c" and "clock_ok t'" and "clock_ok (t + is_ttl i)"
  shows "(t' + 1000000000 \<le> t + is_ttl i \<longrightarrow>
            verify_token i t' (issue_token i t c)
              = Inr (c\<lparr>cl_iat := unix t, cl_exp := unix (t + is_ttl i)\<rparr>))
       \<and> (t + is_ttl i \<le> t' \<longrightarrow> verify_token i t' (issue_token i t c) = Inl TokExpired)"
proof -
  have "t' div 1000000000 < (t + is_ttl i) div 1000000000" if "t' + 1000000000 \<le> t + is_ttl i"
    using that zdiv_mono1 [of "t' + 1000000000" "t + is_ttl i" 1000000000] by simp
  moreover have "(t + is_ttl i) div 1000000000 \<le> t' div 1000000000" if "t + is_ttl i \<le> t'"
    using that by (rule zdiv_mono1) simp
  ultimately show ?thesis
    using assms by (auto simp: verify_issued unix_id [of t'] unix_id [of "t + is_ttl i"] stamp_def)
qed

definition sample_claims :: claims where
  "sample_claims = \<lparr>cl_sub = ''u-1'', cl_act = ''wallet:settle'', cl_res = ''wallet:account/a-9'',
     cl_aal = ''AAL3'', cl_rd = [], cl_cid = ''corr-1'', cl_iat = 0, cl_exp = 0\<rparr>"

definition sample_issuer :: issuer where
  "sample_issuer = \<lparr>is_secret = ''dev-secret'', is_ttl = 300000000000\<rparr>"

lemma sample_claims_wf: "wf_claims sample_claims"
  by (auto simp: wf_claims_def sample_claims_def ascii_def intro!: ascii_valid)

lemma token_lifetime_witness:
  "verify_token sample_issuer 1700000299000000000 (issue_token sample_issuer 1700000000000000000 sample_claims)
     = Inr (sample_claims\<lparr>cl_iat := unix 1700000000000000000,
                          cl_exp := unix (1700000000000000000 + is_ttl sample_issuer)\<rparr>)
   \<and> verify_token sample_issuer 1700000300000000000 (issue_token sample_issuer 1700000000000000000 sample_claims)
     = Inl TokExpired"
proof -
  have t: "is_ttl sample_issuer = 300000000000" by (simp add: sample_issuer_def)
  have c: "clock_ok 1700000299000000000" "clock_ok 1700000300000000000"
    by (simp_all add: clock_ok_def in_int64_def)
  show ?thesis
    using token_lifetime [OF sample_claims_wf c(1), of 1700000000000000000 sample_issuer]
      token_lifetime [OF sample_claims_wf c(2), of 1700000000000000000 sample_issuer] c(2)
    by (simp add: t)
qed

text \<open>
  C17.  Only an authentic, unexpired token is accepted: its signature part decodes to the HMAC
  of its body under the issuer's secret, the claims returned are those of the body, and their
  expiry is still ahead.
\<close>

theorem token_authentic:
  assumes "verify_token i now tok = Inr c"
  shows "\<exists>body sig payload. tok = body @ ''.'' @ sig \<and> CHR ''.'' \<notin> set body
           \<and> b64_decode sig = Some (hmac_sha256 (is_secret i) body)
           \<and> b64_decode body = Some payload \<and> unmarshal_claims payload = Some c
           \<and> unix now < cl_exp c"
  using verify_InrD [OF assms] unseal_authentic by metis

lemma sample_accepted:
  "verify_token sample_issuer 0 (issue_token sample_issuer 0 sample_claims)
     = Inr (stamp sample_issuer 0 sample_claims)"
  using sample_claims_wf by (simp add: verify_issued sample_issuer_def unix_def to_int64_def)

lemma token_authentic_witness:
  "\<exists>body sig payload. issue_token sample_issuer 0 sample_claims = body @ ''.'' @ sig \<and> CHR ''.'' \<notin> set body
     \<and> b64_decode sig = Some (hmac_sha256 (is_secret sample_issuer) body)
     \<and> b64_decode body = Some payload
     \<and> unmarshal_claims payload = Some (stamp sample_issuer 0 sample_claims)
     \<and> unix 0 < cl_exp (stamp sample_issuer 0 sample_claims)"
  by (rule token_authentic [OF sample_accepted])

text \<open>
  A digest binds the properties it was made for: two property maps have the same digest
  only if they are the same map or their JSON texts are a SHA-256 collision.
\<close>

theorem digest_binding:
  assumes "wf_map m" "wf_map n" "gdepth (VObj m) \<le> max_depth" "gdepth (VObj n) \<le> max_depth"
    and "resource_digest (Some m) = resource_digest (Some n)"
  shows "m = n \<or> (marshal_map (Some m) \<noteq> marshal_map (Some n)
                   \<and> sha256 (marshal_map (Some m)) = sha256 (marshal_map (Some n)))"
proof -
  have "Some (sha256 (marshal_map (Some m))) = Some (sha256 (marshal_map (Some n)))"
    using assms(5) b64_roundtrip unfolding resource_digest_def by metis
  then show ?thesis using marshal_map_inj [OF assms(1-4)] by auto
qed

lemma digest_binding_witness:
  "resource_digest (Some [(''currency'', VStr ''VND'')]) = resource_digest (Some [(''currency'', VStr ''VND'')])
   \<and> ([(''currency'', VStr ''VND'')] = [(''currency'', VStr ''VND'')]
      \<or> (marshal_map (Some [(''currency'', VStr ''VND'')]) \<noteq> marshal_map (Some [(''currency'', VStr ''VND'')])
         \<and> sha256 (marshal_map (Some [(''currency'', VStr ''VND'')]))
           = sha256 (marshal_map (Some [(''currency'', VStr ''VND'')]))))"
proof -
  let ?m = "[(''currency'', VStr ''VND'')] :: gmap"
  have "wf_map ?m" by (auto simp: smap_wf_def ascii_def intro!: ascii_valid)
  then show ?thesis using digest_binding [of ?m ?m] by (simp add: max_depth_def)
qed

end
