(* ===== verification/Engine.thy ===== *)
theory Engine
  imports AuthZen_Json
begin

text \<open>
  Decision engines (\<open>authz/engine/opa.go\<close>, \<open>authz/engine/bundle.go\<close>): the decision they
  produce, the OPA engine around a prepared query, and the contract a PDP relies on, the
  locale \<open>decision_engine\<close>.  OPA itself (compiling modules, reading bundles, evaluating a
  prepared query) is an argument.
\<close>

record edecision =
  ed_allow :: bool
  ed_obligations :: "gmap list"
  ed_reason :: string

definition zero_edecision :: edecision where
  "zero_edecision = \<lparr>ed_allow = False, ed_obligations = [], ed_reason = []\<rparr>"

datatype 'err engine_error =
    EvalFailed 'err
  | BadDocument gval
  | CheckRequest 'err
  | CheckStatus nat
  | CheckDecode

section \<open>The contract of an engine\<close>

text \<open>
  \<open>grants v\<close> is what the engine's back end says of the input \<open>v\<close>: the engine allows exactly
  what it grants, and answers anything else with a denial or an error.
\<close>

locale decision_engine =
  fixes eval :: "gval \<Rightarrow> 'e + edecision" and grants :: "gval \<Rightarrow> bool"
  assumes sound: "eval v = Inr d \<Longrightarrow> ed_allow d \<Longrightarrow> grants v"
    and complete: "grants v \<Longrightarrow> \<exists>d. eval v = Inr d \<and> ed_allow d"
begin

definition permits :: "gval \<Rightarrow> bool" where
  "permits v = (case eval v of Inl _ \<Rightarrow> False | Inr d \<Rightarrow> ed_allow d)"

lemma permits_iff: "permits v \<longleftrightarrow> grants v"
  by (cases "eval v") (use sound [of v] complete [of v] in \<open>auto simp: permits_def\<close>)

lemma error_refused: "eval v = Inl e \<Longrightarrow> \<not> grants v"
  using complete [of v] by auto

end

section \<open>OPA\<close>

definition DefaultDecisionQuery :: string where
  "DefaultDecisionQuery = ''data.vsp.authz.decision''"

text \<open>\<open>New\<close>: \<open>prepare\<close> compiles the modules over the data for a query.\<close>

definition new_engine ::
  "(string \<Rightarrow> gmap \<Rightarrow> string smap \<Rightarrow> 'err + 'q) \<Rightarrow> string smap \<Rightarrow> gmap \<Rightarrow> string \<Rightarrow> (string \<times> 'err) + 'q"
where
  "new_engine prepare modules data queryPath =
     (let q = (if queryPath = [] then DefaultDecisionQuery else queryPath) in
      case prepare q data modules of Inl e \<Rightarrow> Inl (q, e) | Inr pq \<Rightarrow> Inr pq)"

text \<open>\<open>NewFromBundle\<close>: \<open>read_bundle\<close> gives the modules (path and source) and the data.\<close>

datatype 'err bundle_error = BundleRead 'err | BundleEmpty | BundlePrepare string 'err

definition engine_from_bundle ::
  "(string \<Rightarrow> 'err + (string \<times> string) list \<times> gmap) \<Rightarrow> (string \<Rightarrow> gmap \<Rightarrow> string smap \<Rightarrow> 'err + 'q)
     \<Rightarrow> string \<Rightarrow> string \<Rightarrow> 'err bundle_error + 'q"
where
  "engine_from_bundle read_bundle prepare tarball queryPath =
     (case read_bundle tarball of
        Inl e \<Rightarrow> Inl (BundleRead e)
      | Inr (mods, data) \<Rightarrow>
          (let modules = foldl (\<lambda>acc (p, src). mput p src acc) [] mods in
           if modules = [] then Inl BundleEmpty
           else (case new_engine prepare modules data queryPath of
                   Inl (q, e) \<Rightarrow> Inl (BundlePrepare q e)
                 | Inr pq \<Rightarrow> Inr pq)))"

definition parse_decision :: "gmap \<Rightarrow> edecision" where
  "parse_decision val =
     \<lparr>ed_allow = (case get_bool val ''allow'' of Some b \<Rightarrow> b | None \<Rightarrow> False),
      ed_obligations = (case get_arr val ''obligations'' of Some vs \<Rightarrow> List.map_filter as_map vs | None \<Rightarrow> []),
      ed_reason = str_or_empty (get_str val ''reason_code'')\<rparr>"

text \<open>
  A prepared query maps the input to its result set: for each result, the values of its
  expressions.
\<close>

type_synonym 'err prepared = "gval \<Rightarrow> 'err + gval list list"

definition eval_opa :: "'err prepared \<Rightarrow> gval \<Rightarrow> 'err engine_error + edecision" where
  "eval_opa query input =
     (case query input of
        Inl e \<Rightarrow> Inl (EvalFailed e)
      | Inr rs \<Rightarrow>
          (case rs of
             (v # _) # _ \<Rightarrow>
               (case as_map v of
                  None \<Rightarrow> Inl (BadDocument v)
                | Some val \<Rightarrow> Inr (parse_decision val))
           | _ \<Rightarrow> Inr (zero_edecision\<lparr>ed_reason := ''policy_undefined''\<rparr>)))"

text \<open>The decision document grants if it is an object whose \<open>allow\<close> is the boolean true.\<close>

definition opa_grants :: "'err prepared \<Rightarrow> gval \<Rightarrow> bool" where
  "opa_grants query input =
     (case query input of
        Inr ((VObj val # _) # _) \<Rightarrow> mget val ''allow'' = Some (VBool True)
      | _ \<Rightarrow> False)"

lemma as_bool_iff: "as_bool v = Some b \<longleftrightarrow> v = VBool b"
  by (cases v) auto

lemma as_str_iff: "as_str v = Some s \<longleftrightarrow> v = VStr s"
  by (cases v) auto

lemma as_map_iff: "as_map v = Some m \<longleftrightarrow> v = VObj m"
  by (cases v) auto

lemma as_map_None: "as_map v = None \<longleftrightarrow> (\<forall>m. v \<noteq> VObj m)"
  by (cases v) auto

lemma parse_decision_allow:
  "ed_allow (parse_decision val) \<longleftrightarrow> mget val ''allow'' = Some (VBool True)"
  by (auto simp: parse_decision_def get_bool_def as_bool_iff bind_eq_Some_conv split: option.splits)

lemma eval_opa_allow:
  "(\<exists>d. eval_opa q v = Inr d \<and> ed_allow d) \<longleftrightarrow> opa_grants q v"
proof -
  consider e where "q v = Inl e" | "q v = Inr []" | rs where "q v = Inr ([] # rs)"
    | x xs rs where "q v = Inr ((x # xs) # rs)"
    by (cases "q v") (metis list.exhaust)+
  then show ?thesis
  proof cases
    case 4
    then show ?thesis
      by (cases x) (auto simp: eval_opa_def opa_grants_def parse_decision_allow)
  qed (auto simp: eval_opa_def opa_grants_def zero_edecision_def)
qed

interpretation opa: decision_engine "eval_opa q" "opa_grants q" for q :: "'err prepared"
proof
  show "opa_grants q v" if "eval_opa q v = Inr d" "ed_allow d" for v d
    using that eval_opa_allow by blast
  show "\<exists>d. eval_opa q v = Inr d \<and> ed_allow d" if "opa_grants q v" for v
    using that by (simp add: eval_opa_allow)
qed

section \<open>Properties\<close>

text \<open>
  C26.  The OPA engine fails closed: it allows exactly if the query's first value is a
  decision object whose \<open>allow\<close> is the boolean true.  An undefined document is a denial with
  the reason \<open>policy_undefined\<close>, and a document of another type is an error, never an allow.
\<close>

theorem opa_fail_closed:
  "((\<exists>d. eval_opa q v = Inr d \<and> ed_allow d) \<longleftrightarrow>
      (\<exists>val vs rs. q v = Inr ((VObj val # vs) # rs) \<and> mget val ''allow'' = Some (VBool True)))
   \<and> (q v \<in> {Inr []} \<union> range (\<lambda>rs. Inr ([] # rs)) \<longrightarrow>
        eval_opa q v = Inr \<lparr>ed_allow = False, ed_obligations = [], ed_reason = ''policy_undefined''\<rparr>)
   \<and> (\<forall>x xs rs. q v = Inr ((x # xs) # rs) \<and> as_map x = None \<longrightarrow> eval_opa q v = Inl (BadDocument x))"
proof -
  have "opa_grants q v \<longleftrightarrow>
      (\<exists>val vs rs. q v = Inr ((VObj val # vs) # rs) \<and> mget val ''allow'' = Some (VBool True))"
    by (auto simp: opa_grants_def split: sum.splits list.splits gval.splits)
  then show ?thesis
    using eval_opa_allow [of q v] by (auto simp: eval_opa_def zero_edecision_def)
qed

lemma opa_fail_closed_witness:
  "(\<exists>d. eval_opa (\<lambda>_. Inr [[VObj [(''allow'', VBool True)]]] :: unit + gval list list) VNull = Inr d \<and> ed_allow d)
   \<and> eval_opa (\<lambda>_. Inr [] :: unit + gval list list) VNull
       = Inr \<lparr>ed_allow = False, ed_obligations = [], ed_reason = ''policy_undefined''\<rparr>
   \<and> eval_opa (\<lambda>_. Inr [[VBool True]] :: unit + gval list list) VNull = Inl (BadDocument (VBool True))"
proof (intro conjI)
  show "\<exists>d. eval_opa (\<lambda>_. Inr [[VObj [(''allow'', VBool True)]]] :: unit + gval list list) VNull = Inr d \<and> ed_allow d"
    using opa_fail_closed [of "\<lambda>_. Inr [[VObj [(''allow'', VBool True)]]] :: unit + gval list list" VNull]
    by (simp add: mget_def)
  show "eval_opa (\<lambda>_. Inr [] :: unit + gval list list) VNull
       = Inr \<lparr>ed_allow = False, ed_obligations = [], ed_reason = ''policy_undefined''\<rparr>"
    using opa_fail_closed [of "\<lambda>_. Inr [] :: unit + gval list list" VNull] by simp
  show "eval_opa (\<lambda>_. Inr [[VBool True]] :: unit + gval list list) VNull = Inl (BadDocument (VBool True))"
    using opa_fail_closed [of "\<lambda>_. Inr [[VBool True]] :: unit + gval list list" VNull] by simp
qed

end
