(* ===== verification/Rebac.thy ===== *)
theory Rebac
  imports Engine
begin

text \<open>
  The relationship-based engine (\<open>authz/rebac/rebac.go\<close>): the AuthZEN tuple is mapped onto an
  OpenFGA check, sent over HTTP.  The exchange with the OpenFGA server is the argument
  \<open>send\<close>: from a URL and a request body to a transport error, or a status and a body.
\<close>

record rebac_config =
  fga_endpoint :: string
  fga_store :: string
  fga_model :: string

type_synonym 'err exchange = "string \<Rightarrow> string \<Rightarrow> 'err + nat \<times> string"

definition nested :: "gmap \<Rightarrow> string \<Rightarrow> string \<Rightarrow> string" where
  "nested m a b =
     (case get_map m a of None \<Rightarrow> [] | Some s \<Rightarrow> str_or_empty (get_str s b))"

definition relation_for :: "string \<Rightarrow> string" where
  "relation_for act =
     (case cut_byte CHR '':'' act of
        None \<Rightarrow> []
      | Some (d, verb) \<Rightarrow> if verb = [] then [] else ''can_'' @ verb)"

definition object_for :: "string \<Rightarrow> string \<Rightarrow> string" where
  "object_for rtype i =
     (case cut_byte CHR '':'' rtype of
        None \<Rightarrow> []
      | Some (d, entity) \<Rightarrow> if entity = [] \<or> i = [] then [] else entity @ '':'' @ i)"

definition tuple_j :: "string \<Rightarrow> string \<Rightarrow> string \<Rightarrow> jval" where
  "tuple_j user relation object =
     JObj [(''user'', JStr user), (''relation'', JStr relation), (''object'', JStr object)]"

definition check_body :: "string \<Rightarrow> string \<Rightarrow> string \<Rightarrow> string \<Rightarrow> string" where
  "check_body model user relation object =
     print_j (JObj ((''tuple_key'', tuple_j user relation object) # omit_str ''authorization_model_id'' model))"

definition check_url :: "rebac_config \<Rightarrow> string" where
  "check_url cfg = fga_endpoint cfg @ ''/stores/'' @ fga_store cfg @ ''/check''"

definition decode_allowed :: "string \<Rightarrow> bool option" where
  "decode_allowed s =
     Option.bind (json_decode s) (\<lambda>v. dec_struct (\<lambda>n v b. dec_bool v b) False [''allowed''] v False)"

definition check_rel ::
  "'err exchange \<Rightarrow> rebac_config \<Rightarrow> string \<Rightarrow> string \<Rightarrow> string \<Rightarrow> 'err engine_error + bool"
where
  "check_rel send cfg user relation object =
     (case send (check_url cfg) (check_body (fga_model cfg) user relation object) of
        Inl e \<Rightarrow> Inl (CheckRequest e)
      | Inr (st, body) \<Rightarrow>
          if st \<noteq> 200 then Inl (CheckStatus st)
          else (case decode_allowed body of None \<Rightarrow> Inl CheckDecode | Some b \<Rightarrow> Inr b))"

definition eval_rebac :: "'err exchange \<Rightarrow> rebac_config \<Rightarrow> gval \<Rightarrow> 'err engine_error + edecision" where
  "eval_rebac send cfg input =
     (case as_map input of
        None \<Rightarrow> Inr (zero_edecision\<lparr>ed_reason := ''rebac_bad_input''\<rparr>)
      | Some m \<Rightarrow>
          (let user = ''user:'' @ nested m ''subject'' ''id'';
               relation = relation_for (nested m ''action'' ''name'');
               object = object_for (nested m ''resource'' ''type'') (nested m ''resource'' ''id'')
           in if relation = [] \<or> object = [] \<or> user = ''user:''
              then Inr (zero_edecision\<lparr>ed_reason := ''rebac_unmapped_request''\<rparr>)
              else (case check_rel send cfg user relation object of
                      Inl e \<Rightarrow> Inl e
                    | Inr allowed \<Rightarrow>
                        if allowed
                        then Inr \<lparr>ed_allow = True, ed_obligations = [], ed_reason = ''rebac_relationship_ok''\<rparr>
                        else Inr \<lparr>ed_allow = False, ed_obligations = [], ed_reason = ''rebac_no_relationship''\<rparr>)))"

text \<open>The tuple an input names, if it names one, and what OpenFGA says of it.\<close>

definition fga_tuple :: "gval \<Rightarrow> (string \<times> string \<times> string) option" where
  "fga_tuple v =
     (case as_map v of
        None \<Rightarrow> None
      | Some m \<Rightarrow>
          (let uid = nested m ''subject'' ''id'';
               rel = relation_for (nested m ''action'' ''name'');
               obj = object_for (nested m ''resource'' ''type'') (nested m ''resource'' ''id'')
           in if uid = [] \<or> rel = [] \<or> obj = [] then None else Some (''user:'' @ uid, rel, obj)))"

definition fga_grants :: "'err exchange \<Rightarrow> rebac_config \<Rightarrow> gval \<Rightarrow> bool" where
  "fga_grants send cfg v =
     (case fga_tuple v of None \<Rightarrow> False | Some (u, rel, obj) \<Rightarrow> check_rel send cfg u rel obj = Inr True)"

lemma eval_rebac_tuple:
  "eval_rebac send cfg v =
     (case fga_tuple v of
        None \<Rightarrow> Inr (zero_edecision\<lparr>ed_reason :=
                  (if as_map v = None then ''rebac_bad_input'' else ''rebac_unmapped_request'')\<rparr>)
      | Some (u, rel, obj) \<Rightarrow>
          map_sum id (\<lambda>b. \<lparr>ed_allow = b, ed_obligations = [],
                          ed_reason = (if b then ''rebac_relationship_ok'' else ''rebac_no_relationship'')\<rparr>)
            (check_rel send cfg u rel obj))"
  by (simp add: eval_rebac_def fga_tuple_def Let_def split: option.split sum.split)

interpretation fga: decision_engine "eval_rebac send cfg" "fga_grants send cfg"
  for send :: "'err exchange" and cfg :: rebac_config
proof
  show "fga_grants send cfg v" if "eval_rebac send cfg v = Inr d" "ed_allow d" for v d
  proof (cases "fga_tuple v")
    case None
    then show ?thesis using that by (auto simp: eval_rebac_tuple zero_edecision_def)
  next
    case (Some t)
    obtain u rel obj where "t = (u, rel, obj)" by (cases t)
    then show ?thesis using that Some
      by (cases "check_rel send cfg u rel obj") (auto simp: eval_rebac_tuple fga_grants_def)
  qed
  show "\<exists>d. eval_rebac send cfg v = Inr d \<and> ed_allow d" if "fga_grants send cfg v" for v
    using that by (auto simp: fga_grants_def eval_rebac_tuple split: option.splits prod.splits)
qed

text \<open>The tuple of a request that satisfies the contract.\<close>

lemma nested_input [simp]:
  "nested (input_map r) ''subject'' ''id'' = subj_id (req_subject r)"
  "nested (input_map r) ''action'' ''name'' = act_name (req_action r)"
  "nested (input_map r) ''resource'' ''type'' = res_type (req_resource r)"
  "nested (input_map r) ''resource'' ''id'' = res_id (req_resource r)"
  by (simp_all add: nested_def get_map_def get_str_def input_lookup)

lemma relation_for_named: "named a d x \<Longrightarrow> relation_for a = ''can_'' @ x"
  using name_token_no_colon [of d]
  by (auto simp: relation_for_def named_def cut_byte_append name_token_def split: list.splits)

lemma object_for_named: "named t d e \<Longrightarrow> object_for t i = (if i = [] then [] else e @ '':'' @ i)"
  using name_token_no_colon [of d]
  by (auto simp: object_for_def named_def cut_byte_append name_token_def split: list.splits)

lemma fga_names_valid [simp]:
  "valid_utf8 ''user''" "valid_utf8 ''relation''" "valid_utf8 ''object''" "valid_utf8 ''tuple_key''"
  "valid_utf8 ''authorization_model_id''"
  by (auto intro!: ascii_valid simp: ascii_def)

section \<open>Properties\<close>

text \<open>
  C27.  A request that satisfies the contract and names a resource is decided by one check:
  \<open>user:<id>\<close>, \<open>can_<verb>\<close>, \<open><entity>:<resource id>\<close> for the action \<open><domain>:<verb>\<close> and the
  resource type \<open><domain>:<entity>\<close>; one without a resource id is denied without a check.
\<close>

theorem rebac_mapping:
  assumes "conforms r"
  shows "\<exists>d verb entity. named (act_name (req_action r)) d verb \<and> named (res_type (req_resource r)) d entity
     \<and> eval_rebac send cfg (VObj (input_map r)) =
         (if res_id (req_resource r) = []
          then Inr \<lparr>ed_allow = False, ed_obligations = [], ed_reason = ''rebac_unmapped_request''\<rparr>
          else case check_rel send cfg (''user:'' @ subj_id (req_subject r)) (''can_'' @ verb)
                      (entity @ '':'' @ res_id (req_resource r)) of
                 Inl err \<Rightarrow> Inl err
               | Inr True \<Rightarrow> Inr \<lparr>ed_allow = True, ed_obligations = [], ed_reason = ''rebac_relationship_ok''\<rparr>
               | Inr False \<Rightarrow> Inr \<lparr>ed_allow = False, ed_obligations = [], ed_reason = ''rebac_no_relationship''\<rparr>)"
proof -
  obtain d verb entity where n: "named (act_name (req_action r)) d verb" "named (res_type (req_resource r)) d entity"
    and "subj_id (req_subject r) \<noteq> []"
    using assms by (auto simp: conforms_def)
  then show ?thesis
    using relation_for_named [OF n(1)] object_for_named [OF n(2), of "res_id (req_resource r)"]
    by (intro exI [of _ d] exI [of _ verb] exI [of _ entity])
       (auto simp: eval_rebac_tuple fga_tuple_def zero_edecision_def split: sum.splits bool.splits)
qed

definition sample_request :: request where
  "sample_request = \<lparr>
     req_subject = \<lparr>subj_type = ''user'', subj_id = ''u-1'',
       subj_props = Some [(''auth_assurance_level'', VStr ''AAL2'')]\<rparr>,
     req_action = \<lparr>act_name = ''wallet:settle'', act_props = None\<rparr>,
     req_resource = \<lparr>res_type = ''wallet:account'', res_id = ''acc-1'', res_props = None\<rparr>,
     req_context = Some [(''authz_profile'', VStr ''edge''), (''correlation_id'', VStr ''c-1'')]\<rparr>"

lemma sample_request_conforms: "conforms sample_request"
proof -
  have "all_issues sample_request = []" by code_simp
  then show ?thesis by (simp add: all_issues_Nil)
qed

definition sample_fga :: "unit exchange" where
  "sample_fga url body = Inr (200, ''{'' @ [quote_chr] @ ''allowed'' @ [quote_chr] @ '':true}'')"

lemma rebac_mapping_witness:
  "let r = sample_request; cfg = \<lparr>fga_endpoint = ''http://fga'', fga_store = ''s'', fga_model = []\<rparr> in
   \<exists>d verb entity. named (act_name (req_action r)) d verb \<and> named (res_type (req_resource r)) d entity
     \<and> eval_rebac sample_fga cfg (VObj (input_map r)) =
         (if res_id (req_resource r) = []
          then Inr \<lparr>ed_allow = False, ed_obligations = [], ed_reason = ''rebac_unmapped_request''\<rparr>
          else case check_rel sample_fga cfg (''user:'' @ subj_id (req_subject r)) (''can_'' @ verb)
                      (entity @ '':'' @ res_id (req_resource r)) of
                 Inl err \<Rightarrow> Inl err
               | Inr True \<Rightarrow> Inr \<lparr>ed_allow = True, ed_obligations = [], ed_reason = ''rebac_relationship_ok''\<rparr>
               | Inr False \<Rightarrow> Inr \<lparr>ed_allow = False, ed_obligations = [], ed_reason = ''rebac_no_relationship''\<rparr>)"
  unfolding Let_def by (rule rebac_mapping [OF sample_request_conforms])

text \<open>
  The check fails closed: the engine allows only if the input names a subject, an action
  verb and a resource, and OpenFGA answered 200 with a document whose \<open>allowed\<close> is true.  A
  transport error, another status or an undecodable document is an error.
\<close>

theorem rebac_fail_closed:
  "(\<exists>d. eval_rebac send cfg v = Inr d \<and> ed_allow d) \<longleftrightarrow>
     (\<exists>u rel obj body. fga_tuple v = Some (u, rel, obj)
        \<and> send (check_url cfg) (check_body (fga_model cfg) u rel obj) = Inr (200, body)
        \<and> decode_allowed body = Some True)"
proof -
  have "(\<exists>d. eval_rebac send cfg v = Inr d \<and> ed_allow d) \<longleftrightarrow> fga_grants send cfg v"
    using fga.sound fga.complete by blast
  also have "\<dots> \<longleftrightarrow> (\<exists>u rel obj body. fga_tuple v = Some (u, rel, obj)
        \<and> send (check_url cfg) (check_body (fga_model cfg) u rel obj) = Inr (200, body)
        \<and> decode_allowed body = Some True)"
    by (auto simp: fga_grants_def check_rel_def split: option.splits sum.splits prod.splits)
  finally show ?thesis .
qed

text \<open>
  The tuple reaches OpenFGA intact: whatever bytes of valid UTF-8 the identifiers hold,
  the body of the check parses back to exactly the user, relation and object it was made for.
\<close>

theorem check_body_roundtrip:
  assumes "valid_utf8 u" "valid_utf8 rel" "valid_utf8 obj" "valid_utf8 model"
  shows "\<exists>m t. unmarshal_map (check_body model u rel obj) = Some (Some m)
     \<and> get_map m ''tuple_key'' = Some t
     \<and> get_str t ''user'' = Some u \<and> get_str t ''relation'' = Some rel \<and> get_str t ''object'' = Some obj
     \<and> get_str m ''authorization_model_id'' = (if model = [] then None else Some model)"
proof -
  let ?j = "JObj ((''tuple_key'', tuple_j u rel obj) # omit_str ''authorization_model_id'' model)"
  let ?t = "mput ''object'' (VStr obj) (mput ''relation'' (VStr rel) (mput ''user'' (VStr u) []))"
  have "json_parse (print_j ?j) = Some (jsan ?j)"
    by (rule json_parse_print) (use assms in \<open>simp_all add: omit_str_facts tuple_j_def max_depth_def\<close>)
  moreover have "jsan ?j = ?j" using assms by (simp add: omit_str_facts tuple_j_def)
  ultimately have "unmarshal_map (check_body model u rel obj)
      = Some (Some (put_str ''authorization_model_id'' model (mput ''tuple_key'' (VObj ?t) [])))"
    by (simp add: unmarshal_map_def check_body_def dec_map_def tuple_j_def del: mput.simps)
  then show ?thesis
    by (auto simp: get_map_def get_str_def mget_mput mget_put mget_Nil simp del: mput.simps)
qed

lemma check_body_roundtrip_witness:
  "\<exists>m t. unmarshal_map (check_body [] [quote_chr] ''can_settle'' ''account:acc-1'') = Some (Some m)
     \<and> get_map m ''tuple_key'' = Some t
     \<and> get_str t ''user'' = Some [quote_chr] \<and> get_str t ''relation'' = Some ''can_settle''
     \<and> get_str t ''object'' = Some ''account:acc-1''
     \<and> get_str m ''authorization_model_id'' = (if [] = ([]::string) then None else Some [])"
  by (rule check_body_roundtrip) (auto intro!: ascii_valid simp: ascii_def)

end
