(* ===== verification/Pdp.thy ===== *)
theory Pdp
  imports Token Rebac
begin

text \<open>
  The policy decision point (\<open>authz/pdp/pdp.go\<close>): validation, the conversion of the request
  to the engine's input, the engine call, and the assembly of the response with its decision
  token and obligations.  The engine is any \<open>decision_engine\<close>; the lemmas about the whole
  pipeline are proved against that contract and used at OPA and at the ReBAC engine.
\<close>

section \<open>The pipeline\<close>

datatype 'e pdp_error = ContractViolation validation_error | InputFailed | EngineFailed 'e

definition to_obligation :: "gmap \<Rightarrow> obligation" where
  "to_obligation m = \<lparr>ob_type = str_or_empty (get_str m ''type''), ob_details = get_map m ''details''\<rparr>"

definition to_obligations :: "gmap list \<Rightarrow> obligation list" where
  "to_obligations raw = map to_obligation raw"

definition to_input :: "request \<Rightarrow> mapv option" where
  "to_input r = unmarshal_map (marshal_request r)"

definition request_claims :: "request \<Rightarrow> claims" where
  "request_claims r = zero_claims
     \<lparr>cl_sub := subj_id (req_subject r),
      cl_act := act_name (req_action r),
      cl_res := res_type (req_resource r) @ ''/'' @ res_id (req_resource r),
      cl_aal := auth_assurance_level (req_subject r),
      cl_rd := resource_digest (res_props (req_resource r)),
      cl_cid := correlation_id r\<rparr>"

definition assemble :: "issuer \<Rightarrow> int \<Rightarrow> request \<Rightarrow> edecision \<Rightarrow> response" where
  "assemble i now r dec =
     \<lparr>decision = ed_allow dec,
      resp_context = Some
        \<lparr>rc_token = (if ed_allow dec
                     then Some \<lparr>tok_value = issue_token i now (request_claims r), tok_ttl = ttl_seconds i\<rparr>
                     else None),
         rc_obligations = to_obligations (ed_obligations dec),
         rc_reason = ed_reason dec\<rparr>\<rparr>"

definition evaluate ::
  "(gval \<Rightarrow> 'e + edecision) \<Rightarrow> issuer \<Rightarrow> int \<Rightarrow> request \<Rightarrow> 'e pdp_error + response"
where
  "evaluate eval i now r =
     (case validate r of
        Some ve \<Rightarrow> Inl (ContractViolation ve)
      | None \<Rightarrow>
          (case to_input r of
             None \<Rightarrow> Inl InputFailed
           | Some input \<Rightarrow>
               (case eval (VObj (entries input)) of
                  Inl e \<Rightarrow> Inl (EngineFailed e)
                | Inr dec \<Rightarrow> Inr (assemble i now r dec))))"

section \<open>The pipeline on well-formed requests\<close>

definition fits :: "request \<Rightarrow> bool" where
  "fits r \<longleftrightarrow> wf_request r \<and> request_depth r \<le> max_depth"

lemma to_input_fits: "fits r \<Longrightarrow> to_input r = Some (Some (input_map r))"
  by (simp add: to_input_def fits_def unmarshal_request)

lemma validate_None: "validate r = None \<longleftrightarrow> conforms r"
  by (simp add: validate_def all_issues_Nil)

lemma evaluate_fits:
  "fits r \<Longrightarrow>
   evaluate eval i now r =
     (if \<not> conforms r then Inl (ContractViolation (ValidationError (all_issues r)))
      else (case eval (VObj (input_map r)) of
              Inl e \<Rightarrow> Inl (EngineFailed e) | Inr dec \<Rightarrow> Inr (assemble i now r dec)))"
  by (simp add: evaluate_def to_input_fits validate_def all_issues_Nil)

context decision_engine
begin

lemma pdp_allows_iff:
  assumes "fits r"
  shows "(\<exists>resp. evaluate eval i now r = Inr resp \<and> decision resp) \<longleftrightarrow>
           conforms r \<and> grants (VObj (input_map r))"
  using assms permits_iff [of "VObj (input_map r)"]
  by (auto simp: evaluate_fits assemble_def permits_def split: sum.splits)

lemma pdp_denies_iff:
  assumes "fits r"
  shows "(\<exists>resp. evaluate eval i now r = Inr resp \<and> \<not> decision resp) \<longleftrightarrow>
           conforms r \<and> (\<exists>d. eval (VObj (input_map r)) = Inr d) \<and> \<not> grants (VObj (input_map r))"
  using assms permits_iff [of "VObj (input_map r)"]
  by (auto simp: evaluate_fits assemble_def permits_def split: sum.splits)

end

text \<open>The claims of a well-formed request are well formed.\<close>

lemma get_str_valid: "wf_map m \<Longrightarrow> valid_utf8 (str_or_empty (get_str m k))"
  using wf_mems_get [of m k]
  by (auto simp: str_or_empty_def get_str_def bind_eq_Some_conv as_str_iff split: option.split)

lemma request_claims_wf: 
  assumes "wf_request r" and "conforms r"
  shows "wf_claims (request_claims r)"
proof -
  have "valid_utf8 (res_type (req_resource r) @ ''/'' @ res_id (req_resource r))"
    using assms by (intro valid_append) (auto simp: wf_request_def ascii_def intro: ascii_valid)
  then show ?thesis
    using assms(1)
    by (simp add: wf_claims_def request_claims_def wf_request_def auth_assurance_level_def
        correlation_id_def get_str_valid)
qed

lemma verify_minted:
  assumes "fits r" "conforms r"
  shows "verify_token i t' (issue_token i t (request_claims r)) =
     (if unix (t + is_ttl i) \<le> unix t' then Inl TokExpired else Inr (stamp i t (request_claims r)))"
  using assms by (simp add: verify_issued request_claims_wf fits_def)

section \<open>Properties\<close>

text \<open>
  C9.  With the OPA engine, a request is allowed exactly if it satisfies the contract and the
  policy's decision document for its JSON form has \<open>allow\<close> true.
\<close>

theorem pdp_opa_allow:
  assumes "fits r"
  shows "(\<exists>resp. evaluate (eval_opa q) i now r = Inr resp \<and> decision resp) \<longleftrightarrow>
     conforms r \<and> (\<exists>val vs rs. q (VObj (input_map r)) = Inr ((VObj val # vs) # rs)
                                 \<and> mget val ''allow'' = Some (VBool True))"
  using opa.pdp_allows_iff [OF assms, of q i now]
  by (auto simp: opa_grants_def split: sum.splits list.splits gval.splits)

lemma sample_request_fits: "fits sample_request"
  by (auto simp: fits_def wf_request_def sample_request_def smap_wf_def ascii_def request_depth_def
      max_depth_def intro!: ascii_valid)

definition sample_opa :: "unit prepared" where
  "sample_opa v =
     Inr [[VObj [(''allow'', VBool (v = VObj (input_map sample_request))), (''reason_code'', VStr ''ok'')]]]"

lemma pdp_opa_allow_witness:
  "(\<exists>resp. evaluate (eval_opa sample_opa) sample_issuer 0 sample_request = Inr resp \<and> decision resp) \<longleftrightarrow>
     conforms sample_request \<and> (\<exists>val vs rs. sample_opa (VObj (input_map sample_request)) = Inr ((VObj val # vs) # rs)
                                 \<and> mget val ''allow'' = Some (VBool True))"
  by (rule pdp_opa_allow [OF sample_request_fits])

text \<open>
  With the ReBAC engine, a request is allowed exactly if it satisfies the contract, names
  a resource, and OpenFGA answered the check of its tuple with \<open>allowed\<close> true.
\<close>

theorem pdp_rebac_allow:
  assumes "fits r"
  shows "(\<exists>resp. evaluate (eval_rebac send cfg) i now r = Inr resp \<and> decision resp) \<longleftrightarrow>
     conforms r \<and> (\<exists>u rel obj body. fga_tuple (VObj (input_map r)) = Some (u, rel, obj)
        \<and> send (check_url cfg) (check_body (fga_model cfg) u rel obj) = Inr (200, body)
        \<and> decode_allowed body = Some True)"
  using fga.pdp_allows_iff [OF assms, of send cfg i now]
  by (auto simp: fga_grants_def check_rel_def split: option.splits sum.splits prod.splits)

lemma pdp_rebac_allow_witness:
  "let cfg = \<lparr>fga_endpoint = ''http://fga'', fga_store = ''s'', fga_model = []\<rparr> in
   (\<exists>resp. evaluate (eval_rebac sample_fga cfg) sample_issuer 0 sample_request = Inr resp \<and> decision resp) \<longleftrightarrow>
     conforms sample_request \<and> (\<exists>u rel obj body. fga_tuple (VObj (input_map sample_request)) = Some (u, rel, obj)
        \<and> sample_fga (check_url cfg) (check_body (fga_model cfg) u rel obj) = Inr (200, body)
        \<and> decode_allowed body = Some True)"
  unfolding Let_def by (rule pdp_rebac_allow [OF sample_request_fits])

text \<open>
  C19.  A request that breaks the contract is answered with all its issues before any engine is
  asked; otherwise an engine error is the result, and every engine decision becomes the
  response with its allow bit, its reason code and its obligations, in order.
\<close>

theorem evaluate_outcomes:
  assumes "fits r"
  shows "if \<not> conforms r
     then \<exists>xs. evaluate eval i now r = Inl (ContractViolation (ValidationError xs))
            \<and> xs \<noteq> [] \<and> (\<forall>x. x \<in> set xs \<longleftrightarrow> breaks r x)
     else case eval (VObj (input_map r)) of
            Inl e \<Rightarrow> evaluate eval i now r = Inl (EngineFailed e)
          | Inr d \<Rightarrow> \<exists>c. evaluate eval i now r = Inr \<lparr>decision = ed_allow d, resp_context = Some c\<rparr>
                      \<and> rc_reason c = ed_reason d \<and> rc_obligations c = map to_obligation (ed_obligations d)"
  using assms set_all_issues [of _ r] all_issues_Nil [of r]
  by (auto simp: evaluate_fits assemble_def to_obligations_def split: sum.split)

lemma evaluate_outcomes_witness:
  "(\<exists>c. evaluate (eval_opa sample_opa) sample_issuer 0 sample_request
          = Inr \<lparr>decision = True, resp_context = Some c\<rparr> \<and> rc_reason c = ''ok'' \<and> rc_obligations c = [])
   \<and> evaluate (\<lambda>_. Inl ()) sample_issuer 0 sample_request = Inl (EngineFailed ())"
  using evaluate_outcomes [OF sample_request_fits, of "eval_opa sample_opa" sample_issuer 0]
    evaluate_outcomes [OF sample_request_fits, of "\<lambda>_. Inl ()" sample_issuer 0] sample_request_conforms
  by (simp add: eval_opa_def sample_opa_def parse_decision_def get_defs mget_def)

text \<open>
  C18.  A response carries a decision token exactly if it allows; the token verifies, until its
  TTL runs out, to claims that bind the request's subject, action, resource, assurance level,
  property digest and correlation id.
\<close>

theorem decision_token_binds:
  assumes "fits r" and "evaluate eval i now r = Inr resp"
  shows "\<exists>c. resp_context resp = Some c \<and> (rc_token c \<noteq> None \<longleftrightarrow> decision resp)
     \<and> (\<forall>tk t'. rc_token c = Some tk \<and> unix t' < unix (now + is_ttl i) \<longrightarrow>
          tok_ttl tk = ttl_seconds i
          \<and> verify_token i t' (tok_value tk) = Inr
              \<lparr>cl_sub = subj_id (req_subject r), cl_act = act_name (req_action r),
               cl_res = res_type (req_resource r) @ ''/'' @ res_id (req_resource r),
               cl_aal = auth_assurance_level (req_subject r),
               cl_rd = resource_digest (res_props (req_resource r)), cl_cid = correlation_id r,
               cl_iat = unix now, cl_exp = unix (now + is_ttl i)\<rparr>)"
proof -
  have "conforms r" using assms(2) by (auto simp: evaluate_def validate_None split: option.splits)
  then show ?thesis
    using assms verify_minted [OF assms(1), of i _ now]
    by (auto simp: evaluate_fits assemble_def stamp_def request_claims_def zero_claims_def
        split: sum.splits)
qed

lemma decision_token_binds_witness:
  "\<exists>resp c. evaluate (eval_opa sample_opa) sample_issuer 0 sample_request = Inr resp
     \<and> resp_context resp = Some c \<and> (rc_token c \<noteq> None \<longleftrightarrow> decision resp)
     \<and> (\<forall>tk t'. rc_token c = Some tk \<and> unix t' < unix (0 + is_ttl sample_issuer) \<longrightarrow>
          tok_ttl tk = ttl_seconds sample_issuer
          \<and> verify_token sample_issuer t' (tok_value tk) = Inr
              \<lparr>cl_sub = ''u-1'', cl_act = ''wallet:settle'', cl_res = ''wallet:account/acc-1'',
               cl_aal = ''AAL2'', cl_rd = resource_digest None, cl_cid = ''c-1'',
               cl_iat = unix 0, cl_exp = unix (0 + is_ttl sample_issuer)\<rparr>)"
proof -
  have "\<exists>resp. evaluate (eval_opa sample_opa) sample_issuer 0 sample_request = Inr resp"
    using sample_request_conforms
    by (simp add: evaluate_fits sample_request_fits eval_opa_def sample_opa_def)
  then obtain resp where r: "evaluate (eval_opa sample_opa) sample_issuer 0 sample_request = Inr resp" by blast
  have "subj_id (req_subject sample_request) = ''u-1''" "act_name (req_action sample_request) = ''wallet:settle''"
    "res_type (req_resource sample_request) @ ''/'' @ res_id (req_resource sample_request) = ''wallet:account/acc-1''"
    "auth_assurance_level (req_subject sample_request) = ''AAL2''"
    "res_props (req_resource sample_request) = None" "correlation_id sample_request = ''c-1''"
    by (simp_all add: sample_request_def auth_assurance_level_def correlation_id_def get_str_def mget_def)
  then show ?thesis
    using decision_token_binds [OF sample_request_fits r] r by (simp only:) blast
qed

end
