(* ===== verification/Api.thy ===== *)
theory Api
  imports Pdp
begin

text \<open>
  The HTTP facade of the PDP (\<open>authz/api/handler.go\<close>): routing, strict decoding of the
  request, the mapping of outcomes to statuses, and the replies it writes.  The evaluator is
  an argument, as it is a field of the Go handler.
\<close>

section \<open>Replies\<close>

record reply =
  rp_status :: nat
  rp_type :: string
  rp_body :: string

definition json_reply :: "nat \<Rightarrow> jval \<Rightarrow> reply" where
  "json_reply st v = \<lparr>rp_status = st, rp_type = ''application/json'', rp_body = print_j v @ [CHR 0x0A]\<rparr>"

text \<open>\<open>http.Error\<close>, which the mux also uses for the requests it refuses.\<close>

definition text_reply :: "nat \<Rightarrow> string \<Rightarrow> reply" where
  "text_reply st msg =
     \<lparr>rp_status = st, rp_type = ''text/plain; charset=utf-8'', rp_body = msg @ [CHR 0x0A]\<rparr>"

definition error_reply :: "nat \<Rightarrow> string \<Rightarrow> string \<Rightarrow> reply" where
  "error_reply st code msg = json_reply st (JObj [(''error'', JStr code), (''message'', JStr msg)])"

section \<open>The evaluation handler\<close>

text \<open>
  \<open>q\<close> is the \<open>%q\<close> verb of \<open>fmt\<close> and \<open>json_err\<close> the text of the decoder's error for a body
  that does not decode.
\<close>

definition handle_evaluation ::
  "(string \<Rightarrow> string) \<Rightarrow> (string \<Rightarrow> string) \<Rightarrow> (request \<Rightarrow> 'e pdp_error + response) \<Rightarrow> string \<Rightarrow> reply"
where
  "handle_evaluation q json_err svc body =
     (case decode_request body of
        None \<Rightarrow> error_reply 400 ''invalid_json'' (json_err body)
      | Some r \<Rightarrow>
          (case svc r of
             Inl (ContractViolation ve) \<Rightarrow>
               json_reply 400 (JObj [(''error'', JStr ''contract_violation''),
                                     (''issues'', JArr (map (\<lambda>x. JStr (issue_text q x)) (issues ve)))])
           | Inl _ \<Rightarrow> error_reply 500 ''internal_error'' ''evaluation failed''
           | Inr resp \<Rightarrow> json_reply 200 (response_j resp)))"

definition handle_health :: reply where
  "handle_health = json_reply 200 (JObj [(''status'', JStr ''ok'')])"

section \<open>Routes\<close>

text \<open>
  The mux on cleaned paths: a pattern for \<open>GET\<close> also serves \<open>HEAD\<close>; a known path with another
  method is 405, any other path 404.
\<close>

datatype api_target = ToEvaluation | ToHealth | NoMethod | NoRoute

definition api_route :: "string \<Rightarrow> string \<Rightarrow> api_target" where
  "api_route meth path =
     (if path = ''/access/v1/evaluation'' then (if meth = ''POST'' then ToEvaluation else NoMethod)
      else if path = ''/healthz'' then (if meth = ''GET'' \<or> meth = ''HEAD'' then ToHealth else NoMethod)
      else NoRoute)"

definition facade ::
  "(string \<Rightarrow> string) \<Rightarrow> (string \<Rightarrow> string) \<Rightarrow> (request \<Rightarrow> 'e pdp_error + response)
     \<Rightarrow> string \<Rightarrow> string \<Rightarrow> string \<Rightarrow> reply"
where
  "facade q json_err svc meth path body =
     (case api_route meth path of
        ToEvaluation \<Rightarrow> handle_evaluation q json_err svc body
      | ToHealth \<Rightarrow> handle_health
      | NoMethod \<Rightarrow> text_reply 405 ''Method Not Allowed''
      | NoRoute \<Rightarrow> text_reply 404 ''404 page not found'')"

section \<open>Lemmas\<close>

lemma reply_status [simp]:
  "rp_status (json_reply st v) = st" "rp_status (text_reply st m) = st" "rp_status (error_reply st c m) = st"
  by (simp_all add: json_reply_def text_reply_def error_reply_def)

lemma json_reply_response: "rp_body (json_reply st (response_j r)) = encode_response r"
  by (simp add: json_reply_def encode_response_def)

lemma handle_fits:
  assumes "fits r"
  shows "handle_evaluation q json_err svc (marshal_request r) =
     (case svc (norm_request r) of
        Inl (ContractViolation ve) \<Rightarrow>
          json_reply 400 (JObj [(''error'', JStr ''contract_violation''),
                                (''issues'', JArr (map (\<lambda>x. JStr (issue_text q x)) (issues ve)))])
      | Inl _ \<Rightarrow> error_reply 500 ''internal_error'' ''evaluation failed''
      | Inr resp \<Rightarrow> json_reply 200 (response_j resp))"
  using assms decode_marshal_request [of r] by (simp add: handle_evaluation_def fits_def)

section \<open>Properties\<close>

text \<open>
  The facade answers 200 exactly when the route is the evaluation one, the body decodes
  strictly and the evaluator gives a response, which is then the body; an undecodable body is
  400 without an evaluation, a contract violation is 400, and an internal failure is a 500
  whose text does not depend on the failure.
\<close>

theorem facade_statuses:
  fixes svc :: "request \<Rightarrow> 'e pdp_error + response"
  assumes "api_route meth path = ToEvaluation"
  shows "(rp_status (facade q je svc meth path body) = 200 \<longleftrightarrow>
            (\<exists>r resp. decode_request body = Some r \<and> svc r = Inr resp
               \<and> rp_body (facade q je svc meth path body) = encode_response resp))
     \<and> (decode_request body = None \<longrightarrow>
          (\<forall>svc' :: request \<Rightarrow> 'e pdp_error + response. facade q je svc' meth path body = error_reply 400 ''invalid_json'' (je body)))
     \<and> (\<forall>r ve. decode_request body = Some r \<and> svc r = Inl (ContractViolation ve) \<longrightarrow>
          rp_status (facade q je svc meth path body) = 400)
     \<and> (\<forall>r err. decode_request body = Some r \<and> svc r = Inl err \<and> (\<forall>ve. err \<noteq> ContractViolation ve) \<longrightarrow>
          facade q je svc meth path body = error_reply 500 ''internal_error'' ''evaluation failed'')"
  using assms
  by (auto simp: facade_def handle_evaluation_def json_reply_response
      split: option.splits sum.splits pdp_error.splits)

definition broken_service :: "request \<Rightarrow> unit pdp_error + response" where
  "broken_service r = Inl InputFailed"

lemma facade_statuses_witness:
  "rp_status (facade id id (evaluate (eval_opa sample_opa) sample_issuer 0) ''POST'' ''/access/v1/evaluation''
                (marshal_request sample_request)) = 200
   \<and> facade id id (evaluate (eval_opa sample_opa) sample_issuer 0) ''POST'' ''/access/v1/evaluation'' ''x''
       = error_reply 400 ''invalid_json'' ''x''
   \<and> facade id id broken_service ''POST'' ''/access/v1/evaluation'' (marshal_request sample_request)
       = error_reply 500 ''internal_error'' ''evaluation failed''"
proof (intro conjI)
  have t: "api_route ''POST'' ''/access/v1/evaluation'' = ToEvaluation" by (simp add: api_route_def)
  have d: "decode_request (marshal_request sample_request) = Some (norm_request sample_request)"
    using decode_marshal_request [of sample_request] sample_request_fits by (simp add: fits_def)
  have f: "fits (norm_request sample_request)" "conforms (norm_request sample_request)"
    using sample_request_fits sample_request_conforms by (simp_all add: fits_def flip: validate_None)
  then obtain resp where "evaluate (eval_opa sample_opa) sample_issuer 0 (norm_request sample_request) = Inr resp"
    by (simp add: evaluate_fits eval_opa_def sample_opa_def)
  then show "rp_status (facade id id (evaluate (eval_opa sample_opa) sample_issuer 0) ''POST''
      ''/access/v1/evaluation'' (marshal_request sample_request)) = 200"
    using facade_statuses [OF t, of id id "evaluate (eval_opa sample_opa) sample_issuer 0" "marshal_request sample_request"] d
    by (simp add: facade_def t handle_evaluation_def)
  have "decode_request ''x'' = None" by code_simp
  then show "facade id id (evaluate (eval_opa sample_opa) sample_issuer 0) ''POST'' ''/access/v1/evaluation'' ''x''
       = error_reply 400 ''invalid_json'' ''x''"
    using facade_statuses [OF t, of id id "evaluate (eval_opa sample_opa) sample_issuer 0" "''x''"] by simp
  show "facade id id broken_service ''POST'' ''/access/v1/evaluation'' (marshal_request sample_request)
       = error_reply 500 ''internal_error'' ''evaluation failed''"
    using facade_statuses [OF t, of id id broken_service "marshal_request sample_request"] d by (simp add: broken_service_def)
qed

end
