(* ===== verification/Pdp_Client.thy ===== *)
theory Pdp_Client
  imports Api
begin

text \<open>
  How a PEP reaches a PDP: the contract of a transport (the locale \<open>pdp_transport\<close>) and its
  JSON over HTTP instance, the client of \<open>authz/pdpclient/client.go\<close> talking to the facade.
  The HTTP exchange is the argument \<open>send\<close>.
\<close>

section \<open>Requests and responses up to what a transport may lose\<close>

text \<open>Two requests that differ at most in nil against empty maps.\<close>

definition same_request :: "request \<Rightarrow> request \<Rightarrow> bool" where
  "same_request r r' \<longleftrightarrow> norm_request r = norm_request r'"

text \<open>Two responses with the same decision, token, reason and obligations.\<close>

definition token_value_of :: "response \<Rightarrow> string option" where
  "token_value_of resp =
     Option.bind (resp_context resp) (\<lambda>c. map_option tok_value (rc_token c))"

definition reason_of :: "response \<Rightarrow> string" where
  "reason_of resp = (case resp_context resp of None \<Rightarrow> [] | Some c \<Rightarrow> rc_reason c)"

definition obligations_of :: "response \<Rightarrow> obligation list" where
  "obligations_of resp = (case resp_context resp of None \<Rightarrow> [] | Some c \<Rightarrow> rc_obligations c)"

definition agrees :: "response \<Rightarrow> response \<Rightarrow> bool" where
  "agrees a b \<longleftrightarrow>
     decision a = decision b \<and> token_value_of a = token_value_of b \<and> reason_of a = reason_of b
     \<and> map norm_obligation (obligations_of a) = map norm_obligation (obligations_of b)"

lemma same_request_refl [simp]: "same_request r r"
  by (simp add: same_request_def)

lemma norm_request_idem [simp]: "norm_request (norm_request r) = norm_request r"
  by (simp add: norm_request_def)

lemma same_request_norm [simp]: "same_request r (norm_request r)"
  by (simp add: same_request_def)

lemma norm_obligation_idem [simp]: "norm_obligation (norm_obligation b) = norm_obligation b"
  by (simp add: norm_obligation_def)

lemma agrees_refl [simp]: "agrees a a"
  by (simp add: agrees_def)

lemma agrees_norm: "agrees (norm_response a) a"
  by (auto simp: agrees_def norm_response_def norm_context_def token_value_of_def reason_of_def
      obligations_of_def comp_def split: option.split)

lemma same_request_facts:
  assumes "same_request r r'"
  shows "fits r' = fits r" "validate r' = validate r" "input_map r' = input_map r"
    "subj_id (req_subject r') = subj_id (req_subject r)"
    "act_name (req_action r') = act_name (req_action r)"
    "res_type (req_resource r') = res_type (req_resource r)"
    "res_id (req_resource r') = res_id (req_resource r)"
proof -
  have n: "norm_request r = norm_request r'" using assms by (simp add: same_request_def)
  show "fits r' = fits r"
    using n wf_norm_request request_depth_norm unfolding fits_def by metis
  show "validate r' = validate r" using n validate_norm by metis
  show "input_map r' = input_map r" using n input_map_norm by metis
  show "subj_id (req_subject r') = subj_id (req_subject r)"
    "act_name (req_action r') = act_name (req_action r)"
    "res_type (req_resource r') = res_type (req_resource r)"
    "res_id (req_resource r') = res_id (req_resource r)"
    using n by (auto simp: norm_request_def dest: arg_cong [where f = subj_id]
        arg_cong [where f = act_name] arg_cong [where f = res_type] arg_cong [where f = res_id])
qed

section \<open>The contract of a transport\<close>

definition fits_response :: "response \<Rightarrow> bool" where
  "fits_response s \<longleftrightarrow> wf_response s \<and> response_depth s \<le> max_depth"

text \<open>A service whose responses to (any form of) a request fit.\<close>

definition svc_fits :: "(request \<Rightarrow> 'e + response) \<Rightarrow> request \<Rightarrow> bool" where
  "svc_fits svc r \<longleftrightarrow> (\<forall>r' s. same_request r r' \<and> svc r' = Inr s \<longrightarrow> fits_response s)"

text \<open>
  \<open>call\<close> reaches the service \<open>svc\<close>: on a request that fits, with responses that fit, a
  response received is one the service gave to the same request, and a service response is
  received.
\<close>

locale pdp_transport =
  fixes call :: "request \<Rightarrow> 'c + response" and svc :: "request \<Rightarrow> 'e + response"
  assumes relays: "fits r \<Longrightarrow> svc_fits svc r \<Longrightarrow> call r = Inr resp \<Longrightarrow> \<exists>r' s. same_request r r' \<and> svc r' = Inr s \<and> agrees resp s"
    and delivers: "fits r \<Longrightarrow> svc_fits svc r \<Longrightarrow>
      \<forall>r'. same_request r r' \<longrightarrow> (\<exists>s. svc r' = Inr s) \<Longrightarrow> \<exists>resp. call r = Inr resp"
begin

lemma allow_is_service_allow:
  assumes "fits r" and "svc_fits svc r" and "call r = Inr resp" and "decision resp"
  obtains r' s where "same_request r r'" "svc r' = Inr s" "decision s"
  using relays [OF assms(1-3)] assms(4) by (auto simp: agrees_def)

text \<open>Where the service errs on every form of the request, the caller sees an error too.\<close>

lemma error_relayed:
  assumes "fits r" and "\<forall>r'. same_request r r' \<longrightarrow> (\<exists>e. svc r' = Inl e)"
  shows "\<exists>e. call r = Inl e"
proof (cases "call r")
  case (Inr resp)
  have "svc_fits svc r" using assms(2) by (fastforce simp: svc_fits_def)
  from relays [OF assms(1) this Inr] show ?thesis using assms(2) by fastforce
qed simp

end

interpretation direct: pdp_transport svc svc for svc :: "request \<Rightarrow> 'e + response"
proof
  show "\<exists>r' s. same_request r r' \<and> svc r' = Inr s \<and> agrees resp s" if "svc r = Inr resp" for r resp
    using that by (intro exI [of _ r] exI [of _ resp]) simp
  show "\<exists>resp. svc r = Inr resp" if "\<forall>r'. same_request r r' \<longrightarrow> (\<exists>s. svc r' = Inr s)" for r
    using that by simp
qed

section \<open>The HTTP client\<close>

datatype 'err client_error = ClientTransport 'err | ClientStatus nat | ClientDecode

definition client_endpoint :: "string \<Rightarrow> string" where
  "client_endpoint base = base @ ''/access/v1/evaluation''"

definition client_evaluate ::
  "(string \<Rightarrow> string \<Rightarrow> 'err + nat \<times> string) \<Rightarrow> string \<Rightarrow> request \<Rightarrow> 'err client_error + response"
where
  "client_evaluate send base r =
     (case send (client_endpoint base) (marshal_request r) of
        Inl e \<Rightarrow> Inl (ClientTransport e)
      | Inr (st, body) \<Rightarrow>
          if st \<noteq> 200 then Inl (ClientStatus st)
          else (case decode_response body of None \<Rightarrow> Inl ClientDecode | Some resp \<Rightarrow> Inr resp))"

text \<open>An exchange whose far end is the facade: the URL's path is the evaluation route.\<close>

definition to_facade ::
  "(string \<Rightarrow> string) \<Rightarrow> (string \<Rightarrow> string) \<Rightarrow> (request \<Rightarrow> 'e pdp_error + response)
     \<Rightarrow> string \<Rightarrow> string \<Rightarrow> unit + nat \<times> string"
where
  "to_facade q json_err svc url body =
     (let rp = facade q json_err svc ''POST'' ''/access/v1/evaluation'' body in Inr (rp_status rp, rp_body rp))"

lemma client_to_facade:
  assumes "fits r" and "\<And>s. svc (norm_request r) = Inr s \<Longrightarrow> fits_response s"
  shows "client_evaluate (to_facade q je svc) base r =
     (case svc (norm_request r) of
        Inl (ContractViolation ve) \<Rightarrow> Inl (ClientStatus 400)
      | Inl _ \<Rightarrow> Inl (ClientStatus 500)
      | Inr s \<Rightarrow> Inr (norm_response s))"
  using assms decode_encode_response
  by (auto simp: client_evaluate_def to_facade_def facade_def api_route_def handle_fits
      json_reply_response fits_response_def split: sum.split pdp_error.split)

interpretation http: pdp_transport "client_evaluate (to_facade q je svc) base" svc
  for q je :: "string \<Rightarrow> string" and base :: string and svc :: "request \<Rightarrow> 'e pdp_error + response"
proof
  fix r assume r: "fits r" and ok: "svc_fits svc r"
  have c: "client_evaluate (to_facade q je svc) base r =
     (case svc (norm_request r) of
        Inl (ContractViolation ve) \<Rightarrow> Inl (ClientStatus 400)
      | Inl _ \<Rightarrow> Inl (ClientStatus 500)
      | Inr s \<Rightarrow> Inr (norm_response s))"
    using r ok same_request_norm [of r] unfolding svc_fits_def by (intro client_to_facade) blast+
  show "\<exists>r' s. same_request r r' \<and> svc r' = Inr s \<and> agrees resp s"
    if "client_evaluate (to_facade q je svc) base r = Inr resp" for resp
    using that c agrees_norm
    by (intro exI [of _ "norm_request r"]) (auto split: sum.splits pdp_error.splits)
  show "\<exists>resp. client_evaluate (to_facade q je svc) base r = Inr resp"
    if "\<forall>r'. same_request r r' \<longrightarrow> (\<exists>s. svc r' = Inr s)"
    using that c by (auto dest!: spec [of _ "norm_request r"] split: sum.splits)
qed

section \<open>The PDP behind the client\<close>

text \<open>Engine decisions that a response can carry, and issuers whose TTL is an \<open>int64\<close>.\<close>

definition decision_ok :: "edecision \<Rightarrow> bool" where
  "decision_ok d \<longleftrightarrow>
     valid_utf8 (ed_reason d)
     \<and> list_all (\<lambda>m. wf_map m \<and> gdepth (VObj m) + 4 \<le> max_depth) (ed_obligations d)"

definition issuer_ok :: "issuer \<Rightarrow> bool" where
  "issuer_ok i \<longleftrightarrow> in_int64 (ttl_seconds i)"

lemma gdepth_get: "mget m k = Some v \<Longrightarrow> gdepth v \<le> gdepth_mems m"
proof (induction m)
  case (Cons p m)
  then show ?case by (cases p) (auto simp: mget_def split: if_splits)
qed (simp add: mget_def)

lemma to_obligation_ok:
  assumes "wf_map m" and "gdepth (VObj m) + 4 \<le> max_depth"
  shows "wf_obligation (to_obligation m)"
    and "gdepth (VObj (entries (ob_details (to_obligation m)))) + 4 \<le> max_depth"
proof -
  have d: "wf_map (entries (get_map m k)) \<and> gdepth (VObj (entries (get_map m k))) + 4 \<le> max_depth" for k
    using assms wf_mems_get [of m k] gdepth_get [of m k]
    by (cases "get_map m k") (auto simp: get_map_def bind_eq_Some_conv as_map_iff max_depth_def)
  then show "wf_obligation (to_obligation m)"
    "gdepth (VObj (entries (ob_details (to_obligation m)))) + 4 \<le> max_depth"
    using get_str_valid [OF assms(1)] by (simp_all add: wf_obligation_def to_obligation_def)
qed

lemma to_obligations_ok:
  assumes "list_all (\<lambda>m. wf_map m \<and> gdepth (VObj m) + 4 \<le> max_depth) ms"
  shows "list_all wf_obligation (to_obligations ms)" and "4 + details_depth (to_obligations ms) \<le> max_depth"
  using assms to_obligation_ok
  by (induction ms) (auto simp: to_obligations_def details_depth_def max_depth_def simp del: gdepth.simps)

lemma seal_ascii: "ascii (seal k p)"
  using b64_ascii [of p] b64_ascii [of "hmac_sha256 k (b64_encode p)"]
  by (simp add: seal_def seal_with_def ascii_def Let_def)

lemma assemble_fits:
  assumes "decision_ok d" and "issuer_ok i"
  shows "fits_response (assemble i now r d)"
  using assms to_obligations_ok [of "ed_obligations d"]
  by (auto simp: fits_response_def assemble_def wf_response_def wf_context_def wf_token_def decision_ok_def
      issuer_ok_def response_depth_def issue_token_def seal_ascii ascii_valid)

lemma evaluate_svc_fits:
  assumes "fits r" and "issuer_ok i" and "\<forall>d. eval (VObj (input_map r)) = Inr d \<longrightarrow> decision_ok d"
  shows "svc_fits (evaluate eval i now) r"
proof -
  have "fits_response s" if "same_request r r'" "evaluate eval i now r' = Inr s" for r' s
    using that assms same_request_facts(1,3) [OF that(1)]
    by (auto simp: evaluate_fits assemble_fits split: sum.splits if_splits)
  then show ?thesis unfolding svc_fits_def by blast
qed

lemma evaluate_same_decision:
  assumes "fits r" "same_request r r'" "evaluate eval i now r' = Inr s"
  shows "\<exists>d. eval (VObj (input_map r)) = Inr d \<and> conforms r \<and> decision s = ed_allow d
     \<and> reason_of s = ed_reason d \<and> obligations_of s = to_obligations (ed_obligations d)"
  using assms same_request_facts(1-3) [OF assms(2)]
  by (auto simp: evaluate_fits assemble_def reason_of_def obligations_of_def simp flip: validate_None
      split: sum.splits if_splits)

section \<open>Properties\<close>

text \<open>
  C28.  JSON over HTTP is transparent: a client whose PDP is the facade over the OPA-backed
  service allows a request exactly if the request satisfies the contract and the policy's
  decision document allows it; a contract violation reaches it as status 400 and an engine
  failure as status 500.
\<close>

theorem http_pdp_faithful:
  assumes "fits r" and "issuer_ok i" and "\<forall>d. eval_opa q (VObj (input_map r)) = Inr d \<longrightarrow> decision_ok d"
  shows "((\<exists>resp. client_evaluate (to_facade fq je (evaluate (eval_opa q) i now)) base r = Inr resp
                  \<and> decision resp) \<longleftrightarrow> conforms r \<and> opa_grants q (VObj (input_map r)))
     \<and> (\<not> conforms r \<longrightarrow>
          client_evaluate (to_facade fq je (evaluate (eval_opa q) i now)) base r = Inl (ClientStatus 400))
     \<and> (conforms r \<and> (\<exists>e. eval_opa q (VObj (input_map r)) = Inl e) \<longrightarrow>
          client_evaluate (to_facade fq je (evaluate (eval_opa q) i now)) base r = Inl (ClientStatus 500))"
proof -
  have f: "svc_fits (evaluate (eval_opa q) i now) r" using assms by (rule evaluate_svc_fits)
  have n: "fits (norm_request r)" "conforms (norm_request r) \<longleftrightarrow> conforms r"
    using same_request_facts(1,2) [OF same_request_norm, of r] assms(1) validate_None
    by (simp, metis)
  have "client_evaluate (to_facade fq je (evaluate (eval_opa q) i now)) base r =
     (case evaluate (eval_opa q) i now (norm_request r) of
        Inl (ContractViolation ve) \<Rightarrow> Inl (ClientStatus 400)
      | Inl _ \<Rightarrow> Inl (ClientStatus 500)
      | Inr s \<Rightarrow> Inr (norm_response s))"
    using f same_request_norm [of r] assms(1) unfolding svc_fits_def by (intro client_to_facade) blast+
  then have c: "client_evaluate (to_facade fq je (evaluate (eval_opa q) i now)) base r =
     (if \<not> conforms r then Inl (ClientStatus 400)
      else (case eval_opa q (VObj (input_map r)) of Inl e \<Rightarrow> Inl (ClientStatus 500)
            | Inr d \<Rightarrow> Inr (norm_response (assemble i now (norm_request r) d))))"
    using n by (simp add: evaluate_fits split: sum.split)
  have "decision (norm_response (assemble i now (norm_request r) d)) = ed_allow d" for d
    by (simp add: norm_response_def assemble_def)
  then show ?thesis
    using c eval_opa_allow [of q "VObj (input_map r)"] by (auto split: sum.splits)
qed

lemma sample_opa_ok: "\<forall>d. eval_opa sample_opa (VObj (input_map sample_request)) = Inr d \<longrightarrow> decision_ok d"
  by (auto simp: eval_opa_def sample_opa_def decision_ok_def parse_decision_def get_str_def get_arr_def
      mget_def ascii_def intro!: ascii_valid)

lemma sample_issuer_ok: "issuer_ok sample_issuer"
proof -
  have "ttl_seconds sample_issuer = 300"
    using dur_seconds_whole [of 300] by (simp add: ttl_seconds_def sample_issuer_def)
  then show ?thesis by (simp add: issuer_ok_def in_int64_def)
qed

lemma sample_opa_grants: "opa_grants sample_opa (VObj (input_map sample_request))"
  by (simp add: opa_grants_def sample_opa_def mget_def)

lemma http_pdp_faithful_witness:
  "\<exists>resp. client_evaluate (to_facade id id (evaluate (eval_opa sample_opa) sample_issuer 0)) ''http://pdp''
            sample_request = Inr resp \<and> decision resp"
  using http_pdp_faithful [OF sample_request_fits sample_issuer_ok sample_opa_ok, of id id 0 "''http://pdp''"]
    sample_request_conforms sample_opa_grants by blast

end
