(* ===== verification/Pep.thy ===== *)
theory Pep
  imports Pdp_Client
begin

text \<open>
  The policy enforcement point (\<open>authz/pep\<close>): the L0, L1, L2 ladder of \<open>Check\<close>, the decision
  token fast path, the classification of responses, and the middleware that turns outcomes
  into HTTP.  The PDP, the attestor, the token verifier and the revocation checker are fields
  of the configuration, as in the Go struct.
\<close>

section \<open>Inbound requests\<close>

text \<open>
  A body is a reader: \<open>io.ReadAll\<close> drains it, or fails.  Headers are given by canonical name
  with the value \<open>Header.Get\<close> reads; \<open>rq_cert\<close> is the leaf of the TLS peer's chain, if any.
\<close>

datatype body = Body string | Broken string

fun read_all :: "body \<Rightarrow> string option \<times> body" where
  "read_all (Body s) = (Some s, Body [])"
| "read_all (Broken s) = (None, Broken [])"

record http_request =
  rq_method :: string
  rq_path :: string
  rq_headers :: "string smap"
  rq_body :: body
  rq_remote :: string
  rq_cert :: "string option"

definition header :: "http_request \<Rightarrow> string \<Rightarrow> string" where
  "header r k = str_or_empty (mget (rq_headers r) k)"

definition set_header :: "string \<Rightarrow> string \<Rightarrow> http_request \<Rightarrow> http_request" where
  "set_header k v r = r\<lparr>rq_headers := mput k v (rq_headers r)\<rparr>"

definition HeaderSubjectID :: string where "HeaderSubjectID = ''X-Vsp-Subject-Id''"
definition HeaderAAL :: string where "HeaderAAL = ''X-Vsp-Aal''"
definition HeaderCallerSpiffe :: string where "HeaderCallerSpiffe = ''X-Vsp-Caller-Spiffe''"
definition HeaderResourceID :: string where "HeaderResourceID = ''X-Vsp-Resource-Id''"
definition HeaderPartnerID :: string where "HeaderPartnerID = ''X-Vsp-Partner-Id''"
definition HeaderCorrelationID :: string where "HeaderCorrelationID = ''X-Correlation-Id''"
definition HeaderStepUpRequired :: string where "HeaderStepUpRequired = ''X-Step-Up-Required''"
definition HeaderDecisionToken :: string where "HeaderDecisionToken = ''X-Decision-Token''"

lemmas header_defs = HeaderSubjectID_def HeaderAAL_def HeaderCallerSpiffe_def HeaderResourceID_def
  HeaderPartnerID_def HeaderCorrelationID_def HeaderStepUpRequired_def HeaderDecisionToken_def

section \<open>Configuration and outcomes\<close>

record route =
  rt_method :: string
  rt_path :: string
  rt_action :: string
  rt_type :: string
  rt_props :: "string list"

text \<open>
  The attestor answers with its error (\<open>None\<close>) or its verdict; the verifier with the claims
  of an accepted token.
\<close>

record 'e pep_config =
  pc_profile :: profile
  pc_id :: string
  pc_routes :: "route list"
  pc_pdp :: "(request \<Rightarrow> 'e + response) option"
  pc_attestor :: "(string \<Rightarrow> bool option) option"
  pc_require_svid :: bool
  pc_verifier :: "(string \<Rightarrow> token_error + claims) option"
  pc_revocations :: "(string \<Rightarrow> bool) option"

datatype outcome_kind = Allow | DropL0 | DenyRoute | DenyForbidden | DenyStepUp

record outcome =
  oc_kind :: outcome_kind
  oc_reason :: string
  oc_acr :: string
  oc_cid :: string
  oc_token :: string

definition plain_outcome :: "outcome_kind \<Rightarrow> string \<Rightarrow> string \<Rightarrow> outcome" where
  "plain_outcome k reason cid =
     \<lparr>oc_kind = k, oc_reason = reason, oc_acr = [], oc_cid = cid, oc_token = []\<rparr>"

text \<open>\<open>New\<close> panics on a missing PDP or, for East-West, a missing attestor.\<close>

datatype pep_panic = PdpRequired | AttestorRequired

definition new_pep :: "'e pep_config \<Rightarrow> pep_panic + 'e pep_config" where
  "new_pep cfg =
     (if Option.is_none (pc_pdp cfg) then Inl PdpRequired
      else if pc_profile cfg = ProfileEastWest \<and> Option.is_none (pc_attestor cfg) then Inl AttestorRequired
      else Inr cfg)"

section \<open>Building the contract request\<close>

text \<open>\<open>net.SplitHostPort\<close>: the host, if the address is well formed.\<close>

definition split_host :: "string \<Rightarrow> string option" where
  "split_host s =
     (case cut_byte CHR '':'' (rev s) of
        None \<Rightarrow> None
      | Some (tr, hr) \<Rightarrow>
          (let port = rev tr; host = rev hr; bad = (\<lambda>x. CHR ''['' \<in> set x \<or> CHR '']'' \<in> set x) in
           if has_prefix s ''['' then
             (case cut_byte CHR '']'' (tl host) of
                Some (inner, []) \<Rightarrow>
                  if CHR ''['' \<in> set inner \<or> bad port then None else Some inner
              | _ \<Rightarrow> None)
           else if CHR '':'' \<in> set host \<or> bad s then None
           else Some host))"

definition client_ip :: "http_request \<Rightarrow> string" where
  "client_ip r = (case split_host (rq_remote r) of Some h \<Rightarrow> h | None \<Rightarrow> rq_remote r)"

definition hex_digits :: string where
  "hex_digits = ''0123456789abcdef''"

text \<open>The twelve random bytes are an argument.\<close>

definition new_correlation_id :: "string \<Rightarrow> string" where
  "new_correlation_id bs =
     ''cid-'' @ concat (map (\<lambda>c. [hex_digits ! (byte_of c div 16), hex_digits ! (byte_of c mod 16)]) bs)"

definition peer_identity :: "(string \<Rightarrow> string option) \<Rightarrow> 'e pep_config \<Rightarrow> http_request \<Rightarrow> string option" where
  "peer_identity id_from_cert cfg r =
     (case Option.bind (rq_cert r) id_from_cert of
        Some i \<Rightarrow> Some i
      | None \<Rightarrow>
          (if pc_require_svid cfg then None
           else if header r HeaderCallerSpiffe = [] then None
           else Some (header r HeaderCallerSpiffe)))"

definition match_route :: "route list \<Rightarrow> string \<Rightarrow> string \<Rightarrow> route option" where
  "match_route rts meth path = find (\<lambda>rt. rt_method rt = meth \<and> rt_path rt = path) rts"

text \<open>The configured body fields, in the order of the route; the body is restored.\<close>

definition pick_props :: "string list \<Rightarrow> gmap \<Rightarrow> gmap" where
  "pick_props ks m =
     foldl (\<lambda>acc k. case mget m k of Some v \<Rightarrow> mput k v acc | None \<Rightarrow> acc) [] ks"

definition resource_props :: "route \<Rightarrow> http_request \<Rightarrow> gmap option \<times> http_request" where
  "resource_props rt r =
     (if rt_props rt = [] then (Some [], r)
      else (case read_all (rq_body r) of
              (None, b) \<Rightarrow> (None, r\<lparr>rq_body := b\<rparr>)
            | (Some raw, b) \<Rightarrow>
                (if raw = [] then Some []
                 else map_option (\<lambda>m. pick_props (rt_props rt) (entries m)) (unmarshal_map raw),
                 r\<lparr>rq_body := Body raw\<rparr>)))"

definition pep_subject :: "'e pep_config \<Rightarrow> http_request \<Rightarrow> string \<Rightarrow> subject" where
  "pep_subject cfg r caller =
     \<lparr>subj_type = SubjectTypeUser, subj_id = header r HeaderSubjectID,
      subj_props = Some
        (let m = mput ''auth_assurance_level'' (VStr (header r HeaderAAL)) [] in
         if pc_profile cfg = ProfileEastWest \<and> caller \<noteq> []
         then mput ''act'' (VObj (mput ''type'' (VStr SubjectTypeWorkload) (mput ''id'' (VStr caller) []))) m
         else m)\<rparr>"

definition pep_context :: "'e pep_config \<Rightarrow> http_request \<Rightarrow> string \<Rightarrow> gmap" where
  "pep_context cfg r cid =
     (let m = mput ''pep'' (VObj (mput ''id'' (VStr (pc_id cfg)) []))
                (mput ''correlation_id'' (VStr cid) (mput ''authz_profile'' (VStr (pc_profile cfg)) [])) in
      if pc_profile cfg = ProfileEdge then mput ''source_ip'' (VStr (client_ip r)) m
      else if pc_profile cfg = ProfilePartner then mput ''partner_id'' (VStr (header r HeaderPartnerID)) m
      else m)"

definition make_request :: "'e pep_config \<Rightarrow> http_request \<Rightarrow> route \<Rightarrow> string \<Rightarrow> string \<Rightarrow> gmap \<Rightarrow> request" where
  "make_request cfg r rt cid caller props =
     \<lparr>req_subject = pep_subject cfg r caller,
      req_action = \<lparr>act_name = rt_action rt, act_props = Some (mput ''method'' (VStr (rq_method r)) [])\<rparr>,
      req_resource = \<lparr>res_type = rt_type rt, res_id = header r HeaderResourceID, res_props = Some props\<rparr>,
      req_context = Some (pep_context cfg r cid)\<rparr>"

definition build_request ::
  "'e pep_config \<Rightarrow> http_request \<Rightarrow> route \<Rightarrow> string \<Rightarrow> string \<Rightarrow> request option \<times> http_request"
where
  "build_request cfg r rt cid caller =
     (case resource_props rt r of (props, r') \<Rightarrow>
        (map_option (make_request cfg r' rt cid caller) props, r'))"

section \<open>Decision tokens and classification\<close>

definition aal_rank :: "string \<Rightarrow> nat" where
  "aal_rank a = (if a = ''AAL1'' then 1 else if a = ''AAL2'' then 2 else if a = ''AAL3'' then 3 else 0)"

definition token_matches :: "claims \<Rightarrow> request \<Rightarrow> bool" where
  "token_matches c req \<longleftrightarrow>
     cl_sub c = subj_id (req_subject req) \<and> cl_act c = act_name (req_action req)
     \<and> cl_res c = res_type (req_resource req) @ ''/'' @ res_id (req_resource req)
     \<and> cl_rd c = resource_digest (res_props (req_resource req))
     \<and> aal_rank (cl_aal c) \<le> aal_rank (auth_assurance_level (req_subject req))"

definition try_token :: "'e pep_config \<Rightarrow> http_request \<Rightarrow> request \<Rightarrow> string \<Rightarrow> outcome option" where
  "try_token cfg r req cid =
     (case pc_verifier cfg of
        None \<Rightarrow> None
      | Some verify \<Rightarrow>
          (let raw = header r HeaderDecisionToken in
           if raw = [] then None
           else (case verify raw of
                   Inl _ \<Rightarrow> None
                 | Inr c \<Rightarrow>
                     if token_matches c req
                     then Some \<lparr>oc_kind = Allow, oc_reason = ''decision_token_reuse'', oc_acr = [],
                                oc_cid = cid, oc_token = raw\<rparr>
                     else None)))"

definition step_up :: "obligation list \<Rightarrow> obligation option" where
  "step_up obs = find (\<lambda>ob. ob_type ob = ObligationStepUp) obs"

definition classify :: "response \<Rightarrow> string \<Rightarrow> outcome" where
  "classify resp cid =
     (if decision resp then
        (case resp_context resp of
           None \<Rightarrow> plain_outcome Allow [] cid
         | Some c \<Rightarrow>
             (plain_outcome Allow (rc_reason c) cid)
               \<lparr>oc_token := (case rc_token c of None \<Rightarrow> [] | Some t \<Rightarrow> tok_value t)\<rparr>)
      else
        (case resp_context resp of
           None \<Rightarrow> plain_outcome DenyForbidden ''forbidden'' cid
         | Some c \<Rightarrow>
             (case step_up (rc_obligations c) of
                Some ob \<Rightarrow>
                  (plain_outcome DenyStepUp (rc_reason c) cid)
                    \<lparr>oc_acr := str_or_empty (get_str (entries (ob_details ob)) ''required_acr'')\<rparr>
              | None \<Rightarrow>
                  plain_outcome DenyForbidden (if rc_reason c = [] then ''forbidden'' else rc_reason c) cid)))"

section \<open>The ladder\<close>

text \<open>
  The outcome and the request as the protected handler will see it; \<open>None\<close> is a panic on a
  nil interface, which \<open>New\<close> rules out.
\<close>

definition check_l2 ::
  "'e pep_config \<Rightarrow> http_request \<Rightarrow> route \<Rightarrow> string \<Rightarrow> string \<Rightarrow> (outcome \<times> http_request) option"
where
  "check_l2 cfg r rt cid caller =
     (case build_request cfg r rt cid caller of
        (None, r') \<Rightarrow> Some (plain_outcome DenyForbidden ''l2_request_build_failed'' cid, r')
      | (Some req, r') \<Rightarrow>
          (case try_token cfg r' req cid of
             Some out \<Rightarrow> Some (out, r')
           | None \<Rightarrow>
               (case pc_pdp cfg of
                  None \<Rightarrow> None
                | Some pdp \<Rightarrow>
                    (case pdp req of
                       Inl _ \<Rightarrow> Some (plain_outcome DenyForbidden ''l2_pdp_unavailable'' cid, r')
                     | Inr resp \<Rightarrow> Some (classify resp cid, r')))))"

definition revoked_subject :: "'e pep_config \<Rightarrow> http_request \<Rightarrow> bool" where
  "revoked_subject cfg r =
     (case pc_revocations cfg of
        None \<Rightarrow> False
      | Some chk \<Rightarrow> header r HeaderSubjectID \<noteq> [] \<and> chk (header r HeaderSubjectID))"

definition check_l1 ::
  "'e pep_config \<Rightarrow> http_request \<Rightarrow> string \<Rightarrow> string \<Rightarrow> (outcome \<times> http_request) option"
where
  "check_l1 cfg r cid caller =
     (case match_route (pc_routes cfg) (rq_method r) (rq_path r) of
        None \<Rightarrow> Some (plain_outcome DenyRoute ''l1_route_not_permitted'' cid, r)
      | Some rt \<Rightarrow>
          if revoked_subject cfg r then Some (plain_outcome DenyForbidden ''session_revoked'' cid, r)
          else check_l2 cfg r rt cid caller)"

definition correlation :: "string \<Rightarrow> http_request \<Rightarrow> string" where
  "correlation fresh r =
     (if header r HeaderCorrelationID = [] then new_correlation_id fresh else header r HeaderCorrelationID)"

definition check ::
  "(string \<Rightarrow> string option) \<Rightarrow> 'e pep_config \<Rightarrow> string \<Rightarrow> http_request \<Rightarrow> (outcome \<times> http_request) option"
where
  "check id_from_cert cfg fresh r =
     (let cid = correlation fresh r; peer = peer_identity id_from_cert cfg r in
      if pc_profile cfg = ProfileEastWest then
        (case peer of
           None \<Rightarrow> Some (plain_outcome DropL0 ''l0_no_peer_svid'' cid, r)
         | Some caller \<Rightarrow>
             (case pc_attestor cfg of
                None \<Rightarrow> None
              | Some att \<Rightarrow>
                  if att caller \<noteq> Some True then Some (plain_outcome DropL0 ''l0_peer_not_attested'' cid, r)
                  else check_l1 cfg r cid caller))
      else check_l1 cfg r cid (str_or_empty peer))"

section \<open>The middleware\<close>

text \<open>
  The response headers set by the PEP, and what it does with the request: hand it to the
  protected handler, or reply.
\<close>

datatype mw_action = Forward http_request | Reply nat string

definition deny_json :: "nat \<Rightarrow> (string \<times> jval) list \<Rightarrow> mw_action" where
  "deny_json st kvs = Reply st (print_j (JObj kvs) @ [CHR 0x0A])"

definition respond :: "profile \<Rightarrow> outcome \<Rightarrow> http_request \<Rightarrow> string smap \<times> mw_action" where
  "respond prof out r =
     (let h = mput HeaderCorrelationID (oc_cid out) [] in
      case oc_kind out of
        Allow \<Rightarrow>
          (let r' = set_header HeaderCorrelationID (oc_cid out) r in
           if oc_token out = [] then (h, Forward r')
           else (mput HeaderDecisionToken (oc_token out) h,
                 Forward (set_header HeaderDecisionToken (oc_token out) r')))
      | DenyStepUp \<Rightarrow>
          (mput ''Content-Type'' ''application/json'' (mput HeaderStepUpRequired (oc_acr out) h),
           if prof = ProfileEdge
           then deny_json 401 [(''error'', JStr ''step_up_required''), (''method'', JStr ''mfa''),
                               (''required_acr'', JStr (oc_acr out))]
           else deny_json 403 [(''error'', JStr ''step_up_required''), (''required_acr'', JStr (oc_acr out))])
      | _ \<Rightarrow>
          (mput ''Content-Type'' ''application/json'' h,
           deny_json 403 [(''error'', JStr (oc_reason out))]))"

definition middleware ::
  "(string \<Rightarrow> string option) \<Rightarrow> 'e pep_config \<Rightarrow> string \<Rightarrow> http_request \<Rightarrow> (string smap \<times> mw_action) option"
where
  "middleware id_from_cert cfg fresh r =
     map_option (\<lambda>(out, r'). respond (pc_profile cfg) out r') (check id_from_cert cfg fresh r)"

end
