(* ===== verification/Wire_Types.thy ===== *)
theory Wire_Types
  imports Go_Typing Pdp_Client Pep
begin

text \<open>
  Type soundness at the program's edges: what the facade decodes from a client, what the PDP
  client decodes from the facade, and what a PEP builds from an HTTP request are well-formed
  contract values, whatever bytes arrived.
\<close>

section \<open>Decoded requests and responses\<close>

lemma dec_struct_inv:
  assumes "dec_struct f strict names v s = Some s'" and "P s" and "value_ok v (Suc d)"
    and "\<And>n v s s'. P s \<Longrightarrow> value_ok v d \<Longrightarrow> f n v s = Some s' \<Longrightarrow> P s'"
  shows "P s'"
  using assms(1-3) dec_fields_inv [of f strict names _ s s' P d, OF _ _ _ _ assms(4)]
  by (auto simp: dec_struct_def value_ok_def split: jval.splits)

text \<open>Well-formed, with maps of at most the given nesting.\<close>

definition subject_ok :: "nat \<Rightarrow> subject \<Rightarrow> bool" where
  "subject_ok d s \<longleftrightarrow> valid_utf8 (subj_type s) \<and> valid_utf8 (subj_id s) \<and> map_ok d (subj_props s)"

definition action_ok :: "nat \<Rightarrow> action \<Rightarrow> bool" where
  "action_ok d a \<longleftrightarrow> valid_utf8 (act_name a) \<and> map_ok d (act_props a)"

definition resource_ok :: "nat \<Rightarrow> resource \<Rightarrow> bool" where
  "resource_ok d s \<longleftrightarrow> valid_utf8 (res_type s) \<and> valid_utf8 (res_id s) \<and> map_ok d (res_props s)"

definition request_ok :: "nat \<Rightarrow> request \<Rightarrow> bool" where
  "request_ok d r \<longleftrightarrow>
     subject_ok d (req_subject r) \<and> action_ok d (req_action r) \<and> resource_ok d (req_resource r)
     \<and> map_ok (Suc d) (req_context r)"

definition obligation_ok :: "nat \<Rightarrow> obligation \<Rightarrow> bool" where
  "obligation_ok d b \<longleftrightarrow> valid_utf8 (ob_type b) \<and> map_ok d (ob_details b)"

lemmas ok_defs = subject_ok_def action_ok_def resource_ok_def request_ok_def obligation_ok_def

lemma map_ok_nil [simp]: "0 < d \<Longrightarrow> map_ok d None"
  by (simp add: map_ok_def)

lemma map_ok_Suc: "map_ok d m \<Longrightarrow> map_ok (Suc d) m"
  by (simp add: map_ok_def)

lemma request_ok_fits: "request_ok (max_depth - 2) r \<Longrightarrow> fits r"
  by (simp add: ok_defs map_ok_def fits_def wf_request_def request_depth_def max_depth_def)

lemma dec_subject_ok:
  "dec_subject strict v s = Some s' \<Longrightarrow> subject_ok d s \<Longrightarrow> value_ok v (Suc d) \<Longrightarrow> subject_ok d s'"
  unfolding dec_subject_def
  by (erule dec_struct_inv [where P = "subject_ok d"])
     (auto simp: subject_ok_def dec_str_ok dec_map_ok split: if_splits)

lemma dec_action_ok:
  "dec_action strict v s = Some s' \<Longrightarrow> action_ok d s \<Longrightarrow> value_ok v (Suc d) \<Longrightarrow> action_ok d s'"
  unfolding dec_action_def
  by (erule dec_struct_inv [where P = "action_ok d"])
     (auto simp: action_ok_def dec_str_ok dec_map_ok split: if_splits)

lemma dec_resource_ok:
  "dec_resource strict v s = Some s' \<Longrightarrow> resource_ok d s \<Longrightarrow> value_ok v (Suc d) \<Longrightarrow> resource_ok d s'"
  unfolding dec_resource_def
  by (erule dec_struct_inv [where P = "resource_ok d"])
     (auto simp: resource_ok_def dec_str_ok dec_map_ok split: if_splits)

lemma dec_request_ok:
  "dec_request strict v s = Some s' \<Longrightarrow> request_ok d s \<Longrightarrow> value_ok v (Suc (Suc d)) \<Longrightarrow> request_ok d s'"
  unfolding dec_request_def
  by (erule dec_struct_inv [where P = "request_ok d"])
     (auto simp: request_ok_def dec_subject_ok dec_action_ok dec_resource_ok dec_map_ok split: if_splits)

lemma zero_request_ok: "0 < d \<Longrightarrow> request_ok d zero_request"
  by (simp add: ok_defs zero_request_def zero_subject_def zero_action_def zero_resource_def)

lemma decode_request_ok: "decode_request b = Some r \<Longrightarrow> request_ok (max_depth - 2) r"
proof -
  assume "decode_request b = Some r"
  then obtain v where "json_decode b = Some v" "dec_request True v zero_request = Some r"
    by (auto simp: decode_request_def split: bind_splits)
  moreover from this(1) have "value_ok v (Suc (Suc (max_depth - 2)))"
    using json_decode_ok [of b v] by (simp add: max_depth_def value_ok_def)
  moreover have "request_ok (max_depth - 2) zero_request" by (rule zero_request_ok) (simp add: max_depth_def)
  ultimately show ?thesis using dec_request_ok by blast
qed

lemma dec_obligation_ok:
  "dec_obligation v s = Some s' \<Longrightarrow> obligation_ok d s \<Longrightarrow> value_ok v (Suc d) \<Longrightarrow> obligation_ok d s'"
  unfolding dec_obligation_def
  by (erule dec_struct_inv [where P = "obligation_ok d"])
     (auto simp: obligation_ok_def dec_str_ok dec_map_ok split: if_splits)

lemma dec_obligations_ok:
  "dec_obligations old vs = Some bs \<Longrightarrow> list_all (obligation_ok d) old \<Longrightarrow> 0 < d \<Longrightarrow>
   jvalid_list vs \<Longrightarrow> jdepth_list vs \<le> Suc d \<Longrightarrow> list_all (obligation_ok d) bs"
proof (induction old vs arbitrary: bs rule: dec_obligations.induct)
  case (2 old v vs)
  from "2.prems"(1) obtain b cs where b: "dec_obligation v (case old of [] \<Rightarrow> zero_obligation | b # _ \<Rightarrow> b) = Some b"
    "dec_obligations (tl old) vs = Some cs" "bs = b # cs"
    by (auto split: option.splits)
  have "obligation_ok d (case old of [] \<Rightarrow> zero_obligation | b # _ \<Rightarrow> b)"
    using "2.prems"(2,3) by (cases old) (simp_all add: obligation_ok_def zero_obligation_def)
  moreover have "list_all (obligation_ok d) (tl old)" using "2.prems"(2) by (cases old) simp_all
  moreover have "value_ok v (Suc d)" using "2.prems"(4,5) by (simp add: value_ok_def)
  ultimately show ?case using dec_obligation_ok [OF b(1)] "2.IH" [OF b(1) b(2)] "2.prems" b(3) by simp
qed simp

definition token_ok :: "decision_token \<Rightarrow> bool" where
  "token_ok t \<longleftrightarrow> valid_utf8 (tok_value t) \<and> in_int64 (tok_ttl t)"

definition context_ok :: "nat \<Rightarrow> response_context \<Rightarrow> bool" where
  "context_ok d c \<longleftrightarrow>
     (case rc_token c of None \<Rightarrow> True | Some t \<Rightarrow> token_ok t) \<and> list_all (obligation_ok d) (rc_obligations c)
     \<and> valid_utf8 (rc_reason c)"

definition response_ok :: "nat \<Rightarrow> response \<Rightarrow> bool" where
  "response_ok d r \<longleftrightarrow> (case resp_context r of None \<Rightarrow> True | Some c \<Rightarrow> context_ok d c)"

lemma dec_ptr_ok:
  assumes "dec_ptr f z v p = Some p'" and "case p of None \<Rightarrow> True | Some x \<Rightarrow> P x" and "P z"
    and "\<And>x y. f v x = Some y \<Longrightarrow> P x \<Longrightarrow> P y"
  shows "case p' of None \<Rightarrow> True | Some x \<Rightarrow> P x"
  using assms by (auto simp: dec_ptr_def split: if_splits option.splits)

lemma dec_token_ok: "dec_token v s = Some s' \<Longrightarrow> token_ok s \<Longrightarrow> value_ok v (Suc d) \<Longrightarrow> token_ok s'"
  unfolding dec_token_def
  by (erule dec_struct_inv [where P = token_ok]) (auto simp: token_ok_def dec_str_ok dec_int_ok split: if_splits)

lemma zero_token_ok: "token_ok zero_token"
  by (simp add: token_ok_def zero_token_def in_int64_def)

lemma dec_context_ok:
  assumes "dec_context v s = Some s'" and "context_ok d s" and "value_ok v (Suc (Suc (Suc d)))" and "0 < d"
  shows "context_ok d s'"
proof -
  have tok: "case t' of None \<Rightarrow> True | Some x \<Rightarrow> token_ok x"
    if "dec_ptr dec_token zero_token v t = Some t'" "value_ok v (Suc (Suc d))"
      "case t of None \<Rightarrow> True | Some x \<Rightarrow> token_ok x" for v t t'
    using dec_ptr_ok [OF that(1,3) zero_token_ok] dec_token_ok that(2) by blast
  have obs: "list_all (obligation_ok d) bs"
    if "dec_slice v old = Some bs" "value_ok v (Suc (Suc d))" "list_all (obligation_ok d) old" for v old bs
    using that dec_obligations_ok [OF _ that(3) assms(4)]
    by (auto simp: dec_slice_def value_ok_def split: jval.splits)
  show ?thesis
    using assms(1) unfolding dec_context_def
    by (rule dec_struct_inv [where P = "context_ok d", OF _ assms(2,3)])
       (auto simp: context_ok_def tok obs dec_str_ok split: if_splits)
qed

lemma decode_response_ok: "decode_response b = Some s \<Longrightarrow> response_ok (max_depth - 4) s"
proof -
  assume "decode_response b = Some s"
  then obtain v where v: "json_decode b = Some v" "dec_response v zero_response = Some s"
    by (auto simp: decode_response_def split: bind_splits)
  let ?d = "max_depth - 4"
  have d: "0 < ?d" and md: "max_depth = Suc (Suc (Suc (Suc ?d)))" by (simp_all add: max_depth_def)
  have z: "context_ok ?d zero_context" by (simp add: context_ok_def zero_context_def)
  have c: "case c' of None \<Rightarrow> True | Some x \<Rightarrow> context_ok ?d x"
    if "dec_ptr dec_context zero_context v c = Some c'" "value_ok v (Suc (Suc (Suc ?d)))"
      "case c of None \<Rightarrow> True | Some x \<Rightarrow> context_ok ?d x" for v c c'
    using dec_ptr_ok [OF that(1,3) z] dec_context_ok that(2) d by blast
  have vo: "value_ok v (Suc (Suc (Suc (Suc ?d))))" using json_decode_ok [OF v(1)] md by metis
  have zr: "response_ok ?d zero_response" by (simp add: response_ok_def zero_response_def)
  show ?thesis
    using v(2) unfolding dec_response_def
    by (rule dec_struct_inv [where P = "response_ok ?d", OF _ zr vo])
       (auto simp: response_ok_def c split: if_splits)
qed

lemma response_ok_fits: "response_ok (max_depth - 4) s \<Longrightarrow> fits_response s"
proof -
  assume a: "response_ok (max_depth - 4) s"
  have "details_depth bs \<le> max_depth - 4" if "list_all (obligation_ok (max_depth - 4)) bs" for bs
    using that by (induction bs) (auto simp: details_depth_def obligation_ok_def map_ok_def)
  moreover have "list_all wf_obligation bs" if "list_all (obligation_ok (max_depth - 4)) bs" for bs
    using that by (induction bs) (auto simp: wf_obligation_def obligation_ok_def map_ok_def)
  ultimately show ?thesis
    using a by (auto simp: response_ok_def context_ok_def fits_response_def wf_response_def wf_context_def
        response_depth_def token_ok_def wf_token_def max_depth_def split: option.splits)
qed

section \<open>Built requests\<close>

text \<open>
  What the PEP takes from its configuration and from the HTTP request has to be text.  Headers
  may carry any bytes from 0x80 up, so their validity is a condition; addresses come from the
  listener, and are ASCII.
\<close>

definition texts_ok :: "'e pep_config \<Rightarrow> bool" where
  "texts_ok cfg \<longleftrightarrow> valid_utf8 (pc_profile cfg) \<and> valid_utf8 (pc_id cfg)
     \<and> list_all (\<lambda>rt. valid_utf8 (rt_action rt) \<and> valid_utf8 (rt_type rt)
                    \<and> list_all valid_utf8 (rt_props rt)) (pc_routes cfg)"

definition http_ok :: "http_request \<Rightarrow> bool" where
  "http_ok r \<longleftrightarrow> valid_utf8 (rq_method r) \<and> list_all (\<lambda>(k, v). valid_utf8 v) (rq_headers r) \<and> ascii (rq_remote r)"

lemma header_valid: "http_ok r \<Longrightarrow> valid_utf8 (header r k)"
proof -
  assume "http_ok r"
  then have "list_all (\<lambda>(k, v). valid_utf8 v) (rq_headers r)" by (simp add: http_ok_def)
  then have "mget (rq_headers r) k = Some v \<Longrightarrow> valid_utf8 v" for v
    by (auto simp: mget_def list_all_iff dest: map_of_SomeD)
  then show ?thesis by (cases "mget (rq_headers r) k") (auto simp: header_def str_or_empty_def)
qed

lemma ascii_sub: "ascii s \<Longrightarrow> set t \<subseteq> set s \<Longrightarrow> ascii t"
  by (auto simp: ascii_def list_all_iff)

lemma split_host_sub: "split_host s = Some h \<Longrightarrow> set h \<subseteq> set s"
proof -
  assume h: "split_host s = Some h"
  then obtain tr hr where c: "cut_byte CHR '':'' (rev s) = Some (tr, hr)"
    by (auto simp: split_host_def split: option.splits)
  then have "set (rev s) = set (tr @ CHR '':'' # hr)" using cut_byte_SomeD by metis
  then have host: "set (rev hr) \<subseteq> set s" by auto
  have "h = rev hr \<or> (\<exists>rest. cut_byte CHR '']'' (tl (rev hr)) = Some (h, rest))"
    using h c by (auto simp: split_host_def Let_def split: option.splits list.splits prod.splits if_splits)
  then show ?thesis
  proof
    assume "\<exists>rest. cut_byte CHR '']'' (tl (rev hr)) = Some (h, rest)"
    then obtain rest where "tl (rev hr) = h @ CHR '']'' # rest" using cut_byte_SomeD by metis
    then have "set h \<subseteq> set (tl (rev hr))" by auto
    then show ?thesis using host list.set_sel(2) [of "rev hr"] by (cases "rev hr") auto
  qed (use host in simp)
qed

lemma client_ip_valid: "http_ok r \<Longrightarrow> valid_utf8 (client_ip r)"
  unfolding client_ip_def http_ok_def
  by (auto split: option.split intro!: ascii_valid dest: split_host_sub ascii_sub)

lemma new_correlation_id_valid: "valid_utf8 (new_correlation_id bs)"
proof (intro ascii_valid)
  have "ascii [hex_digits ! i]" if "i < 16" for i
  proof -
    have "list_all (\<lambda>c. byte_of c < 0x80) hex_digits" "length hex_digits = 16" by (simp_all add: hex_digits_def)
    then show ?thesis using that by (simp add: list_all_length ascii_def)
  qed
  moreover have "byte_of c div 16 < 16" "byte_of c mod 16 < 16" for c :: char
    by (simp_all add: less_mult_imp_div_less)
  ultimately have "ascii [hex_digits ! (byte_of c div 16), hex_digits ! (byte_of c mod 16)]" for c
    by (simp add: ascii_def)
  then have "ascii (concat (map (\<lambda>c. [hex_digits ! (byte_of c div 16), hex_digits ! (byte_of c mod 16)]) bs))"
    by (induction bs) (auto simp: ascii_def)
  then show "ascii (new_correlation_id bs)" by (simp add: new_correlation_id_def ascii_def)
qed

lemma correlation_valid: "http_ok r \<Longrightarrow> valid_utf8 (correlation fresh r)"
  by (simp add: correlation_def header_valid new_correlation_id_valid)

lemma pick_props_ok:
  assumes "list_all valid_utf8 ks" and "wf_map m"
  shows "wf_map (pick_props ks m) \<and> gdepth_mems (pick_props ks m) \<le> gdepth_mems m"
proof -
  have depth: "gdepth v \<le> gdepth_mems m" if "mget m k = Some v" for k v
    using that by (induction m) (auto simp: mget_def le_max_iff_disj split: if_splits)
  have "wf_map acc \<Longrightarrow> gdepth_mems acc \<le> gdepth_mems m \<Longrightarrow>
      (let res = foldl (\<lambda>acc k. case mget m k of Some v \<Rightarrow> mput k v acc | None \<Rightarrow> acc) acc ks
       in wf_map res \<and> gdepth_mems res \<le> gdepth_mems m)" for acc
    using assms(1)
  proof (induction ks arbitrary: acc)
    case (Cons k ks)
    show ?case
    proof (cases "mget m k")
      case (Some v)
      have "wf_val v" using wf_mems_get [OF _ Some] assms(2) by simp
      then have "wf_map (mput k v acc)" using Cons.prems by (simp add: smap_wf_mput wf_mems_mput)
      moreover have "gdepth_mems (mput k v acc) \<le> gdepth_mems m"
        using gdepth_mput [of k v acc] depth [OF Some] Cons.prems(2) by linarith
      ultimately show ?thesis using Cons.IH [of "mput k v acc"] Cons.prems(3) Some by simp
    qed (use Cons in simp)
  qed simp
  from this [of "[]"] show ?thesis by (simp add: pick_props_def Let_def)
qed

lemma resource_props_ok:
  assumes "list_all valid_utf8 (rt_props rt)" and "resource_props rt r = (Some props, r')"
    and "\<And>raw m. rq_body r = Body raw \<Longrightarrow> unmarshal_map raw = Some m \<Longrightarrow> gdepth (VObj (entries m)) \<le> Suc d"
  shows "map_ok (Suc d) (Some props)"
proof -
  consider "props = []" | raw m where "rq_body r = Body raw" "unmarshal_map raw = Some m" "props = pick_props (rt_props rt) (entries m)"
    using assms(2) by (cases "rq_body r") (auto simp: resource_props_def split: if_splits)
  then show ?thesis
  proof cases
    case 2
    then obtain v where "json_parse raw = Some v" "dec_map v None = Some m"
      by (auto simp: unmarshal_map_def split: bind_splits)
    moreover have "map_ok max_depth None" by (simp add: max_depth_def)
    ultimately have "map_ok max_depth m" using json_parse_ok dec_map_ok by blast
    then have "wf_map (entries m)" by (simp add: map_ok_def)
    then show ?thesis using pick_props_ok [OF assms(1)] assms(3) [OF 2(1,2)] 2(3) by (fastforce simp: map_ok_def)
  qed (simp add: map_ok_def)
qed

lemma resource_props_parts:
  "resource_props rt r = (props, r') \<Longrightarrow> rq_method r' = rq_method r \<and> rq_headers r' = rq_headers r \<and> rq_remote r' = rq_remote r"
  by (auto simp: resource_props_def split: if_splits prod.splits option.splits)

text \<open>
  A request built from texts is well-formed; its properties are two levels deeper in it than in
  the body they came from, so it fits the decoder's limit if the body stays two levels below.
\<close>

definition body_shallow :: "http_request \<Rightarrow> bool" where
  "body_shallow r \<longleftrightarrow>
     (\<forall>raw m. rq_body r = Body raw \<and> unmarshal_map raw = Some m \<longrightarrow> gdepth (VObj (entries m)) \<le> max_depth - 2)"

lemma built_request_ok:
  assumes "texts_ok cfg" and "http_ok r" and "body_shallow r" and "rt \<in> set (pc_routes cfg)"
    and "valid_utf8 cid" and "valid_utf8 caller"
    and "fst (build_request cfg r rt cid caller) = Some req"
  shows "request_ok (max_depth - 2) req"
proof -
  obtain props r' where b: "resource_props rt r = (Some props, r')" "req = make_request cfg r' rt cid caller props"
    using assms(7) by (auto simp: build_request_def split: prod.splits)
  have rt: "valid_utf8 (rt_action rt)" "valid_utf8 (rt_type rt)" "list_all valid_utf8 (rt_props rt)"
    using assms(1,4) by (auto simp: texts_ok_def list_all_iff)
  have h: "http_ok r'" using resource_props_parts [OF b(1)] assms(2) by (simp add: http_ok_def)
  have "map_ok (Suc (max_depth - 3)) (Some props)"
    using resource_props_ok [OF rt(3) b(1), of "max_depth - 3"] assms(3) by (auto simp: body_shallow_def max_depth_def)
  then have p: "map_ok (max_depth - 2) (Some props)" by (simp add: max_depth_def)
  have names: "valid_utf8 ''user''" "valid_utf8 ''workload''" "valid_utf8 ''auth_assurance_level''" "valid_utf8 ''act''"
    "valid_utf8 ''type''" "valid_utf8 ''id''" "valid_utf8 ''pep''" "valid_utf8 ''correlation_id''"
    "valid_utf8 ''authz_profile''" "valid_utf8 ''source_ip''" "valid_utf8 ''partner_id''" "valid_utf8 ''method''"
    by (auto simp: ascii_def intro!: ascii_valid)
  have "subject_ok (max_depth - 2) (pep_subject cfg r' caller)"
    using names assms(6) header_valid [OF h]
    by (simp add: pep_subject_def subject_ok_def map_ok_def SubjectTypeUser_def SubjectTypeWorkload_def smap_wf_def
        max_depth_def Let_def)
  moreover have "action_ok (max_depth - 2) (req_action req)"
    using names rt h by (simp add: b(2) make_request_def action_ok_def map_ok_def smap_wf_def http_ok_def max_depth_def)
  moreover have "resource_ok (max_depth - 2) (req_resource req)"
    using p rt header_valid [OF h] by (simp add: b(2) make_request_def resource_ok_def)
  moreover have "map_ok (Suc (max_depth - 2)) (Some (pep_context cfg r' cid))"
    using names assms(1,5) header_valid [OF h] client_ip_valid [OF h]
    by (auto simp: pep_context_def map_ok_def texts_ok_def smap_wf_def max_depth_def Let_def)
  ultimately show ?thesis by (simp add: request_ok_def b(2) make_request_def)
qed

lemma caller_valid:
  "http_ok r \<Longrightarrow> (\<And>c i. idc c = Some i \<Longrightarrow> valid_utf8 i) \<Longrightarrow> valid_utf8 (str_or_empty (peer_identity idc cfg r))"
  by (auto simp: peer_identity_def str_or_empty_def header_valid split: option.splits bind_splits)

section \<open>Properties\<close>

text \<open>
  C36.  Whatever bytes a client posts to the facade, and whatever bytes the facade's answer
  consists of, the request or response decoded from them is well-formed: valid UTF-8 in every
  string and key, sorted maps without duplicates, canonical finite numbers, a TTL of 64 bits,
  and a nesting that can be encoded and decoded again.
\<close>

theorem decoded_values_typed:
  "(case decode_request body of
      None \<Rightarrow> True
    | Some r \<Rightarrow> wf_request r \<and> request_depth r \<le> max_depth
        \<and> decode_request (marshal_request r) = Some (norm_request r))
   \<and> (case decode_response reply of
      None \<Rightarrow> True
    | Some s \<Rightarrow> wf_response s \<and> response_depth s \<le> max_depth
        \<and> decode_response (encode_response s) = Some (norm_response s))"
proof (intro conjI)
  show "case decode_request body of
      None \<Rightarrow> True
    | Some r \<Rightarrow> wf_request r \<and> request_depth r \<le> max_depth
        \<and> decode_request (marshal_request r) = Some (norm_request r)"
    using request_ok_fits [OF decode_request_ok [of body]]
    by (auto simp: fits_def decode_marshal_request split: option.split)
  show "case decode_response reply of
      None \<Rightarrow> True
    | Some s \<Rightarrow> wf_response s \<and> response_depth s \<le> max_depth
        \<and> decode_response (encode_response s) = Some (norm_response s)"
    using response_ok_fits [OF decode_response_ok [of reply]]
    by (auto simp: fits_response_def decode_encode_response split: option.split)
qed

end
