(* ===== verification/Rw_Lock.thy ===== *)
theory Rw_Lock
  imports Zta_Prelude
begin

text \<open>
  Values behind a \<open>sync.RWMutex\<close>, called from many goroutines: a call waits for the lock
  (exclusive or shared), is inside its critical section for some time, and leaves.  What the
  development treats as one atomic step, a method between \<open>Lock\<close> and \<open>Unlock\<close>, is here several
  steps of one goroutine, interleaved with those of all others.  The locale states what a component owes
  (methods under the shared lock do not write) and proves what it gets: no data race, and a
  sequential history that explains every answer.  It is interpreted by the revocation cache and
  the rotating SVID source.
\<close>

section \<open>Goroutines and the lock\<close>

datatype 'op phase = Outside | Waiting 'op | Inside 'op | Leaving 'op

text \<open>
  The guarded value, the holder of the exclusive lock, the holders of the shared lock, what each goroutine is
  doing, and the calls in the order in which their critical sections took effect.
\<close>

record ('v, 'op, 'r) rw_state =
  rw_value :: 'v
  rw_writer :: "nat option"
  rw_readers :: "nat set"
  rw_phase :: "nat \<Rightarrow> 'op phase"
  rw_log :: "(nat \<times> 'op \<times> 'r) list"

definition rw_init :: "'v \<Rightarrow> ('v, 'op, 'r) rw_state" where
  "rw_init v = \<lparr>rw_value = v, rw_writer = None, rw_readers = {}, rw_phase = (\<lambda>_. Outside), rw_log = []\<rparr>"

inductive rw_step ::
  "('op \<Rightarrow> bool) \<Rightarrow> ('op \<Rightarrow> 'v \<Rightarrow> 'v) \<Rightarrow> ('op \<Rightarrow> 'v \<Rightarrow> 'r)
     \<Rightarrow> ('v, 'op, 'r) rw_state \<Rightarrow> ('v, 'op, 'r) rw_state \<Rightarrow> bool"
  for excl :: "'op \<Rightarrow> bool" and eff :: "'op \<Rightarrow> 'v \<Rightarrow> 'v" and res :: "'op \<Rightarrow> 'v \<Rightarrow> 'r"
where
  rw_call: "rw_phase s t = Outside \<Longrightarrow>
     rw_step excl eff res s (s\<lparr>rw_phase := (rw_phase s)(t := Waiting c)\<rparr>)"
| rw_lock: "rw_phase s t = Waiting c \<Longrightarrow> excl c \<Longrightarrow> rw_writer s = None \<Longrightarrow> rw_readers s = {} \<Longrightarrow>
     rw_step excl eff res s (s\<lparr>rw_writer := Some t, rw_phase := (rw_phase s)(t := Inside c)\<rparr>)"
| rw_rlock: "rw_phase s t = Waiting c \<Longrightarrow> \<not> excl c \<Longrightarrow> rw_writer s = None \<Longrightarrow>
     rw_step excl eff res s (s\<lparr>rw_readers := insert t (rw_readers s), rw_phase := (rw_phase s)(t := Inside c)\<rparr>)"
| rw_access: "rw_phase s t = Inside c \<Longrightarrow>
     rw_step excl eff res s (s\<lparr>rw_value := eff c (rw_value s), rw_phase := (rw_phase s)(t := Leaving c),
        rw_log := rw_log s @ [(t, c, res c (rw_value s))]\<rparr>)"
| rw_unlock: "rw_phase s t = Leaving c \<Longrightarrow> excl c \<Longrightarrow>
     rw_step excl eff res s (s\<lparr>rw_writer := None, rw_phase := (rw_phase s)(t := Outside)\<rparr>)"
| rw_runlock: "rw_phase s t = Leaving c \<Longrightarrow> \<not> excl c \<Longrightarrow>
     rw_step excl eff res s (s\<lparr>rw_readers := rw_readers s - {t}, rw_phase := (rw_phase s)(t := Outside)\<rparr>)"

inductive_cases rw_stepE: "rw_step excl eff res s s'"

inductive rw_reachable ::
  "('op \<Rightarrow> bool) \<Rightarrow> ('op \<Rightarrow> 'v \<Rightarrow> 'v) \<Rightarrow> ('op \<Rightarrow> 'v \<Rightarrow> 'r) \<Rightarrow> 'v \<Rightarrow> ('v, 'op, 'r) rw_state \<Rightarrow> bool"
  for excl eff res v
where
  rw_start: "rw_reachable excl eff res v (rw_init v)"
| rw_next: "rw_reachable excl eff res v s \<Longrightarrow> rw_step excl eff res s s' \<Longrightarrow> rw_reachable excl eff res v s'"

text \<open>A sequential history: each answer is that of its call on the value the calls before it left.\<close>

fun sequential :: "('op \<Rightarrow> 'v \<Rightarrow> 'v) \<Rightarrow> ('op \<Rightarrow> 'v \<Rightarrow> 'r) \<Rightarrow> 'v \<Rightarrow> (nat \<times> 'op \<times> 'r) list \<Rightarrow> 'v \<Rightarrow> bool" where
  "sequential eff res v [] v' \<longleftrightarrow> v' = v"
| "sequential eff res v ((t, c, r) # es) v' \<longleftrightarrow> r = res c v \<and> sequential eff res (eff c v) es v'"

lemma sequential_snoc:
  "sequential eff res v es w \<Longrightarrow> sequential eff res v (es @ [(t, c, res c w)]) (eff c w)"
  by (induction es arbitrary: v) auto

lemma sequential_value:
  "sequential eff res v es w \<Longrightarrow> w = fold (\<lambda>(t, c, r). eff c) es v"
  by (induction es arbitrary: v) auto

lemma sequential_answer:
  "sequential eff res v (es @ (t, c, r) # es') w \<Longrightarrow> r = res c (fold (\<lambda>(t, c, r). eff c) es v)"
  by (induction es arbitrary: v) auto

section \<open>The discipline\<close>

fun holds_lock :: "'op phase \<Rightarrow> 'op option" where
  "holds_lock (Inside c) = Some c"
| "holds_lock (Leaving c) = Some c"
| "holds_lock _ = None"

text \<open>Lock and goroutines agree.\<close>

definition lock_ok :: "('op \<Rightarrow> bool) \<Rightarrow> ('v, 'op, 'r) rw_state \<Rightarrow> bool" where
  "lock_ok excl s \<longleftrightarrow>
     (\<forall>t. rw_writer s = Some t \<longleftrightarrow> (\<exists>c. holds_lock (rw_phase s t) = Some c \<and> excl c))
   \<and> (\<forall>t. t \<in> rw_readers s \<longleftrightarrow> (\<exists>c. holds_lock (rw_phase s t) = Some c \<and> \<not> excl c))
   \<and> (rw_writer s \<noteq> None \<longrightarrow> rw_readers s = {})"

text \<open>Two accesses to the value overlap and one of them may write.\<close>

definition races :: "('op \<Rightarrow> 'v \<Rightarrow> 'v) \<Rightarrow> ('v, 'op, 'r) rw_state \<Rightarrow> bool" where
  "races eff s \<longleftrightarrow>
     (\<exists>t u c d. t \<noteq> u \<and> rw_phase s t = Inside c \<and> rw_phase s u = Inside d \<and> eff c \<noteq> id)"

lemma lock_ok_init: "lock_ok excl (rw_init v)"
  by (simp add: lock_ok_def rw_init_def)

lemma lock_ok_step:
  assumes "rw_step excl eff res s s'" and "lock_ok excl s"
  shows "lock_ok excl s'"
  using assms
proof (induction rule: rw_step.induct)
  case (rw_lock s t c)
  then have "holds_lock (rw_phase s u) = None" for u
    by (cases "holds_lock (rw_phase s u)") (auto simp: lock_ok_def)
  with rw_lock show ?case by (auto simp: lock_ok_def)
next
  case (rw_unlock s t c)
  then have "rw_writer s = Some t" by (auto simp: lock_ok_def)
  moreover from this rw_unlock(3) have "rw_readers s = {}" by (auto simp: lock_ok_def)
  ultimately have w: "rw_writer s = Some t" "rw_readers s = {}" by simp_all
  have free: "holds_lock (rw_phase s u) = None" if "u \<noteq> t" for u
  proof (cases "holds_lock (rw_phase s u)")
    case (Some d)
    then show ?thesis using rw_unlock(3) w that by (cases "excl d") (auto simp: lock_ok_def)
  qed
  have none: "holds_lock (((rw_phase s)(t := Outside)) u) = None" for u by (simp add: free)
  show ?case unfolding lock_ok_def by (simp add: none w(2) del: fun_upd_apply)
qed (auto simp: lock_ok_def)

lemma reachable_lock_ok: "rw_reachable excl eff res v s \<Longrightarrow> lock_ok excl s"
  by (induction rule: rw_reachable.induct) (auto intro: lock_ok_init lock_ok_step)

lemma outside_again [simp]: "(\<lambda>_. Outside)(t := Outside) = (\<lambda>_. Outside)"
  by auto

text \<open>A goroutine that finds the lock free can make a whole call.\<close>

lemma whole_call:
  assumes "rw_reachable excl eff res v s" and "rw_phase s = (\<lambda>_. Outside)" and "rw_writer s = None" and "rw_readers s = {}"
  shows "rw_reachable excl eff res v
     (s\<lparr>rw_value := eff c (rw_value s), rw_log := rw_log s @ [(t, c, res c (rw_value s))]\<rparr>)"
proof -
  note nxt = rw_next [where excl = excl and eff = eff and res = res and v = v]
  have w: "rw_reachable excl eff res v (s\<lparr>rw_phase := (\<lambda>_. Outside)(t := Waiting c)\<rparr>)"
    using nxt [OF assms(1) rw_call [of s t excl eff res c]] assms(2) by simp
  show ?thesis
  proof (cases "excl c")
    case True
    have "rw_reachable excl eff res v (s\<lparr>rw_writer := Some t, rw_phase := (\<lambda>_. Outside)(t := Inside c)\<rparr>)"
      using nxt [OF w rw_lock [of _ t c]] True assms(3,4) by simp
    from nxt [OF this rw_access [of _ t c]] have
      "rw_reachable excl eff res v (s\<lparr>rw_value := eff c (rw_value s), rw_writer := Some t,
         rw_phase := (\<lambda>_. Outside)(t := Leaving c), rw_log := rw_log s @ [(t, c, res c (rw_value s))]\<rparr>)" by (cases s) simp
    from nxt [OF this rw_unlock [of _ t c]] True show ?thesis using assms(2,3) by (cases s) simp
  next
    case False
    have "rw_reachable excl eff res v (s\<lparr>rw_readers := {t}, rw_phase := (\<lambda>_. Outside)(t := Inside c)\<rparr>)"
      using nxt [OF w rw_rlock [of _ t c]] False assms(3,4) by simp
    from nxt [OF this rw_access [of _ t c]] have
      "rw_reachable excl eff res v (s\<lparr>rw_value := eff c (rw_value s), rw_readers := {t},
         rw_phase := (\<lambda>_. Outside)(t := Leaving c), rw_log := rw_log s @ [(t, c, res c (rw_value s))]\<rparr>)" by (cases s) simp
    from nxt [OF this rw_runlock [of _ t c]] False show ?thesis using assms(2,4) by (cases s) simp
  qed
qed

locale rw_guarded =
  fixes excl :: "'op \<Rightarrow> bool" and eff :: "'op \<Rightarrow> 'v \<Rightarrow> 'v" and res :: "'op \<Rightarrow> 'v \<Rightarrow> 'r"
  assumes shared_pure: "\<not> excl c \<Longrightarrow> eff c = id"
begin

lemma no_race:
  assumes "rw_reachable excl eff res v s"
  shows "\<not> races eff s"
proof
  assume "races eff s"
  then obtain t u c d where n: "t \<noteq> u" "rw_phase s t = Inside c" "rw_phase s u = Inside d" "eff c \<noteq> id"
    by (auto simp: races_def)
  have ok: "lock_ok excl s" by (rule reachable_lock_ok [OF assms])
  have "excl c" using n(4) shared_pure by blast
  then have w: "rw_writer s = Some t" using ok n(2) by (auto simp: lock_ok_def)
  show False
  proof (cases "excl d")
    case True
    then have "rw_writer s = Some u" using ok n(3) by (auto simp: lock_ok_def)
    with w n(1) show False by simp
  next
    case False
    then have "u \<in> rw_readers s" using ok n(3) by (auto simp: lock_ok_def)
    with w ok show False by (auto simp: lock_ok_def)
  qed
qed

lemma linearizable: "rw_reachable excl eff res v s \<Longrightarrow> sequential eff res v (rw_log s) (rw_value s)"
proof (induction rule: rw_reachable.induct)
  case rw_start
  then show ?case by (simp add: rw_init_def)
next
  case (rw_next s s')
  from rw_next(2,3) show ?case by (auto elim!: rw_stepE intro: sequential_snoc)
qed

end

end
