(* ===== verification/Caep.thy ===== *)
theory Caep
  imports Token Rw_Lock
begin

text \<open>
  Continuous access evaluation (\<open>signals/caep\<close>): security event tokens (\<open>caep.go\<close>), the
  revocation cache (\<open>cache.go\<close>), the push receiver and the transmitter (\<open>http.go\<close>).  The
  receiver meets its sink through the locale \<open>revocation_store\<close>, which the cache interprets; the
  cache's locking interprets \<open>rw_guarded\<close>.
\<close>

section \<open>Events and their tokens\<close>

definition EventSessionRevoked :: string where "EventSessionRevoked = ''session-revoked''"
definition EventSessionRestored :: string where "EventSessionRestored = ''session-restored''"

record event =
  ev_type :: string
  ev_sub :: string
  ev_iat :: int

definition zero_event :: event where
  "zero_event = \<lparr>ev_type = [], ev_sub = [], ev_iat = 0\<rparr>"

definition event_j :: "event \<Rightarrow> jval" where
  "event_j e = JObj [(''type'', JStr (ev_type e)), (''sub'', JStr (ev_sub e)), (''iat'', int_j (ev_iat e))]"

definition dec_event :: "jval \<Rightarrow> event \<Rightarrow> event option" where
  "dec_event =
     dec_struct (\<lambda>n v e.
         if n = ''type'' then map_option (\<lambda>x. e\<lparr>ev_type := x\<rparr>) (dec_str v (ev_type e))
         else if n = ''sub'' then map_option (\<lambda>x. e\<lparr>ev_sub := x\<rparr>) (dec_str v (ev_sub e))
         else map_option (\<lambda>x. e\<lparr>ev_iat := x\<rparr>) (dec_int v (ev_iat e)))
       False [''type'', ''sub'', ''iat'']"

definition unmarshal_event :: "string \<Rightarrow> event option" where
  "unmarshal_event s = Option.bind (json_parse s) (\<lambda>v. dec_event v zero_event)"

definition sign_event :: "string \<Rightarrow> int \<Rightarrow> event \<Rightarrow> string" where
  "sign_event secret now e = seal secret (print_j (event_j (e\<lparr>ev_iat := unix now\<rparr>)))"

datatype set_error = SetEnvelope envelope_error | SetBadEvent

definition verify_set :: "string \<Rightarrow> string \<Rightarrow> set_error + event" where
  "verify_set secret jws =
     (case unseal secret jws of
        Inl e \<Rightarrow> Inl (SetEnvelope e)
      | Inr payload \<Rightarrow>
          (case unmarshal_event payload of None \<Rightarrow> Inl SetBadEvent | Some e \<Rightarrow> Inr e))"

definition wf_event :: "event \<Rightarrow> bool" where
  "wf_event e \<longleftrightarrow> valid_utf8 (ev_type e) \<and> valid_utf8 (ev_sub e)"

lemma event_j_facts [json_facts]:
  "wf_event e \<Longrightarrow> jok (event_j e)" "wf_event e \<Longrightarrow> jsan (event_j e) = event_j e" "jdepth (event_j e) = 1"
  by (simp_all add: event_j_def wf_event_def int_j_def show_int_lit)

lemma unmarshal_event_j:
  assumes "wf_event e" "in_int64 (ev_iat e)"
  shows "unmarshal_event (print_j (event_j e)) = Some e"
proof -
  have "dec_event (event_j e) zero_event = Some e"
    using assms(2) by (simp add: dec_event_def event_j_def dec_struct_def dec_int_j zero_event_def)
  then show ?thesis
    using json_parse_print [of "event_j e"] event_j_facts(1,2) [OF assms(1)] event_j_facts(3) [of e]
    by (simp add: unmarshal_event_def max_depth_def)
qed

lemma verify_signed:
  "wf_event e \<Longrightarrow>
   verify_set k' (sign_event k now e) =
     (if k = k' \<or> hmac_sha256 k (b64_encode (print_j (event_j (e\<lparr>ev_iat := unix now\<rparr>))))
                  = hmac_sha256 k' (b64_encode (print_j (event_j (e\<lparr>ev_iat := unix now\<rparr>))))
      then Inr (e\<lparr>ev_iat := unix now\<rparr>) else Inl (SetEnvelope SigMismatch))"
  using unmarshal_event_j [of "e\<lparr>ev_iat := unix now\<rparr>"]
  by (auto simp: verify_set_def sign_event_def unseal_other_key wf_event_def)

section \<open>The revocation cache\<close>

text \<open>A \<open>map[string]bool\<close>; a missing key reads \<open>false\<close>.  That the mutex makes each
  call atomic is shown under \<open>cache_lock\<close> below.\<close>

type_synonym cache = "bool smap"

definition new_cache :: cache where
  "new_cache = []"

definition cache_apply :: "event \<Rightarrow> cache \<Rightarrow> cache" where
  "cache_apply e c =
     (if ev_type e = EventSessionRevoked then mput (ev_sub e) True c
      else if ev_type e = EventSessionRestored then mdel (ev_sub e) c
      else c)"

definition is_revoked :: "cache \<Rightarrow> string \<Rightarrow> bool" where
  "is_revoked c s = (case mget c s of None \<Rightarrow> False | Some b \<Rightarrow> b)"

text \<open>The events that speak of a subject, and the verdict of the last of them.\<close>

definition speaks :: "string \<Rightarrow> event \<Rightarrow> bool" where
  "speaks s e \<longleftrightarrow> ev_sub e = s \<and> ev_type e \<in> {EventSessionRevoked, EventSessionRestored}"

text \<open>What a receiver's sink and a PEP's revocation checker promise each other.\<close>

locale revocation_store =
  fixes empty_st :: 's and apply_ev :: "event \<Rightarrow> 's \<Rightarrow> 's" and revoked :: "'s \<Rightarrow> string \<Rightarrow> bool"
  assumes revoked_empty: "\<not> revoked empty_st s"
    and revoked_revoke: "ev_type e = EventSessionRevoked \<Longrightarrow>
           revoked (apply_ev e st) s \<longleftrightarrow> s = ev_sub e \<or> revoked st s"
    and revoked_restore: "ev_type e = EventSessionRestored \<Longrightarrow>
           revoked (apply_ev e st) s \<longleftrightarrow> s \<noteq> ev_sub e \<and> revoked st s"
    and revoked_other: "ev_type e \<noteq> EventSessionRevoked \<Longrightarrow> ev_type e \<noteq> EventSessionRestored \<Longrightarrow>
           revoked (apply_ev e st) s \<longleftrightarrow> revoked st s"
begin

lemma step_spec:
  "revoked (apply_ev e st) s \<longleftrightarrow>
     (if speaks s e then ev_type e = EventSessionRevoked else revoked st s)"
proof -
  have "EventSessionRevoked \<noteq> EventSessionRestored"
    by (simp add: EventSessionRevoked_def EventSessionRestored_def)
  then show ?thesis
    using revoked_revoke [of e st s] revoked_restore [of e st s] revoked_other [of e st s]
    by (auto simp: speaks_def)
qed

lemma fold_spec:
  "revoked (fold apply_ev es st) s \<longleftrightarrow>
     (case filter (speaks s) es of
        [] \<Rightarrow> revoked st s
      | _ # _ \<Rightarrow> ev_type (last (filter (speaks s) es)) = EventSessionRevoked)"
proof (induction es arbitrary: st)
  case (Cons e es)
  show ?case
    by (cases "filter (speaks s) es") (simp_all add: Cons step_spec)
qed simp

end

interpretation rc: revocation_store new_cache cache_apply is_revoked
proof
  have d: "EventSessionRestored \<noteq> EventSessionRevoked"
    by (simp add: EventSessionRevoked_def EventSessionRestored_def)
  fix e :: event and st s
  show "\<not> is_revoked new_cache s" by (simp add: is_revoked_def new_cache_def mget_Nil)
  show "is_revoked (cache_apply e st) s \<longleftrightarrow> s = ev_sub e \<or> is_revoked st s"
    if "ev_type e = EventSessionRevoked"
    using that by (simp add: is_revoked_def cache_apply_def mget_mput)
  show "is_revoked (cache_apply e st) s \<longleftrightarrow> s \<noteq> ev_sub e \<and> is_revoked st s"
    if "ev_type e = EventSessionRestored"
    using that d by (simp add: is_revoked_def cache_apply_def mget_mdel)
  show "is_revoked (cache_apply e st) s \<longleftrightarrow> is_revoked st s"
    if "ev_type e \<noteq> EventSessionRevoked" "ev_type e \<noteq> EventSessionRestored"
    using that by (simp add: cache_apply_def)
qed

section \<open>The push receiver\<close>

text \<open>
  The handler on the outcome of \<open>io.ReadAll\<close> (\<open>None\<close> is a read error): status, response
  text and the sink afterwards.
\<close>

definition receive :: "string \<Rightarrow> string option \<Rightarrow> cache \<Rightarrow> (nat \<times> string) \<times> cache" where
  "receive secret body c =
     (case body of
        None \<Rightarrow> ((400, ''read error'' @ [CHR 0x0A]), c)
      | Some b \<Rightarrow>
          (case verify_set secret (trim_space b) of
             Inl _ \<Rightarrow> ((401, ''invalid SET'' @ [CHR 0x0A]), c)
           | Inr e \<Rightarrow> ((202, []), cache_apply e c)))"

text \<open>The events a receiver accepts out of a sequence of pushes, and the cache they leave.\<close>

definition accepted :: "string \<Rightarrow> string option \<Rightarrow> event list" where
  "accepted secret body =
     (case body of
        None \<Rightarrow> []
      | Some b \<Rightarrow> (case verify_set secret (trim_space b) of Inl _ \<Rightarrow> [] | Inr e \<Rightarrow> [e]))"

definition receive_all :: "string \<Rightarrow> string option list \<Rightarrow> cache \<Rightarrow> cache" where
  "receive_all secret bodies c = fold (\<lambda>b c. snd (receive secret b c)) bodies c"

lemma receive_cache: "snd (receive k b c) = fold cache_apply (accepted k b) c"
  by (simp add: receive_def accepted_def split: option.split sum.split)

lemma receive_all_fold:
  "receive_all k bs c = fold cache_apply (concat (map (accepted k) bs)) c"
  by (induction bs arbitrary: c) (simp_all add: receive_all_def receive_cache)

text \<open>One push, as a step of the receiver; the caches it can reach from the empty one.\<close>

inductive rstep :: "string \<Rightarrow> cache \<Rightarrow> cache \<Rightarrow> bool" for k :: string where
  push: "snd (receive k b c) = c' \<Longrightarrow> rstep k c c'"

inductive reachable :: "string \<Rightarrow> cache \<Rightarrow> bool" for k :: string where
  start: "reachable k new_cache"
| step: "reachable k c \<Longrightarrow> rstep k c c' \<Longrightarrow> reachable k c'"

inductive_cases rstepE: "rstep k c c'"

lemma accepted_cases: "accepted k b = [] \<or> (\<exists>e. accepted k b = [e])"
  by (simp add: accepted_def split: option.split sum.split)

lemma is_revoked_key:
  "\<forall>(s, b) \<in> set c. b \<Longrightarrow> is_revoked c s \<longleftrightarrow> s \<in> fst ` set c"
proof (induction c)
  case (Cons p c)
  then show ?case by (cases p) (auto simp: is_revoked_def mget_def)
qed (simp add: is_revoked_def mget_def)

subsection \<open>White space around a token\<close>

definition plain_chr :: "char \<Rightarrow> bool" where
  "plain_chr c \<longleftrightarrow> 32 < byte_of c \<and> byte_of c < 128"

lemma strip_first_hd:
  assumes "\<forall>p \<in> set ps. p \<noteq> [] \<and> \<not> plain_chr (hd p)" and "s = [] \<or> plain_chr (hd s)"
  shows "strip_first ps s = None"
proof -
  have "\<not> has_prefix s p" if p: "p \<in> set ps" for p
  proof
    assume "has_prefix s p"
    then obtain r where "s = p @ r" by (auto simp: has_prefix_iff)
    with p assms show False by (cases p) auto
  qed
  then show ?thesis by (auto simp: strip_first_def find_None_iff)
qed

lemma space_runes_not_plain:
  "\<forall>p \<in> set space_runes. p \<noteq> [] \<and> \<not> plain_chr (hd p) \<and> \<not> plain_chr (hd (rev p))"
  by (simp add: space_runes_def plain_chr_def)

lemma trim_space_plain:
  assumes "s = [] \<or> plain_chr (hd s) \<and> plain_chr (last s)"
  shows "trim_space s = s"
proof -
  have "strip_all space_runes s = s"
    using assms space_runes_not_plain by (intro strip_all_fixed strip_first_hd) auto
  moreover have "strip_all (map rev space_runes) (rev s) = rev s"
    using assms space_runes_not_plain
    by (intro strip_all_fixed strip_first_hd) (auto simp: hd_rev)
  ultimately show ?thesis by (simp add: trim_space_def)
qed

lemma b64_chr_plain: "v < 64 \<Longrightarrow> plain_chr (b64_chr v)"
  by (auto simp: b64_chr_def plain_chr_def)

lemma b64_plain: "c \<in> set (b64_encode s) \<Longrightarrow> plain_chr c"
  by (induction s rule: b64_encode.induct) (auto simp: Let_def b64_chr_plain)

lemma trim_seal: "trim_space (seal k p) = seal k p"
proof (rule trim_space_plain)
  have all: "\<forall>c \<in> set (seal k p). plain_chr c"
    using b64_plain by (auto simp: seal_def seal_with_def Let_def plain_chr_def)
  then show "seal k p = [] \<or> plain_chr (hd (seal k p)) \<and> plain_chr (last (seal k p))" by auto
qed

lemma receive_signed:
  "wf_event e \<Longrightarrow>
   receive k (Some (sign_event k now e)) c = ((202, []), cache_apply (e\<lparr>ev_iat := unix now\<rparr>) c)"
  using trim_seal verify_signed [of e k k now] by (simp add: receive_def sign_event_def)

section \<open>The transmitter\<close>

text \<open>
  \<open>Emit\<close> posts to each subscriber through the HTTP client, which is the argument \<open>post\<close>: it
  yields a transport error or the status, and the world afterwards.
\<close>

datatype 'err emit_error = EmitTransport 'err | EmitStatus string nat

record transmitter =
  tx_secret :: string
  tx_subscribers :: "string list"

fun push_all ::
  "(string \<Rightarrow> string \<Rightarrow> 'w \<Rightarrow> ('err + nat) \<times> 'w) \<Rightarrow> string \<Rightarrow> string list
     \<Rightarrow> 'err emit_error option \<Rightarrow> 'w \<Rightarrow> 'err emit_error option \<times> 'w"
where
  "push_all post jws [] first w = (first, w)"
| "push_all post jws (u # us) first w =
     (case post u jws w of
        (Inl err, w') \<Rightarrow>
          push_all post jws us (if first = None then Some (EmitTransport err) else first) w'
      | (Inr st, w') \<Rightarrow>
          push_all post jws us (if st \<noteq> 202 \<and> first = None then Some (EmitStatus u st) else first) w')"

definition emit ::
  "(string \<Rightarrow> string \<Rightarrow> 'w \<Rightarrow> ('err + nat) \<times> 'w) \<Rightarrow> int \<Rightarrow> transmitter \<Rightarrow> event \<Rightarrow> 'w
     \<Rightarrow> 'err emit_error option \<times> 'w"
where
  "emit post now tx e w =
     push_all post (sign_event (tx_secret tx) now e) (tx_subscribers tx) None w"

text \<open>What one delivery came to, and the deliveries of a fan-out in order.\<close>

definition delivery_error :: "string \<Rightarrow> ('err + nat) \<Rightarrow> 'err emit_error option" where
  "delivery_error u r =
     (case r of Inl err \<Rightarrow> Some (EmitTransport err)
      | Inr st \<Rightarrow> if st = 202 then None else Some (EmitStatus u st))"

fun deliveries ::
  "(string \<Rightarrow> string \<Rightarrow> 'w \<Rightarrow> ('err + nat) \<times> 'w) \<Rightarrow> string \<Rightarrow> string list \<Rightarrow> 'w
     \<Rightarrow> 'err emit_error option list \<times> 'w"
where
  "deliveries post jws [] w = ([], w)"
| "deliveries post jws (u # us) w =
     (case post u jws w of (r, w') \<Rightarrow>
        (case deliveries post jws us w' of (ds, w'') \<Rightarrow> (delivery_error u r # ds, w'')))"

definition first_some :: "'a option list \<Rightarrow> 'a option" where
  "first_some xs = Option.bind (find (\<lambda>x. x \<noteq> None) xs) id"

lemma first_some_None: "\<forall>x \<in> set xs. x = None \<Longrightarrow> first_some xs = None"
  by (induction xs) (simp_all add: first_some_def)

lemma push_all_deliveries:
  "push_all post jws us first w =
     (case deliveries post jws us w of (ds, w') \<Rightarrow> (first_some (first # ds), w'))"
  by (induction us arbitrary: first w)
     (auto simp: first_some_def delivery_error_def split: sum.splits prod.splits)

lemma length_deliveries: "length (fst (deliveries post jws us w)) = length us"
  by (induction us arbitrary: w) (auto split: prod.splits, metis fst_conv)

text \<open>
  A network of receivers: the receivers by URL, each with its secret and its cache.  An
  unknown URL is a transport error.
\<close>

type_synonym network = "string \<Rightarrow> (string \<times> cache) option"

definition deliver :: "string \<Rightarrow> string \<Rightarrow> network \<Rightarrow> (unit + nat) \<times> network" where
  "deliver u jws net =
     (case net u of
        None \<Rightarrow> (Inl (), net)
      | Some (k, c) \<Rightarrow>
          (case receive k (Some jws) c of ((st, txt), c') \<Rightarrow> (Inr st, net(u \<mapsto> (k, c')))))"

definition revoked_at :: "network \<Rightarrow> string \<Rightarrow> string \<Rightarrow> bool" where
  "revoked_at net u s = (case net u of None \<Rightarrow> False | Some (k, c) \<Rightarrow> is_revoked c s)"

text \<open>
  A receiver takes the push of a transmitter if it holds its secret (or one under which the body of
  the token has the same HMAC); what a fan-out reports of each subscriber.
\<close>

definition trusts :: "string \<Rightarrow> string \<Rightarrow> int \<Rightarrow> event \<Rightarrow> bool" where
  "trusts k' k now e \<longleftrightarrow>
     k' = k \<or> (let body = b64_encode (print_j (event_j (e\<lparr>ev_iat := unix now\<rparr>))) in
               hmac_sha256 k' body = hmac_sha256 k body)"

definition takes :: "network \<Rightarrow> string \<Rightarrow> int \<Rightarrow> event \<Rightarrow> string \<Rightarrow> bool" where
  "takes net k now e u \<longleftrightarrow> (\<exists>k' c. net u = Some (k', c) \<and> trusts k' k now e)"

definition push_error :: "network \<Rightarrow> string \<Rightarrow> int \<Rightarrow> event \<Rightarrow> string \<Rightarrow> unit emit_error option" where
  "push_error net k now e u =
     (if net u = None then Some (EmitTransport ())
      else if takes net k now e u then None else Some (EmitStatus u 401))"

lemma receive_pushed:
  assumes "wf_event e"
  shows "receive k' (Some (sign_event k now e)) c =
     (if trusts k' k now e then ((202, []), cache_apply (e\<lparr>ev_iat := unix now\<rparr>) c)
      else ((401, ''invalid SET'' @ [CHR 0x0A]), c))"
  using trim_seal verify_signed [OF assms, of k' k now]
  by (auto simp: receive_def trusts_def Let_def sign_event_def eq_commute)

text \<open>One push: the world afterwards, what it reports, and that it leaves every secret as it is.\<close>

lemma deliver_pushed:
  assumes "wf_event e" and "deliver u (sign_event k now e) net = (r, net')"
  shows "delivery_error u r = push_error net k now e u"
    and "revoked_at net' x s =
          (if x = u \<and> takes net k now e x \<and> speaks s e then ev_type e = EventSessionRevoked
           else revoked_at net x s)"
    and "map_option fst (net' x) = map_option fst (net x)"
proof -
  have "speaks s (e\<lparr>ev_iat := unix now\<rparr>) \<longleftrightarrow> speaks s e" by (simp add: speaks_def)
  then show "delivery_error u r = push_error net k now e u"
    and "revoked_at net' x s =
          (if x = u \<and> takes net k now e x \<and> speaks s e then ev_type e = EventSessionRevoked
           else revoked_at net x s)"
    and "map_option fst (net' x) = map_option fst (net x)"
    using assms(2) rc.step_spec [of "e\<lparr>ev_iat := unix now\<rparr>"]
    by (auto simp: deliver_def receive_pushed [OF assms(1)] delivery_error_def push_error_def takes_def revoked_at_def
        split: option.splits prod.splits if_splits)
qed

lemma takes_secret:
  assumes "map_option fst (net' u) = map_option fst (net u)"
  shows "takes net' k now e u = takes net k now e u" "push_error net' k now e u = push_error net k now e u"
proof -
  show "takes net' k now e u = takes net k now e u"
    using assms unfolding takes_def by (cases "net u"; cases "net' u") auto
  then show "push_error net' k now e u = push_error net k now e u"
    using assms unfolding push_error_def by (cases "net u"; cases "net' u") auto
qed

lemma push_all_effect:
  assumes "wf_event e" and "push_all deliver (sign_event k now e) us first net = (err, net')"
  shows "err = first_some (first # map (push_error net k now e) us)
     \<and> (\<forall>u s. revoked_at net' u s =
          (if u \<in> set us \<and> takes net k now e u \<and> speaks s e then ev_type e = EventSessionRevoked
           else revoked_at net u s))"
  using assms(2)
proof (induction us arbitrary: first net)
  case Nil
  then show ?case by (simp add: first_some_def)
next
  case (Cons u us)
  obtain r net1 where d: "deliver u (sign_event k now e) net = (r, net1)" by fastforce
  note p = deliver_pushed [OF assms(1) d]
  have same: "takes net1 k now e = takes net k now e" "push_error net1 k now e = push_error net k now e"
    by (rule ext, rule takes_secret, rule p(3))+
  have "push_all deliver (sign_event k now e) us (if first = None then delivery_error u r else first) net1 = (err, net')"
    using Cons.prems d by (cases r) (auto simp: delivery_error_def split: if_splits)
  from Cons.IH [OF this] have
    "err = first_some ((if first = None then push_error net k now e u else first) # map (push_error net k now e) us)"
    "\<forall>x s. revoked_at net' x s =
          (if x \<in> set us \<and> takes net k now e x \<and> speaks s e then ev_type e = EventSessionRevoked
           else revoked_at net1 x s)"
    unfolding p(1) same by blast+
  then show ?case by (auto simp: p(2) first_some_def)
qed

lemma emit_effect:
  assumes "wf_event e" and "speaks s e"
  shows "fst (emit deliver now tx e net) = first_some (map (push_error net (tx_secret tx) now e) (tx_subscribers tx))
     \<and> (\<forall>u x. revoked_at (snd (emit deliver now tx e net)) u x =
          (if u \<in> set (tx_subscribers tx) \<and> takes net (tx_secret tx) now e u \<and> x = s
           then ev_type e = EventSessionRevoked else revoked_at net u x))"
proof -
  have "speaks x e \<longleftrightarrow> x = s" for x using assms(2) by (auto simp: speaks_def)
  moreover have "first_some (None # xs) = first_some xs" for xs :: "'x option list" by (simp add: first_some_def)
  ultimately show ?thesis
    using push_all_effect [OF assms(1) prod.collapse [symmetric], of "tx_secret tx" now "tx_subscribers tx" None net]
    unfolding emit_def by metis
qed

text \<open>In particular, receivers that all hold the transmitter's secret.\<close>

lemma emit_signed_effect:
  assumes "wf_event e" and "speaks s e"
    and "\<forall>u \<in> set (tx_subscribers tx). \<exists>c. net u = Some (tx_secret tx, c)"
  shows "fst (emit deliver now tx e net) = None
     \<and> (\<forall>u x. revoked_at (snd (emit deliver now tx e net)) u x =
          (if u \<in> set (tx_subscribers tx) \<and> x = s then ev_type e = EventSessionRevoked
           else revoked_at net u x))"
proof -
  have t: "takes net (tx_secret tx) now e u" if "u \<in> set (tx_subscribers tx)" for u
    using assms(3) that by (auto simp: takes_def trusts_def)
  then have "push_error net (tx_secret tx) now e u = None" if "u \<in> set (tx_subscribers tx)" for u
    using assms(3) that by (auto simp: push_error_def)
  then have "first_some (map (push_error net (tx_secret tx) now e) (tx_subscribers tx)) = None"
    by - (rule first_some_None, simp)
  then show ?thesis using emit_effect [OF assms(1,2), of now tx net] t by simp
qed

section \<open>Properties\<close>

text \<open>
  C23.  After any sequence of pushes, genuine, forged or unreadable, a subject is revoked
  exactly if the last authentic event about it, among those received, is a revocation.
\<close>

theorem receiver_log:
  "is_revoked (receive_all k bodies new_cache) s \<longleftrightarrow>
     (let es = filter (speaks s) (concat (map (accepted k) bodies))
      in es \<noteq> [] \<and> ev_type (last es) = EventSessionRevoked)"
  by (simp add: receive_all_fold rc.fold_spec rc.revoked_empty Let_def split: list.split)

text \<open>
  A push changes the cache, or is answered 202, only if its token carries the HMAC of its
  body under the receiver's secret; then the change is the event of that body, and otherwise
  the answer is 400 or 401 and the cache stays as it was.
\<close>

theorem receiver_authentic:
  assumes "receive k b c = ((st, txt), c')"
  shows "(\<exists>raw body sig payload e. b = Some raw \<and> trim_space raw = body @ ''.'' @ sig
            \<and> b64_decode sig = Some (hmac_sha256 k body) \<and> b64_decode body = Some payload
            \<and> unmarshal_event payload = Some e \<and> st = 202 \<and> c' = cache_apply e c)
         \<or> (st \<in> {400, 401} \<and> c' = c)"
proof (cases b)
  case (Some raw)
  show ?thesis
  proof (cases "verify_set k (trim_space raw)")
    case (Inr e)
    then obtain payload where p: "unseal k (trim_space raw) = Inr payload" "unmarshal_event payload = Some e"
      by (auto simp: verify_set_def split: sum.splits option.splits)
    then show ?thesis using assms Some Inr unseal_authentic [OF p(1)]
      by (simp add: receive_def) metis
  qed (use assms Some in \<open>auto simp: receive_def\<close>)
qed (use assms in \<open>auto simp: receive_def\<close>)

definition sample_event :: event where
  "sample_event = \<lparr>ev_type = EventSessionRevoked, ev_sub = ''u-1'', ev_iat = 0\<rparr>"

lemma sample_event_wf: "wf_event sample_event"
  by (auto simp: wf_event_def sample_event_def EventSessionRevoked_def ascii_def intro!: ascii_valid)

lemma receiver_authentic_witness:
  "(\<exists>raw body sig payload e. Some (sign_event ''k'' 0 sample_event) = Some raw
      \<and> trim_space raw = body @ ''.'' @ sig
      \<and> b64_decode sig = Some (hmac_sha256 ''k'' body) \<and> b64_decode body = Some payload
      \<and> unmarshal_event payload = Some e \<and> (202::nat) = 202
      \<and> cache_apply (sample_event\<lparr>ev_iat := unix 0\<rparr>) [] = cache_apply e [])
   \<or> ((202::nat) \<in> {400, 401} \<and> cache_apply (sample_event\<lparr>ev_iat := unix 0\<rparr>) [] = [])"
  by (rule receiver_authentic [OF receive_signed [OF sample_event_wf]])

text \<open>
  Every cache a receiver can reach holds each subject at most once, in order, and holds
  \<open>true\<close> for it: being revoked is being a key.
\<close>

theorem reachable_cache:
  assumes "reachable k c"
  shows "smap_wf c \<and> (\<forall>(s, b) \<in> set c. b) \<and> (\<forall>s. is_revoked c s \<longleftrightarrow> s \<in> fst ` set c)"
proof -
  have keep: "smap_wf (cache_apply e c) \<and> (\<forall>(s, b) \<in> set (cache_apply e c). b)"
    if "smap_wf c" "\<forall>(s, b) \<in> set c. b" for e :: event and c
  proof -
    have "\<forall>(s, b) \<in> set (mput x True c). b" for x
      using that(2) by (induction c) (auto split: if_splits)
    then show ?thesis
      using that smap_wf_mdel [OF that(1)]
      by (auto simp: cache_apply_def smap_wf_mput) (auto simp: mdel_def)
  qed
  have inv: "smap_wf c \<and> (\<forall>(s, b) \<in> set c. b)"
    using assms
  proof induction
    case (step c c')
    from step(2) obtain b where "c' = fold cache_apply (accepted k b) c"
      by (auto simp: receive_cache elim: rstepE)
    then show ?case
      using accepted_cases [of k b] step(3) keep [of c] by (elim disjE exE) simp_all
  qed (simp add: new_cache_def)
  moreover have "is_revoked c s \<longleftrightarrow> s \<in> fst ` set c" for s
    using inv by (simp add: is_revoked_key)
  ultimately show ?thesis by blast
qed

lemma reachable_cache_witness:
  "let c = snd (receive ''k'' (Some (sign_event ''k'' 0 sample_event)) new_cache) in
     c = [(''u-1'', True)] \<and> smap_wf c \<and> (\<forall>(s, b) \<in> set c. b)
     \<and> (\<forall>s. is_revoked c s \<longleftrightarrow> s \<in> fst ` set c)"
proof -
  have c: "snd (receive ''k'' (Some (sign_event ''k'' 0 sample_event)) new_cache) = [(''u-1'', True)]"
    by (simp add: receive_signed sample_event_wf) (simp add: cache_apply_def sample_event_def new_cache_def)
  then have "reachable ''k'' [(''u-1'', True)]" by (metis reachable.intros rstep.intros)
  from reachable_cache [OF this] show ?thesis unfolding c Let_def by blast
qed

text \<open>
  The fan-out contacts every subscriber exactly once, in order, whatever the earlier
  deliveries came to, and returns the first of their errors.
\<close>

theorem emit_first_error:
  "emit post now tx e w =
     (case deliveries post (sign_event (tx_secret tx) now e) (tx_subscribers tx) w of
        (ds, w') \<Rightarrow> (first_some ds, w'))
   \<and> length (fst (deliveries post (sign_event (tx_secret tx) now e) (tx_subscribers tx) w))
       = length (tx_subscribers tx)"
  by (simp add: emit_def push_all_deliveries length_deliveries) (simp add: first_some_def)

text \<open>
  C25.  An emitted revocation (or restoration) takes effect, for the event's subject, at every
  subscriber that can be reached and trusts the transmitter's secret, whatever the deliveries to
  the other subscribers came to, and changes nothing else anywhere; the error returned is that of
  the first subscriber that cannot be reached or answers 401, so there is none if each of them is
  reached and holds the secret.
\<close>

theorem emit_takes_effect:
  assumes "wf_event e" and "speaks s e"
  shows "(\<forall>u x. revoked_at (snd (emit deliver now tx e net)) u x =
          (if u \<in> set (tx_subscribers tx) \<and> (\<exists>k' c. net u = Some (k', c) \<and> trusts k' (tx_secret tx) now e) \<and> x = s
           then ev_type e = EventSessionRevoked else revoked_at net u x))
     \<and> fst (emit deliver now tx e net) =
          first_some (map (\<lambda>u. case net u of
                               None \<Rightarrow> Some (EmitTransport ())
                             | Some (k', c) \<Rightarrow> if trusts k' (tx_secret tx) now e then None else Some (EmitStatus u 401))
                       (tx_subscribers tx))
     \<and> ((\<forall>u \<in> set (tx_subscribers tx). \<exists>c. net u = Some (tx_secret tx, c)) \<longrightarrow> fst (emit deliver now tx e net) = None)"
proof -
  have "push_error net (tx_secret tx) now e = (\<lambda>u. case net u of
                               None \<Rightarrow> Some (EmitTransport ())
                             | Some (k', c) \<Rightarrow> if trusts k' (tx_secret tx) now e then None else Some (EmitStatus u 401))"
    by (auto simp: fun_eq_iff push_error_def takes_def split: option.split)
  then show ?thesis
    using emit_effect [OF assms(1,2), of now tx net] emit_signed_effect [OF assms(1,2), of tx net now]
    unfolding takes_def by simp
qed

definition sample_net :: network where
  "sample_net = [''http://a'' \<mapsto> (''k'', []), ''http://b'' \<mapsto> (''k'', [(''u-2'', True)])]"

text \<open>The first subscriber does not exist; the two others are told all the same.\<close>

lemma emit_takes_effect_witness:
  "let tx = \<lparr>tx_secret = ''k'', tx_subscribers = [''http://gone'', ''http://a'', ''http://b'']\<rparr>;
       out = emit deliver 0 tx sample_event sample_net in
   fst out = Some (EmitTransport ())
   \<and> revoked_at (snd out) ''http://a'' ''u-1'' \<and> revoked_at (snd out) ''http://b'' ''u-1''
   \<and> \<not> revoked_at (snd out) ''http://a'' ''u-2'' \<and> revoked_at (snd out) ''http://b'' ''u-2''"
proof -
  have "speaks ''u-1'' sample_event" by (simp add: speaks_def sample_event_def)
  from emit_takes_effect [OF sample_event_wf this, where net = sample_net and now = 0
      and tx = "\<lparr>tx_secret = ''k'', tx_subscribers = [''http://gone'', ''http://a'', ''http://b'']\<rparr>"]
  show ?thesis
    by (simp add: Let_def sample_net_def sample_event_def trusts_def first_some_def revoked_at_def is_revoked_def mget_def)
qed

section \<open>The cache under concurrent calls\<close>

text \<open>The two methods, with the lock each takes, what it does to the map, and its answer.\<close>

datatype cache_call = CallApply event | CallIsRevoked string

fun cache_exclusive :: "cache_call \<Rightarrow> bool" where
  "cache_exclusive (CallApply e) \<longleftrightarrow> True"
| "cache_exclusive (CallIsRevoked s) \<longleftrightarrow> False"

fun cache_effect :: "cache_call \<Rightarrow> cache \<Rightarrow> cache" where
  "cache_effect (CallApply e) = cache_apply e"
| "cache_effect (CallIsRevoked s) = id"

fun cache_answer :: "cache_call \<Rightarrow> cache \<Rightarrow> bool option" where
  "cache_answer (CallApply e) c = None"
| "cache_answer (CallIsRevoked s) c = Some (is_revoked c s)"

interpretation cache_lock: rw_guarded cache_exclusive cache_effect cache_answer
proof
  show "cache_effect c = id" if "\<not> cache_exclusive c" for c using that by (cases c) simp_all
qed

text \<open>The events applied in a history.\<close>

fun applied :: "(nat \<times> cache_call \<times> bool option) list \<Rightarrow> event list" where
  "applied [] = []"
| "applied ((t, CallApply e, r) # es) = e # applied es"
| "applied ((t, CallIsRevoked s, r) # es) = applied es"

lemma fold_applied: "fold (\<lambda>(t, c, r). cache_effect c) es c = fold cache_apply (applied es) c"
  by (induction es arbitrary: c rule: applied.induct) simp_all

text \<open>
  C24.  However the goroutines of receivers and enforcement points interleave, no two of them are
  in the map at the same time with one writing, and every answer of \<open>IsRevoked\<close> is the verdict of
  the last event about the subject that was applied before it.
\<close>

theorem cache_concurrent:
  assumes "rw_reachable cache_exclusive cache_effect cache_answer new_cache s"
  shows "\<not> races cache_effect s
   \<and> (\<forall>pre t subject r post. rw_log s = pre @ (t, CallIsRevoked subject, r) # post \<longrightarrow>
        r = Some (case filter (speaks subject) (applied pre) of
                    [] \<Rightarrow> False
                  | _ # _ \<Rightarrow> ev_type (last (filter (speaks subject) (applied pre))) = EventSessionRevoked))"
proof (intro conjI allI impI)
  show "\<not> races cache_effect s" by (rule cache_lock.no_race [OF assms])
  fix pre t subject r post
  assume "rw_log s = pre @ (t, CallIsRevoked subject, r) # post"
  then have "r = cache_answer (CallIsRevoked subject) (fold (\<lambda>(t, c, r). cache_effect c) pre new_cache)"
    using cache_lock.linearizable [OF assms] sequential_answer by metis
  then show "r = Some (case filter (speaks subject) (applied pre) of
                    [] \<Rightarrow> False
                  | _ # _ \<Rightarrow> ev_type (last (filter (speaks subject) (applied pre))) = EventSessionRevoked)"
    by (simp add: fold_applied rc.fold_spec rc.revoked_empty split: list.split)
qed

lemma cache_concurrent_witness:
  "\<exists>s. rw_reachable cache_exclusive cache_effect cache_answer new_cache s \<and> \<not> races cache_effect s
     \<and> (\<exists>r. rw_log s = [(0, CallApply sample_event, None)] @ (1, CallIsRevoked ''u-1'', r) # [] \<and> r = Some True)"
proof -
  let ?s1 = "(rw_init new_cache)\<lparr>rw_value := cache_apply sample_event new_cache, rw_log := [(0, CallApply sample_event, None)]\<rparr>"
  have "rw_reachable cache_exclusive cache_effect cache_answer new_cache ?s1"
    using whole_call [where excl = cache_exclusive and eff = cache_effect and res = cache_answer
        and c = "CallApply sample_event" and t = 0, OF rw_start]
    by (simp add: rw_init_def)
  from whole_call [OF this, where c = "CallIsRevoked ''u-1''" and t = 1] obtain s r
    where s: "rw_reachable cache_exclusive cache_effect cache_answer new_cache s"
      "rw_log s = [(0, CallApply sample_event, None)] @ (1, CallIsRevoked ''u-1'', r) # []"
    by (auto simp: rw_init_def)
  have "filter (speaks ''u-1'') (applied [(0, CallApply sample_event, None)]) = [sample_event]"
    by (simp add: speaks_def sample_event_def)
  moreover have "ev_type sample_event = EventSessionRevoked" by (simp add: sample_event_def)
  ultimately have "r = Some True" using cache_concurrent [OF s(1)] s(2) by fastforce
  then show ?thesis using s cache_concurrent [OF s(1)] by blast
qed

end
