(* ===== verification/Pep_Proofs.thy ===== *)
theory Pep_Proofs
  imports Pep Caep
begin

text \<open>
  What the enforcement point guarantees: an exact account of when it allows, independence of
  the cheap checks from the PDP, fail-closed behaviour, the fate of the request it forwards,
  the mapping of outcomes to HTTP, and its composition with a transport and with the
  revocation cache.
\<close>

section \<open>Steps of the ladder\<close>

definition passes_l0 :: "(string \<Rightarrow> string option) \<Rightarrow> 'e pep_config \<Rightarrow> http_request \<Rightarrow> bool" where
  "passes_l0 idc cfg r \<longleftrightarrow>
     pc_profile cfg \<noteq> ProfileEastWest
     \<or> (\<exists>caller att. peer_identity idc cfg r = Some caller \<and> pc_attestor cfg = Some att \<and> att caller = Some True)"

definition caller_of :: "(string \<Rightarrow> string option) \<Rightarrow> 'e pep_config \<Rightarrow> http_request \<Rightarrow> string" where
  "caller_of idc cfg r = str_or_empty (peer_identity idc cfg r)"

lemma check_l0:
  "passes_l0 idc cfg r \<Longrightarrow> check idc cfg fresh r = check_l1 cfg r (correlation fresh r) (caller_of idc cfg r)"
  by (auto simp: check_def passes_l0_def caller_of_def Let_def)

lemma check_drop:
  assumes "\<not> passes_l0 idc cfg r" and "\<not> Option.is_none (pc_attestor cfg)"
  shows "\<exists>reason. check idc cfg fresh r = Some (plain_outcome DropL0 reason (correlation fresh r), r)"
  using assms by (auto simp: check_def passes_l0_def Let_def split: option.split)

text \<open>Reading the properties leaves the request as it was, unless the body cannot be read.\<close>

lemma resource_props_restores:
  "resource_props rt r = (Some p, r') \<Longrightarrow> r' = r"
  by (cases "rq_body r") (auto simp: resource_props_def split: if_splits)

lemma build_request_restores: "build_request cfg r rt cid caller = (Some req, r') \<Longrightarrow> r' = r"
  by (auto simp: build_request_def dest: resource_props_restores split: prod.splits)

lemma new_pep_InrD:
  assumes "new_pep cfg = Inr p"
  shows "p = cfg" "\<exists>pdp. pc_pdp p = Some pdp"
    "pc_profile p = ProfileEastWest \<Longrightarrow> \<not> Option.is_none (pc_attestor p)"
  using assms by (auto simp: new_pep_def Option.is_none_def split: if_splits)

lemma kind_plain [simp]: "oc_kind (plain_outcome k s c) = k" "oc_cid (plain_outcome k s c) = c"
  by (simp_all add: plain_outcome_def)

lemma classify_allow: "oc_kind (classify resp cid) = Allow \<longleftrightarrow> decision resp"
  by (auto simp: classify_def split: option.split)

lemma classify_cid [simp]: "oc_cid (classify resp cid) = cid"
  by (auto simp: classify_def split: option.split)

definition token_grounds :: "'e pep_config \<Rightarrow> http_request \<Rightarrow> request \<Rightarrow> bool" where
  "token_grounds cfg r req \<longleftrightarrow>
     (\<exists>verify c. pc_verifier cfg = Some verify \<and> header r HeaderDecisionToken \<noteq> []
        \<and> verify (header r HeaderDecisionToken) = Inr c \<and> token_matches c req)"

lemma try_token_cases:
  "try_token cfg r req cid =
     (if token_grounds cfg r req
      then Some \<lparr>oc_kind = Allow, oc_reason = ''decision_token_reuse'', oc_acr = [], oc_cid = cid,
                 oc_token = header r HeaderDecisionToken\<rparr>
      else None)"
  by (auto simp: try_token_def token_grounds_def Let_def split: option.split sum.split)

definition pdp_grounds :: "'e pep_config \<Rightarrow> request \<Rightarrow> bool" where
  "pdp_grounds cfg req \<longleftrightarrow> (\<exists>pdp resp. pc_pdp cfg = Some pdp \<and> pdp req = Inr resp \<and> decision resp)"

lemma check_l2_allow:
  assumes "check_l2 cfg r rt cid caller = Some (out, r')"
  shows "oc_kind out = Allow \<longleftrightarrow>
     (\<exists>req. fst (build_request cfg r rt cid caller) = Some req
        \<and> (token_grounds cfg r req \<or> pdp_grounds cfg req))"
    and "oc_kind out = Allow \<Longrightarrow> r' = r" and "oc_cid out = cid"
proof -
  obtain b r2 where build: "build_request cfg r rt cid caller = (b, r2)" by (cases "build_request cfg r rt cid caller")
  have "(oc_kind out = Allow \<longleftrightarrow> (\<exists>req. b = Some req \<and> (token_grounds cfg r req \<or> pdp_grounds cfg req)))
      \<and> (oc_kind out = Allow \<longrightarrow> r' = r) \<and> oc_cid out = cid"
  proof (cases b)
    case None
    then show ?thesis using assms build by (auto simp: check_l2_def)
  next
    case (Some req)
    then have "r2 = r" using build build_request_restores by blast
    then show ?thesis using assms build Some
      by (auto simp: check_l2_def try_token_cases pdp_grounds_def classify_allow
          split: option.splits sum.splits if_splits)
  qed
  then show "oc_kind out = Allow \<longleftrightarrow>
     (\<exists>req. fst (build_request cfg r rt cid caller) = Some req
        \<and> (token_grounds cfg r req \<or> pdp_grounds cfg req))"
    and "oc_kind out = Allow \<Longrightarrow> r' = r" and "oc_cid out = cid"
    using build by simp_all
qed

lemma check_l1_allow:
  assumes "check_l1 cfg r cid caller = Some (out, r')"
  shows "oc_kind out = Allow \<longleftrightarrow>
     (\<exists>rt req. match_route (pc_routes cfg) (rq_method r) (rq_path r) = Some rt \<and> \<not> revoked_subject cfg r
        \<and> fst (build_request cfg r rt cid caller) = Some req
        \<and> (token_grounds cfg r req \<or> pdp_grounds cfg req))"
    and "oc_kind out = Allow \<Longrightarrow> r' = r" and "oc_cid out = cid"
proof -
  have "(oc_kind out = Allow \<longleftrightarrow>
     (\<exists>rt req. match_route (pc_routes cfg) (rq_method r) (rq_path r) = Some rt \<and> \<not> revoked_subject cfg r
        \<and> fst (build_request cfg r rt cid caller) = Some req
        \<and> (token_grounds cfg r req \<or> pdp_grounds cfg req)))
     \<and> (oc_kind out = Allow \<longrightarrow> r' = r) \<and> oc_cid out = cid"
  proof (cases "match_route (pc_routes cfg) (rq_method r) (rq_path r)")
    case None
    then show ?thesis using assms by (auto simp: check_l1_def)
  next
    case (Some rt)
    show ?thesis
    proof (cases "revoked_subject cfg r")
      case True
      then show ?thesis using assms Some by (auto simp: check_l1_def)
    next
      case False
      then have "check_l2 cfg r rt cid caller = Some (out, r')" using assms Some by (simp add: check_l1_def)
      from check_l2_allow [OF this] show ?thesis using Some False by auto
    qed
  qed
  then show "oc_kind out = Allow \<longleftrightarrow>
     (\<exists>rt req. match_route (pc_routes cfg) (rq_method r) (rq_path r) = Some rt \<and> \<not> revoked_subject cfg r
        \<and> fst (build_request cfg r rt cid caller) = Some req
        \<and> (token_grounds cfg r req \<or> pdp_grounds cfg req))"
    and "oc_kind out = Allow \<Longrightarrow> r' = r" and "oc_cid out = cid"
    by blast+
qed

definition allow_grounds ::
  "(string \<Rightarrow> string option) \<Rightarrow> 'e pep_config \<Rightarrow> string \<Rightarrow> http_request \<Rightarrow> bool"
where
  "allow_grounds idc cfg fresh r \<longleftrightarrow>
     passes_l0 idc cfg r \<and>
     (\<exists>rt req. match_route (pc_routes cfg) (rq_method r) (rq_path r) = Some rt \<and> \<not> revoked_subject cfg r
        \<and> fst (build_request cfg r rt (correlation fresh r) (caller_of idc cfg r)) = Some req
        \<and> (token_grounds cfg r req \<or> pdp_grounds cfg req))"

lemma check_total: "new_pep cfg = Inr p \<Longrightarrow> \<exists>out r'. check idc p fresh r = Some (out, r')"
  using new_pep_InrD [of cfg p]
  by (auto simp: check_def check_l1_def check_l2_def Let_def Option.is_none_def
      split: option.splits prod.splits sum.splits)

lemma check_not_l0:
  assumes "\<not> passes_l0 idc cfg r" and "check idc cfg fresh r = Some (out, r')"
  shows "oc_kind out = DropL0" "r' = r" "oc_cid out = correlation fresh r"
  using assms by (auto simp: check_def passes_l0_def Let_def split: option.splits if_splits)

lemma check_allow:
  assumes "check idc cfg fresh r = Some (out, r')"
  shows "oc_kind out = Allow \<longleftrightarrow> allow_grounds idc cfg fresh r"
    and "oc_kind out = Allow \<Longrightarrow> r' = r" and "oc_cid out = correlation fresh r"
proof -
  have "(oc_kind out = Allow \<longleftrightarrow> allow_grounds idc cfg fresh r) \<and> (oc_kind out = Allow \<longrightarrow> r' = r)
     \<and> oc_cid out = correlation fresh r"
  proof (cases "passes_l0 idc cfg r")
    case True
    then have "check_l1 cfg r (correlation fresh r) (caller_of idc cfg r) = Some (out, r')"
      using assms by (simp add: check_l0)
    from check_l1_allow [OF this] show ?thesis using True by (auto simp: allow_grounds_def)
  next
    case False
    from check_not_l0 [OF this assms] False show ?thesis by (simp add: allow_grounds_def)
  qed
  then show "oc_kind out = Allow \<longleftrightarrow> allow_grounds idc cfg fresh r"
    and "oc_kind out = Allow \<Longrightarrow> r' = r" and "oc_cid out = correlation fresh r"
    by blast+
qed

lemma build_request_Some:
  "fst (build_request cfg r rt cid caller) = Some req \<longleftrightarrow>
     (\<exists>props. fst (resource_props rt r) = Some props \<and> req = make_request cfg r rt cid caller props)"
  by (auto simp: build_request_def dest: resource_props_restores split: prod.splits)

text \<open>Only the last rung looks at the PDP and the verifier.\<close>

lemma swap_pdp [simp]:
  "peer_identity idc (p\<lparr>pc_pdp := pdp\<rparr>) r = peer_identity idc p r"
  "revoked_subject (p\<lparr>pc_pdp := pdp\<rparr>) r = revoked_subject p r"
  "make_request (p\<lparr>pc_pdp := pdp\<rparr>) = make_request p"
  "build_request (p\<lparr>pc_pdp := pdp\<rparr>) = build_request p"
  "try_token (p\<lparr>pc_pdp := pdp\<rparr>) = try_token p"
proof -
  show mk: "make_request (p\<lparr>pc_pdp := pdp\<rparr>) = make_request p"
    by (intro ext) (simp add: make_request_def pep_subject_def pep_context_def Let_def)
  show "build_request (p\<lparr>pc_pdp := pdp\<rparr>) = build_request p"
    by (intro ext) (simp add: build_request_def mk)
qed (simp_all add: peer_identity_def revoked_subject_def try_token_def [abs_def])

lemma swap_verifier [simp]:
  "peer_identity idc (p\<lparr>pc_verifier := ver\<rparr>) r = peer_identity idc p r"
  "revoked_subject (p\<lparr>pc_verifier := ver\<rparr>) r = revoked_subject p r"
  by (simp_all add: peer_identity_def revoked_subject_def)

lemma swap_l0 [simp]:
  "passes_l0 idc (p\<lparr>pc_pdp := pdp\<rparr>) r = passes_l0 idc p r"
  "passes_l0 idc (p\<lparr>pc_verifier := ver\<rparr>) r = passes_l0 idc p r"
  "caller_of idc (p\<lparr>pc_pdp := pdp\<rparr>) r = caller_of idc p r"
  by (simp_all add: passes_l0_def caller_of_def)

text \<open>The middleware's treatment of an outcome.\<close>

lemma respond_forward:
  assumes "respond prof out r = (h, Forward f)"
  shows "oc_kind out = Allow" "rq_body f = rq_body r" "rq_method f = rq_method r" "rq_path f = rq_path r"
    "rq_remote f = rq_remote r" "header f HeaderCorrelationID = oc_cid out"
    "header f HeaderDecisionToken = (if oc_token out = [] then header r HeaderDecisionToken else oc_token out)"
    "k \<notin> {HeaderCorrelationID, HeaderDecisionToken} \<Longrightarrow> header f k = header r k"
  using assms
  by (auto simp: respond_def Let_def set_header_def header_def mget_mput deny_json_def header_defs
      split: outcome_kind.splits if_splits)

section \<open>The PDP behind a transport\<close>

context pdp_transport
begin

lemma pep_allow_grounded:
  assumes "pc_pdp cfg = Some call" and "pdp_grounds cfg req" and "fits req" and "svc_fits svc req"
  obtains r' s where "same_request req r'" "svc r' = Inr s" "decision s"
proof -
  obtain resp where "call req = Inr resp" "decision resp" using assms(1,2) by (auto simp: pdp_grounds_def)
  then show thesis using allow_is_service_allow [OF assms(3,4)] that by metis
qed

end

section \<open>Tokens and requests\<close>

lemma name_token_no_slash: "name_token s \<Longrightarrow> CHR ''/'' \<notin> set s"
  by (cases s) (auto simp: name_token_def lower_def name_char_def is_digit_def list_all_iff)

lemma named_no_slash: "named s d x \<Longrightarrow> CHR ''/'' \<notin> set s"
  using name_token_no_slash by (auto simp: named_def)

lemma resource_name_inj:
  assumes "named t d x" "named t' d' x'" "t @ ''/'' @ i = t' @ ''/'' @ i'"
  shows "t = t' \<and> i = i'"
proof -
  have "cut_byte CHR ''/'' (t @ ''/'' @ i) = Some (t, i)"
    using cut_byte_append [OF named_no_slash [OF assms(1)]] by simp
  moreover have "cut_byte CHR ''/'' (t' @ ''/'' @ i') = Some (t', i')"
    using cut_byte_append [OF named_no_slash [OF assms(2)]] by simp
  ultimately have "Some (t, i) = Some (t', i')" unfolding assms(3) by (rule trans [OF sym])
  then show ?thesis by simp
qed

lemma matches_issued:
  "token_matches (stamp i t (request_claims a)) b \<longleftrightarrow>
     subj_id (req_subject a) = subj_id (req_subject b) \<and> act_name (req_action a) = act_name (req_action b)
     \<and> res_type (req_resource a) @ ''/'' @ res_id (req_resource a)
         = res_type (req_resource b) @ ''/'' @ res_id (req_resource b)
     \<and> resource_digest (res_props (req_resource a)) = resource_digest (res_props (req_resource b))
     \<and> aal_rank (auth_assurance_level (req_subject a)) \<le> aal_rank (auth_assurance_level (req_subject b))"
  by (simp add: token_matches_def stamp_def request_claims_def)

section \<open>Properties\<close>

text \<open>
  C1.  A PEP that \<open>New\<close> accepted never panics on a request, and it allows exactly when every
  rung holds: East-West callers present an identity the attestor accepts, the route is one of
  its routes, the subject is not revoked, the contract request can be built, and either the
  presented decision token verifies to claims that match this request at no higher assurance
  level, or the PDP answers with an allow.
\<close>

theorem enforcement_exact:
  assumes "new_pep cfg = Inr p"
  shows "\<exists>out r'. check idc p fresh r = Some (out, r')
     \<and> (oc_kind out = Allow \<longleftrightarrow>
          (pc_profile p = ProfileEastWest \<longrightarrow>
             (\<exists>caller att. peer_identity idc p r = Some caller \<and> pc_attestor p = Some att \<and> att caller = Some True))
          \<and> (\<exists>rt req. match_route (pc_routes p) (rq_method r) (rq_path r) = Some rt
               \<and> \<not> (\<exists>chk. pc_revocations p = Some chk \<and> header r HeaderSubjectID \<noteq> [] \<and> chk (header r HeaderSubjectID))
               \<and> fst (build_request p r rt (correlation fresh r) (str_or_empty (peer_identity idc p r))) = Some req
               \<and> ((\<exists>verify c. pc_verifier p = Some verify \<and> header r HeaderDecisionToken \<noteq> []
                     \<and> verify (header r HeaderDecisionToken) = Inr c \<and> token_matches c req)
                  \<or> (\<exists>pdp resp. pc_pdp p = Some pdp \<and> pdp req = Inr resp \<and> decision resp))))"
proof -
  obtain out r' where c: "check idc p fresh r = Some (out, r')" using check_total [OF assms] by blast
  have "revoked_subject p r \<longleftrightarrow>
      (\<exists>chk. pc_revocations p = Some chk \<and> header r HeaderSubjectID \<noteq> [] \<and> chk (header r HeaderSubjectID))"
    by (auto simp: revoked_subject_def split: option.split)
  then show ?thesis
    using c check_allow(1) [OF c]
    unfolding allow_grounds_def passes_l0_def caller_of_def token_grounds_def pdp_grounds_def by blast
qed

definition sample_route :: route where
  "sample_route = \<lparr>rt_method = ''POST'', rt_path = ''/settle'', rt_action = ''wallet:settle'',
     rt_type = ''wallet:account'', rt_props = []\<rparr>"

definition sample_pep :: "unit pep_config" where
  "sample_pep = \<lparr>pc_profile = ProfileEdge, pc_id = ''edge-1'', pc_routes = [sample_route],
     pc_pdp = Some (\<lambda>r. Inr \<lparr>decision = subj_id (req_subject r) = ''u-1'', resp_context = None\<rparr>),
     pc_attestor = None, pc_require_svid = False,
     pc_verifier = Some (verify_token sample_issuer 0), pc_revocations = Some (is_revoked [(''u-2'', True)])\<rparr>"

definition sample_http :: http_request where
  "sample_http = \<lparr>rq_method = ''POST'', rq_path = ''/settle'',
     rq_headers = [(HeaderSubjectID, ''u-1'')], rq_body = Body ''{}'', rq_remote = ''10.0.0.7:4242'',
     rq_cert = None\<rparr>"

lemma sample_pep_new: "new_pep sample_pep = Inr sample_pep"
  by (simp add: new_pep_def sample_pep_def Option.is_none_def profile_defs)

lemma enforcement_exact_witness:
  "\<exists>out r'. check (\<lambda>_. None) sample_pep [] sample_http = Some (out, r')
     \<and> (oc_kind out = Allow \<longleftrightarrow>
          (pc_profile sample_pep = ProfileEastWest \<longrightarrow>
             (\<exists>caller att. peer_identity (\<lambda>_. None) sample_pep sample_http = Some caller
                \<and> pc_attestor sample_pep = Some att \<and> att caller = Some True))
          \<and> (\<exists>rt req. match_route (pc_routes sample_pep) (rq_method sample_http) (rq_path sample_http) = Some rt
               \<and> \<not> (\<exists>chk. pc_revocations sample_pep = Some chk \<and> header sample_http HeaderSubjectID \<noteq> []
                        \<and> chk (header sample_http HeaderSubjectID))
               \<and> fst (build_request sample_pep sample_http rt (correlation [] sample_http)
                        (str_or_empty (peer_identity (\<lambda>_. None) sample_pep sample_http))) = Some req
               \<and> ((\<exists>verify c. pc_verifier sample_pep = Some verify \<and> header sample_http HeaderDecisionToken \<noteq> []
                     \<and> verify (header sample_http HeaderDecisionToken) = Inr c \<and> token_matches c req)
                  \<or> (\<exists>pdp resp. pc_pdp sample_pep = Some pdp \<and> pdp req = Inr resp \<and> decision resp))))"
  by (rule enforcement_exact [OF sample_pep_new])

text \<open>
  Cheap checks come first: a failed channel check, an unknown route or a revoked subject
  is refused with the same outcome whatever the PDP and the token verifier would say, so
  neither is consulted; in particular no decision token outlives a revocation.
\<close>

theorem cheap_checks_first:
  assumes "new_pep cfg = Inr p"
    and "\<not> passes_l0 idc p r \<or> match_route (pc_routes p) (rq_method r) (rq_path r) = None
         \<or> revoked_subject p r"
  shows "\<exists>out. oc_kind out \<in> {DropL0, DenyRoute, DenyForbidden}
     \<and> (\<forall>pdp ver. check idc (p\<lparr>pc_pdp := pdp, pc_verifier := ver\<rparr>) fresh r = Some (out, r))"
proof -
  note n = new_pep_InrD [OF assms(1)]
  show ?thesis
  proof (cases "passes_l0 idc p r")
    case False
    then have "pc_profile p = ProfileEastWest" by (simp add: passes_l0_def)
    then obtain att where "pc_attestor p = Some att"
      using n(3) n(1) by (auto simp: Option.is_none_def)
    then have "\<exists>reason. \<forall>pdp ver. check idc (p\<lparr>pc_pdp := pdp, pc_verifier := ver\<rparr>) fresh r
        = Some (plain_outcome DropL0 reason (correlation fresh r), r)"
      using False \<open>pc_profile p = ProfileEastWest\<close>
      by (cases "peer_identity idc p r") (auto simp: check_def passes_l0_def Let_def)
    then show ?thesis by (metis insertI1 kind_plain(1))
  next
    case True
    let ?out = "case match_route (pc_routes p) (rq_method r) (rq_path r) of
        None \<Rightarrow> plain_outcome DenyRoute ''l1_route_not_permitted'' (correlation fresh r)
      | Some _ \<Rightarrow> plain_outcome DenyForbidden ''session_revoked'' (correlation fresh r)"
    have "check idc (p\<lparr>pc_pdp := pdp, pc_verifier := ver\<rparr>) fresh r = Some (?out, r)" for pdp ver
      using assms(2) True by (auto simp: check_l0 check_l1_def split: option.split)
    moreover have "oc_kind ?out \<in> {DropL0, DenyRoute, DenyForbidden}" by (simp split: option.split)
    ultimately show ?thesis by blast
  qed
qed

lemma cheap_checks_first_witness:
  "\<exists>out. oc_kind out \<in> {DropL0, DenyRoute, DenyForbidden}
     \<and> (\<forall>pdp ver. check (\<lambda>_. None) (sample_pep\<lparr>pc_pdp := pdp, pc_verifier := ver\<rparr>) []
          (set_header HeaderSubjectID ''u-2'' sample_http)
        = Some (out, set_header HeaderSubjectID ''u-2'' sample_http))"
proof (rule cheap_checks_first [OF sample_pep_new], intro disjI2)
  show "revoked_subject sample_pep (set_header HeaderSubjectID ''u-2'' sample_http)"
    by (simp add: revoked_subject_def sample_pep_def sample_http_def set_header_def header_def mget_def
        is_revoked_def)
qed

text \<open>
  The PEP fails closed at L2: when no presented token matches, a PDP error is a denial
  with the reason \<open>l2_pdp_unavailable\<close>, and a route whose properties cannot be read from the
  body (a read error, or a body that is not a JSON object or \<open>null\<close>) is denied before the PDP.
\<close>

theorem l2_fails_closed:
  assumes "passes_l0 idc p r" and "\<not> revoked_subject p r"
    and "match_route (pc_routes p) (rq_method r) (rq_path r) = Some rt"
  shows "(\<forall>req pdp err. fst (build_request p r rt (correlation fresh r) (caller_of idc p r)) = Some req
            \<and> \<not> token_grounds p r req \<and> pc_pdp p = Some pdp \<and> pdp req = Inl err \<longrightarrow>
            check idc p fresh r = Some (plain_outcome DenyForbidden ''l2_pdp_unavailable'' (correlation fresh r), r))
       \<and> (rt_props rt \<noteq> [] \<and> (\<forall>raw. rq_body r = Body raw \<longrightarrow> raw \<noteq> [] \<and> unmarshal_map raw = None) \<longrightarrow>
            (\<exists>r'. check idc p fresh r
               = Some (plain_outcome DenyForbidden ''l2_request_build_failed'' (correlation fresh r), r')))"
proof -
  have c: "check idc p fresh r = check_l2 p r rt (correlation fresh r) (caller_of idc p r)"
    using assms by (simp add: check_l0 check_l1_def)
  have "check idc p fresh r = Some (plain_outcome DenyForbidden ''l2_pdp_unavailable'' (correlation fresh r), r)"
    if e: "fst (build_request p r rt (correlation fresh r) (caller_of idc p r)) = Some req"
      "\<not> token_grounds p r req" "pc_pdp p = Some pdp" "pdp req = Inl err" for req pdp err
  proof -
    obtain r2 where b: "build_request p r rt (correlation fresh r) (caller_of idc p r) = (Some req, r2)"
      using e(1) by (cases "build_request p r rt (correlation fresh r) (caller_of idc p r)") auto
    then have "r2 = r" by (rule build_request_restores)
    then show ?thesis using b e by (simp add: c check_l2_def try_token_cases)
  qed
  moreover have "\<exists>r'. check idc p fresh r
        = Some (plain_outcome DenyForbidden ''l2_request_build_failed'' (correlation fresh r), r')"
    if "rt_props rt \<noteq> []" "\<forall>raw. rq_body r = Body raw \<longrightarrow> raw \<noteq> [] \<and> unmarshal_map raw = None"
    using that by (cases "rq_body r") (simp_all add: c check_l2_def build_request_def resource_props_def)
  ultimately show ?thesis by blast
qed

definition failing_pep :: "unit pep_config" where
  "failing_pep = sample_pep\<lparr>pc_pdp := Some (\<lambda>_. Inl ())\<rparr>"

definition props_pep :: "unit pep_config" where
  "props_pep = sample_pep\<lparr>pc_routes := [sample_route\<lparr>rt_props := [''amount'']\<rparr>]\<rparr>"

lemma l2_fails_closed_witness:
  "check (\<lambda>_. None) failing_pep [] sample_http
     = Some (plain_outcome DenyForbidden ''l2_pdp_unavailable'' (correlation [] sample_http), sample_http)
   \<and> (\<exists>r'. check (\<lambda>_. None) props_pep [] (sample_http\<lparr>rq_body := Body ''x''\<rparr>)
         = Some (plain_outcome DenyForbidden ''l2_request_build_failed''
                   (correlation [] (sample_http\<lparr>rq_body := Body ''x''\<rparr>)), r'))"
proof
  have f: "passes_l0 (\<lambda>_. None) failing_pep sample_http" "\<not> revoked_subject failing_pep sample_http"
    "match_route (pc_routes failing_pep) (rq_method sample_http) (rq_path sample_http) = Some sample_route"
    by (simp_all add: passes_l0_def failing_pep_def sample_pep_def profile_defs revoked_subject_def is_revoked_def
       mget_def header_def sample_http_def header_defs match_route_def sample_route_def)
  have "\<not> token_grounds failing_pep sample_http req" for req
    by (simp add: token_grounds_def header_def sample_http_def mget_def header_defs)
  moreover have "\<exists>req. fst (build_request failing_pep sample_http sample_route (correlation [] sample_http)
      (caller_of (\<lambda>_. None) failing_pep sample_http)) = Some req"
    by (simp add: build_request_Some resource_props_def sample_route_def)
  ultimately show "check (\<lambda>_. None) failing_pep [] sample_http
     = Some (plain_outcome DenyForbidden ''l2_pdp_unavailable'' (correlation [] sample_http), sample_http)"
    using l2_fails_closed [OF f, of "[]"] by (auto simp: failing_pep_def)
next
  let ?r = "sample_http\<lparr>rq_body := Body ''x''\<rparr>" and ?rt = "sample_route\<lparr>rt_props := [''amount'']\<rparr>"
  have g: "passes_l0 (\<lambda>_. None) props_pep ?r" "\<not> revoked_subject props_pep ?r"
    "match_route (pc_routes props_pep) (rq_method ?r) (rq_path ?r) = Some ?rt"
    by (simp_all add: passes_l0_def props_pep_def sample_pep_def profile_defs revoked_subject_def is_revoked_def
       mget_def header_def sample_http_def header_defs match_route_def sample_route_def)
  have "unmarshal_map ''x'' = None" by code_simp
  then show "\<exists>r'. check (\<lambda>_. None) props_pep [] ?r
         = Some (plain_outcome DenyForbidden ''l2_request_build_failed'' (correlation [] ?r), r')"
    using l2_fails_closed [OF g, of "[]"] by simp
qed

text \<open>
  C21.  What reaches the protected handler was allowed, and is the request the client sent:
  same method, path, peer address and body (also when body fields were lifted into the
  decision), same headers except the correlation id, which is set, and the decision token,
  which is set when the outcome carries one.
\<close>

theorem forwarded_request:
  assumes "middleware idc p fresh r = Some (h, Forward f)"
  shows "allow_grounds idc p fresh r
     \<and> rq_body f = rq_body r \<and> rq_method f = rq_method r \<and> rq_path f = rq_path r \<and> rq_remote f = rq_remote r
     \<and> header f HeaderCorrelationID = correlation fresh r
     \<and> (\<forall>k. k \<notin> {HeaderCorrelationID, HeaderDecisionToken} \<longrightarrow> header f k = header r k)"
proof -
  obtain out r' where c: "check idc p fresh r = Some (out, r')" and f: "respond (pc_profile p) out r' = (h, Forward f)"
    using assms by (auto simp: middleware_def)
  have "r' = r" using check_allow(2) [OF c] respond_forward(1) [OF f] by blast
  then show ?thesis
    using check_allow(1,3) [OF c] respond_forward [OF f] by simp
qed

lemma forwarded_request_witness:
  "\<exists>f. allow_grounds (\<lambda>_. None) sample_pep [] sample_http
     \<and> rq_body f = rq_body sample_http \<and> rq_method f = rq_method sample_http
     \<and> rq_path f = rq_path sample_http \<and> rq_remote f = rq_remote sample_http
     \<and> header f HeaderCorrelationID = correlation [] sample_http
     \<and> (\<forall>k. k \<notin> {HeaderCorrelationID, HeaderDecisionToken} \<longrightarrow> header f k = header sample_http k)"
proof -
  have "middleware (\<lambda>_. None) sample_pep [] sample_http
      = Some (mput HeaderCorrelationID (correlation [] sample_http) [],
              Forward (set_header HeaderCorrelationID (correlation [] sample_http) sample_http))"
    by code_simp
  from forwarded_request [OF this] show ?thesis by blast
qed

text \<open>
  C22.  The mapping of refusals to HTTP is profile-specific: a step-up denial is announced in
  the step-up header with the required level, and answered 401 by an Edge PEP and 403 by any
  other; every other refusal is a 403 without that header, and nothing is forwarded.
\<close>

theorem refusal_mapping:
  assumes "check idc p fresh r = Some (out, r')" and "oc_kind out \<noteq> Allow"
  shows "\<exists>h st txt. middleware idc p fresh r = Some (h, Reply st txt)
     \<and> st = (if oc_kind out = DenyStepUp \<and> pc_profile p = ProfileEdge then 401 else 403)
     \<and> mget h HeaderStepUpRequired = (if oc_kind out = DenyStepUp then Some (oc_acr out) else None)
     \<and> mget h HeaderCorrelationID = Some (correlation fresh r)"
  using assms(2) check_allow(3) [OF assms(1)]
  by (cases "oc_kind out")
     (simp_all add: middleware_def assms(1) respond_def Let_def deny_json_def mget_mput mget_Nil header_defs
       del: mput.simps)

lemma refusal_mapping_witness:
  "\<exists>h st txt. middleware (\<lambda>_. None) sample_pep [] (sample_http\<lparr>rq_path := ''/other''\<rparr>) = Some (h, Reply st txt)
     \<and> st = (if oc_kind (plain_outcome DenyRoute ''l1_route_not_permitted'' (correlation [] sample_http)) = DenyStepUp
               \<and> pc_profile sample_pep = ProfileEdge then 401 else 403)
     \<and> mget h HeaderStepUpRequired =
         (if oc_kind (plain_outcome DenyRoute ''l1_route_not_permitted'' (correlation [] sample_http)) = DenyStepUp
          then Some (oc_acr (plain_outcome DenyRoute ''l1_route_not_permitted'' (correlation [] sample_http))) else None)
     \<and> mget h HeaderCorrelationID = Some (correlation [] (sample_http\<lparr>rq_path := ''/other''\<rparr>))"
proof (rule refusal_mapping)
  show "check (\<lambda>_. None) sample_pep [] (sample_http\<lparr>rq_path := ''/other''\<rparr>)
      = Some (plain_outcome DenyRoute ''l1_route_not_permitted'' (correlation [] sample_http),
              sample_http\<lparr>rq_path := ''/other''\<rparr>)"
    by (simp add: check_def sample_pep_def profile_defs check_l1_def match_route_def sample_route_def Let_def
        correlation_def header_def)
qed (simp add: plain_outcome_def)

text \<open>
  A denial is a step-up exactly if it carries a \<open>step_up\<close> obligation; the level required
  is that of the first one, and the empty string if it names none.  The reason of any other
  denial is the response's, or \<open>forbidden\<close>.  An allow never looks at obligations.
\<close>

theorem classify_response:
  "(oc_kind (classify resp cid) = Allow \<longleftrightarrow> decision resp)
   \<and> (oc_kind (classify resp cid) = DenyStepUp \<longleftrightarrow>
        \<not> decision resp \<and> (\<exists>ob \<in> set (obligations_of resp). ob_type ob = ObligationStepUp))
   \<and> (\<forall>pre ob post. \<not> decision resp \<and> obligations_of resp = pre @ ob # post \<and> ob_type ob = ObligationStepUp
        \<and> (\<forall>b \<in> set pre. ob_type b \<noteq> ObligationStepUp) \<longrightarrow>
        oc_acr (classify resp cid) = str_or_empty (get_str (entries (ob_details ob)) ''required_acr''))
   \<and> (oc_kind (classify resp cid) = DenyForbidden \<longrightarrow>
        oc_reason (classify resp cid) = (if reason_of resp = [] then ''forbidden'' else reason_of resp))
   \<and> (decision resp \<longrightarrow> oc_token (classify resp cid) = str_or_empty (token_value_of resp))"
proof -
  have f: "step_up obs = None \<longleftrightarrow> (\<forall>ob \<in> set obs. ob_type ob \<noteq> ObligationStepUp)" for obs
    by (auto simp: step_up_def find_None_iff)
  have g: "step_up (pre @ ob # post) = Some ob"
    if "ob_type ob = ObligationStepUp" "\<forall>b \<in> set pre. ob_type b \<noteq> ObligationStepUp" for pre ob post
    using that by (induction pre) (auto simp: step_up_def)
  show ?thesis
  proof (cases "resp_context resp")
    case None
    then show ?thesis
      by (auto simp: classify_def plain_outcome_def obligations_of_def reason_of_def token_value_of_def)
  next
    case (Some c)
    show ?thesis
    proof (cases "step_up (rc_obligations c)")
      case None
      then show ?thesis using Some f [of "rc_obligations c"]
        by (auto simp: classify_def plain_outcome_def obligations_of_def reason_of_def token_value_of_def
            split: option.split)
    next
      case (Some ob)
      then have "\<exists>ob \<in> set (rc_obligations c). ob_type ob = ObligationStepUp" using f [of "rc_obligations c"] by simp
      then show ?thesis using Some \<open>resp_context resp = Some c\<close> g
        by (auto simp: classify_def plain_outcome_def obligations_of_def reason_of_def token_value_of_def
            split: option.split)
    qed
  qed
qed

definition step_up_response :: response where
  "step_up_response = \<lparr>decision = False, resp_context = Some \<lparr>rc_token = None,
     rc_obligations = [\<lparr>ob_type = ''log'', ob_details = None\<rparr>,
       \<lparr>ob_type = ''step_up'', ob_details = Some [(''required_acr'', VStr ''AAL3'')]\<rparr>],
     rc_reason = ''step_up_required''\<rparr>\<rparr>"

lemma classify_response_witness:
  "oc_kind (classify step_up_response ''c'') = DenyStepUp \<and> oc_acr (classify step_up_response ''c'') = ''AAL3''"
proof
  let ?log = "\<lparr>ob_type = ''log'', ob_details = None\<rparr> :: obligation"
  let ?ob = "\<lparr>ob_type = ''step_up'', ob_details = Some [(''required_acr'', VStr ''AAL3'')]\<rparr> :: obligation"
  have o: "obligations_of step_up_response = [?log] @ ?ob # []" "\<not> decision step_up_response"
    by (simp_all add: step_up_response_def obligations_of_def)
  note c = classify_response [of step_up_response "''c''"]
  show "oc_kind (classify step_up_response ''c'') = DenyStepUp"
    using c [THEN conjunct2, THEN conjunct1] o by (simp add: ObligationStepUp_def)
  have "oc_acr (classify step_up_response ''c'') = str_or_empty (get_str (entries (ob_details ?ob)) ''required_acr'')"
    by (rule c [THEN conjunct2, THEN conjunct2, THEN conjunct1, rule_format, of "[?log]" ?ob "[]"])
       (use o in \<open>simp add: ObligationStepUp_def\<close>)
  then show "oc_acr (classify step_up_response ''c'') = ''AAL3''" by (simp add: get_str_def mget_def)
qed

end
