(* ===== verification/Policies.thy ===== *)
theory Policies
  imports Go_Value
begin

text \<open>
  The embedded policy bundle (\<open>policies/policies.go\<close>) and the test fixture over it
  (\<open>internal/testsupport/policyfixture\<close>).  The embedded file system is an argument: the entries
  \<open>fs.WalkDir\<close> visits, in its order, and the content of the files.
\<close>

section \<open>Loading\<close>

text \<open>A visit: the path, and the walk's error or whether the entry is a directory.\<close>

type_synonym 'e visit = "string \<times> ('e + bool)"

datatype 'e policies_error = WalkingBundle 'e | NoModules | ReadingData 'e | ParsingData

definition wants_module :: "string \<Rightarrow> bool" where
  "wants_module path \<longleftrightarrow> has_suffix path ''.rego'' \<and> \<not> has_suffix path ''_test.rego''"

fun walk_modules :: "(string \<Rightarrow> 'e + string) \<Rightarrow> 'e visit list \<Rightarrow> string smap \<Rightarrow> 'e + string smap" where
  "walk_modules read [] mods = Inr mods"
| "walk_modules read ((path, Inl e) # vs) mods = Inl e"
| "walk_modules read ((path, Inr is_dir) # vs) mods =
     (if is_dir \<or> \<not> has_suffix path ''.rego'' then walk_modules read vs mods
      else if has_suffix path ''_test.rego'' then walk_modules read vs mods
      else (case read path of Inl e \<Rightarrow> Inl e | Inr b \<Rightarrow> walk_modules read vs (mput path b mods)))"

definition policy_modules :: "(string \<Rightarrow> 'e + string) \<Rightarrow> 'e visit list \<Rightarrow> 'e policies_error + string smap" where
  "policy_modules read visits =
     (case walk_modules read visits [] of
        Inl e \<Rightarrow> Inl (WalkingBundle e)
      | Inr mods \<Rightarrow> if mods = [] then Inl NoModules else Inr mods)"

definition policy_data :: "(string \<Rightarrow> 'e + string) \<Rightarrow> 'e policies_error + mapv" where
  "policy_data read =
     (case read ''data.json'' of
        Inl e \<Rightarrow> Inl (ReadingData e)
      | Inr b \<Rightarrow> (case unmarshal_map b of None \<Rightarrow> Inl ParsingData | Some m \<Rightarrow> Inr m))"

section \<open>The fixture\<close>

text \<open>The synthetic domain's source text is an argument; assigning to a nil data map would panic.\<close>

definition fixture_modules :: "string \<Rightarrow> 'e policies_error + string smap \<Rightarrow> 'e policies_error + string smap" where
  "fixture_modules acct mods = (case mods of Inl e \<Rightarrow> Inl e | Inr ms \<Rightarrow> Inr (mput ''domain/acct.rego'' acct ms))"

datatype 'e fixture_error = FixturePolicies "'e policies_error" | FixtureNilMap

definition fixture_data :: "'e policies_error + mapv \<Rightarrow> 'e fixture_error + mapv" where
  "fixture_data data =
     (case data of
        Inl e \<Rightarrow> Inl (FixturePolicies e)
      | Inr None \<Rightarrow> Inl FixtureNilMap
      | Inr (Some m) \<Rightarrow>
          Inr (Some (mput ''required_attributes''
            (VObj [(''acct:settle'', VArr [VStr ''amount'', VStr ''currency''])]) m)))"

section \<open>Lemmas\<close>

lemma walk_modules_get:
  assumes "walk_modules read vs mods = Inr ms" and "distinct (map fst vs)"
  shows "mget ms k =
     (if (k, Inr False) \<in> set vs \<and> wants_module k then (case read k of Inr b \<Rightarrow> Some b | Inl _ \<Rightarrow> None) else mget mods k)"
  using assms
proof (induction read vs mods rule: walk_modules.induct)
  case (3 read path is_dir vs mods)
  have fresh: "(path, x) \<notin> set vs" for x using "3.prems"(2) by (auto simp: image_iff)
  show ?case
  proof (cases "is_dir \<or> \<not> wants_module path")
    case True
    then have "walk_modules read vs mods = Inr ms"
      using "3.prems"(1) by (auto simp: wants_module_def split: if_splits)
    then show ?thesis
      using 3 True fresh by (auto simp: wants_module_def split: if_splits)
  next
    case False
    then obtain b where b: "read path = Inr b" "walk_modules read vs (mput path b mods) = Inr ms"
      using "3.prems"(1) by (auto simp: wants_module_def split: sum.splits)
    then show ?thesis
      using "3.IH"(3) [of b] "3.prems"(2) False fresh by (auto simp: wants_module_def mget_mput)
  qed
qed auto

lemma walk_modules_wf: "walk_modules read vs mods = Inr ms \<Longrightarrow> smap_wf mods \<Longrightarrow> smap_wf ms"
  by (induction read vs mods rule: walk_modules.induct) (auto simp: smap_wf_mput split: if_splits sum.splits)

text \<open>What the bundle holds as a module under a path.\<close>

definition module_source :: "(string \<Rightarrow> 'e + string) \<Rightarrow> 'e visit list \<Rightarrow> string \<Rightarrow> string option" where
  "module_source read visits k =
     (if (k, Inr False) \<in> set visits \<and> wants_module k
      then (case read k of Inr b \<Rightarrow> Some b | Inl _ \<Rightarrow> None) else None)"

text \<open>
  The module set is exactly the \<open>.rego\<close> files that are not tests, each under its path with its
  content; there is at least one.
\<close>

lemma policy_modules_exact:
  assumes "policy_modules read visits = Inr ms" and "distinct (map fst visits)"
  shows "ms \<noteq> [] \<and> smap_wf ms
     \<and> (\<forall>k. mget ms k = module_source read visits k)"
proof -
  have w: "walk_modules read visits [] = Inr ms" "ms \<noteq> []"
    using assms(1) by (auto simp: policy_modules_def split: sum.splits if_splits)
  then show ?thesis using walk_modules_get [OF w(1) assms(2)] walk_modules_wf [OF w(1)] by (simp add: mget_Nil module_source_def)
qed

text \<open>The repository's own bundle: the paths of its files, and its data document.\<close>

definition embedded_visits :: "'e visit list" where
  "embedded_visits =
     [(''.'', Inr True), (''data.json'', Inr False), (''global'', Inr True), (''global/schema.rego'', Inr False),
      (''lib'', Inr True), (''lib/lib.rego'', Inr False), (''main.rego'', Inr False), (''profiles'', Inr True),
      (''profiles/profiles.rego'', Inr False)]"

definition embedded_data :: string where
  "embedded_data = ''{'' @ [CHR 0x0A] @ ''  '' @ [CHR 0x22] @ ''required_attributes'' @ [CHR 0x22] @ '': {}'' @ [CHR 0x0A]
     @ ''}'' @ [CHR 0x0A]"

lemma embedded_data_parses: "unmarshal_map embedded_data = Some (Some [(''required_attributes'', VObj [])])"
  by code_simp

lemma embedded_modules:
  "map fst (case walk_modules (\<lambda>p. Inr p :: unit + string) embedded_visits [] of Inr ms \<Rightarrow> ms | Inl _ \<Rightarrow> [])
     = [''global/schema.rego'', ''lib/lib.rego'', ''main.rego'', ''profiles/profiles.rego'']"
  by code_simp

end
