(* ===== verification/Services.thy ===== *)
theory Services
  imports Pdp_Client Policies
begin

text \<open>
  Assembly of the PDP and of the mTLS material (\<open>services/pdp.go\<close>, \<open>services/mtls.go\<close>,
  \<open>services/grpc.go\<close>): whether the engine is compiled from a pulled bundle or from the
  embedded policies with the adopter's additions, the default TTL of decision tokens, and where
  a workload's certificates come from.  OPA, the SPIFFE library,
  the file system and the environment are arguments.
\<close>

section \<open>The PDP service\<close>

record pdp_config =
  pg_secret :: string
  pg_ttl :: int
  pg_bundle :: string
  pg_modules :: "string smap"
  pg_data :: gmap

text \<open>Later entries override earlier ones, key by key, as in the two copying loops.\<close>

definition overlay :: "'v smap \<Rightarrow> 'v smap \<Rightarrow> 'v smap" where
  "overlay base extra = foldl (\<lambda>acc (k, v). mput k v acc) base extra"

datatype ('p, 'e) service_error =
    PoliciesFailed "'p policies_error"
  | DataNilMap
  | BundleFailed "'e bundle_error"
  | EngineFailedToPrepare string 'e

text \<open>
  The embedded policies come from \<open>read\<close> and \<open>visits\<close>.  Copying extra data into a nil data
  document would panic.
\<close>

definition pdp_service ::
  "(string \<Rightarrow> 'p + string) \<Rightarrow> 'p visit list \<Rightarrow> (string \<Rightarrow> 'e + (string \<times> string) list \<times> gmap)
     \<Rightarrow> (string \<Rightarrow> gmap \<Rightarrow> string smap \<Rightarrow> 'e + 'q) \<Rightarrow> pdp_config \<Rightarrow> ('p, 'e) service_error + 'q \<times> issuer"
where
  "pdp_service read visits read_bundle prepare cfg =
     (let iss = \<lparr>is_secret = pg_secret cfg, is_ttl = (if pg_ttl cfg = 0 then 300 * 1000000000 else pg_ttl cfg)\<rparr> in
      if pg_bundle cfg \<noteq> [] then
        (case engine_from_bundle read_bundle prepare (pg_bundle cfg) DefaultDecisionQuery of
           Inl e \<Rightarrow> Inl (BundleFailed e) | Inr eng \<Rightarrow> Inr (eng, iss))
      else
        (case policy_modules read visits of Inl e \<Rightarrow> Inl (PoliciesFailed e) | Inr ms \<Rightarrow>
        (case policy_data read of Inl e \<Rightarrow> Inl (PoliciesFailed e) | Inr d \<Rightarrow>
         if Option.is_none d \<and> pg_data cfg \<noteq> [] then Inl DataNilMap
         else
        (case new_engine prepare (overlay ms (pg_modules cfg)) (overlay (entries d) (pg_data cfg)) DefaultDecisionQuery of
           Inl (q, e) \<Rightarrow> Inl (EngineFailedToPrepare q e) | Inr eng \<Rightarrow> Inr (eng, iss)))))"

text \<open>\<open>PDPHandler\<close>: the facade over the assembled service.\<close>

definition pdp_handler ::
  "(string \<Rightarrow> string) \<Rightarrow> (string \<Rightarrow> string) \<Rightarrow> int
     \<Rightarrow> ('p, 'e) service_error + 'err prepared \<times> issuer
     \<Rightarrow> ('p, 'e) service_error + (string \<Rightarrow> string \<Rightarrow> string \<Rightarrow> reply)"
where
  "pdp_handler q json_err now svc =
     map_sum id (\<lambda>(eng, iss). facade q json_err (evaluate (eval_opa eng) iss now)) svc"

lemma pdp_service_bundle:
  assumes "pg_bundle cfg \<noteq> []" and "pdp_service read visits read_bundle prepare cfg = Inr (eng, iss)"
  shows "engine_from_bundle read_bundle prepare (pg_bundle cfg) DefaultDecisionQuery = Inr eng"
  using assms by (auto simp: pdp_service_def Let_def split: sum.splits)

lemma mget_fold_put:
  "mget (foldl (\<lambda>acc (k, v). mput k v acc) base extra) x =
     (case map_of (rev extra) x of Some v \<Rightarrow> Some v | None \<Rightarrow> mget base x)"
proof (induction extra arbitrary: base)
  case (Cons p extra)
  then show ?case by (cases p) (auto simp: mget_mput map_add_def split: option.splits)
qed simp

lemma map_of_rev_wf: "smap_wf m \<Longrightarrow> map_of (rev m) x = map_of m x"
proof (induction m)
  case (Cons p m)
  obtain a b where p: "p = (a, b)" by (cases p)
  have "a \<notin> set (map fst m)" using Cons.prems by (auto simp: p smap_wf_def)
  then have "map_of m a = None" by (simp add: map_of_eq_None_iff)
  then show ?case using Cons by (auto simp: p map_add_def smap_wf_def split: option.split)
qed simp

lemma mget_overlay:
  "smap_wf extra \<Longrightarrow> mget (overlay base extra) k = (case mget extra k of Some v \<Rightarrow> Some v | None \<Rightarrow> mget base k)"
  by (simp add: overlay_def mget_fold_put map_of_rev_wf) (simp add: mget_def)

section \<open>mTLS material\<close>

definition trust_domain :: "environ \<Rightarrow> string" where
  "trust_domain env = env_or env ''SVID_TRUST_DOMAIN'' ''vsp.local''"

definition mtls_configured :: "environ \<Rightarrow> bool" where
  "mtls_configured env \<longleftrightarrow> env ''SVID_CERT'' \<noteq> [] \<and> env ''SVID_KEY'' \<noteq> [] \<and> env ''SVID_BUNDLE'' \<noteq> []"

datatype 'e tls_error = WorkloadApi 'e | LoadSvid 'e | LoadBundle 'e

definition workload_source :: "(string \<Rightarrow> string \<Rightarrow> 'e + 'src) \<Rightarrow> environ \<Rightarrow> 'e tls_error + 'src option" where
  "workload_source from_api env =
     (let sock = env ''SPIFFE_ENDPOINT_SOCKET'' in
      if sock = [] then Inr None
      else (case from_api (trust_domain env) sock of
              Inl e \<Rightarrow> Inl (WorkloadApi e) | Inr src \<Rightarrow> Inr (Some src)))"

definition load_static_svid ::
  "(string \<Rightarrow> string \<Rightarrow> 'e + 'svid) \<Rightarrow> (string \<Rightarrow> string \<Rightarrow> 'e + 'bun) \<Rightarrow> environ
     \<Rightarrow> 'e tls_error + 'svid \<times> 'bun"
where
  "load_static_svid load_svid load_bundle env =
     (case load_svid (env ''SVID_CERT'') (env ''SVID_KEY'') of
        Inl e \<Rightarrow> Inl (LoadSvid e)
      | Inr svid \<Rightarrow>
          (case load_bundle (trust_domain env) (env ''SVID_BUNDLE'') of
             Inl e \<Rightarrow> Inl (LoadBundle e) | Inr b \<Rightarrow> Inr (svid, b)))"

text \<open>
  \<open>LoadServerTLS\<close> and \<open>LoadClientTLS\<close> differ only in the two configurations they build,
  \<open>of_source\<close> and \<open>of_svid\<close>: the live source first, the static files second, nothing third.
\<close>

definition load_tls ::
  "(string \<Rightarrow> string \<Rightarrow> 'e + 'src) \<Rightarrow> (string \<Rightarrow> string \<Rightarrow> 'e + 'svid) \<Rightarrow> (string \<Rightarrow> string \<Rightarrow> 'e + 'bun)
     \<Rightarrow> ('src \<Rightarrow> 'tls) \<Rightarrow> ('svid \<Rightarrow> 'bun \<Rightarrow> 'tls) \<Rightarrow> environ \<Rightarrow> 'e tls_error + 'tls option"
where
  "load_tls from_api load_svid load_bundle of_source of_svid env =
     (case workload_source from_api env of
        Inl e \<Rightarrow> Inl e
      | Inr (Some src) \<Rightarrow> Inr (Some (of_source src))
      | Inr None \<Rightarrow>
          if \<not> mtls_configured env then Inr None
          else map_sum id (\<lambda>(svid, b). Some (of_svid svid b)) (load_static_svid load_svid load_bundle env))"

datatype ('e, 'd) grpc_dial_error = GrpcTls "'e tls_error" | GrpcNoSvid | GrpcDial 'd

definition pdp_grpc_client ::
  "'e tls_error + 'tls option \<Rightarrow> (string \<Rightarrow> 'tls \<Rightarrow> 'd + 'conn) \<Rightarrow> string \<Rightarrow> ('e, 'd) grpc_dial_error + 'conn"
where
  "pdp_grpc_client client_tls dial addr =
     (case client_tls of
        Inl e \<Rightarrow> Inl (GrpcTls e)
      | Inr None \<Rightarrow> Inl GrpcNoSvid
      | Inr (Some cfg) \<Rightarrow> (case dial addr cfg of Inl e \<Rightarrow> Inl (GrpcDial e) | Inr conn \<Rightarrow> Inr conn))"

definition grpc_server_creds :: "'e tls_error + 'tls option \<Rightarrow> 'e tls_error + 'tls option" where
  "grpc_server_creds server_tls =
     (case server_tls of Inl e \<Rightarrow> Inl e | Inr None \<Rightarrow> Inr None | Inr (Some cfg) \<Rightarrow> Inr (Some cfg))"

section \<open>Properties\<close>

text \<open>
  A PDP assembled from the embedded policies compiles exactly the adopter's modules over
  the embedded \<open>.rego\<close> files that are not tests, and the adopter's data over \<open>data.json\<close>, both
  key by key; with a bundle configured it is assembled from the bundle alone, whatever the
  embedded policies and the extra ones are.  Tokens live 300 seconds unless a TTL is configured.
\<close>

theorem pdp_service_assembly:
  assumes "pdp_service read visits read_bundle prepare cfg = Inr (eng, iss)"
    and "smap_wf (pg_modules cfg)" and "smap_wf (pg_data cfg)" and "distinct (map fst visits)"
  shows "is_secret iss = pg_secret cfg
     \<and> is_ttl iss = (if pg_ttl cfg = 0 then 300 * 1000000000 else pg_ttl cfg)
     \<and> (if pg_bundle cfg \<noteq> [] then
          \<forall>read' visits' ms ds. pdp_service read' visits' read_bundle prepare
              (cfg\<lparr>pg_modules := ms, pg_data := ds\<rparr>) = Inr (eng, iss)
        else
          \<exists>b d ms' d'. read ''data.json'' = Inr b \<and> unmarshal_map b = Some d
             \<and> prepare ''data.vsp.authz.decision'' d' ms' = Inr eng
             \<and> (\<forall>k. mget ms' k = (case mget (pg_modules cfg) k of
                     Some v \<Rightarrow> Some v | None \<Rightarrow> module_source read visits k))
             \<and> (\<forall>k. mget d' k = (case mget (pg_data cfg) k of Some v \<Rightarrow> Some v | None \<Rightarrow> mget (entries d) k)))"
proof (cases "pg_bundle cfg = []")
  case True
  then obtain ms d where ms: "policy_modules read visits = Inr ms" and d: "policy_data read = Inr d"
    and ne: "new_engine prepare (overlay ms (pg_modules cfg)) (overlay (entries d) (pg_data cfg)) DefaultDecisionQuery = Inr eng"
    and iss: "iss = \<lparr>is_secret = pg_secret cfg, is_ttl = (if pg_ttl cfg = 0 then 300 * 1000000000 else pg_ttl cfg)\<rparr>"
    using assms(1) by (auto simp: pdp_service_def Let_def split: sum.splits if_splits)
  obtain b where b: "read ''data.json'' = Inr b" "unmarshal_map b = Some d"
    using d by (auto simp: policy_data_def split: sum.splits option.splits)
  have "prepare ''data.vsp.authz.decision'' (overlay (entries d) (pg_data cfg)) (overlay ms (pg_modules cfg)) = Inr eng"
    using ne by (auto simp: new_engine_def DefaultDecisionQuery_def Let_def split: sum.splits)
  moreover have "\<forall>k. mget (overlay ms (pg_modules cfg)) k
      = (case mget (pg_modules cfg) k of Some v \<Rightarrow> Some v | None \<Rightarrow> module_source read visits k)"
    using mget_overlay [OF assms(2), of ms] policy_modules_exact [OF ms assms(4)] by (simp split: option.split)
  ultimately show ?thesis
    using True b iss mget_overlay [OF assms(3), of "entries d"] by auto
next
  case False
  then show ?thesis using assms(1) by (auto simp: pdp_service_def Let_def split: sum.splits)
qed

definition sample_read :: "string \<Rightarrow> unit + string" where
  "sample_read p = (if p = ''data.json'' then Inr embedded_data else Inr p)"

definition sample_prepare :: "string \<Rightarrow> gmap \<Rightarrow> string smap \<Rightarrow> unit + string smap \<times> gmap" where
  "sample_prepare q d ms = Inr (ms, d)"

definition sample_pdp_config :: pdp_config where
  "sample_pdp_config =
     \<lparr>pg_secret = ''s'', pg_ttl = 0, pg_bundle = [], pg_modules = [(''lib/lib.rego'', ''mine'')], pg_data = []\<rparr>"

lemma pdp_service_assembly_witness:
  "\<exists>eng iss. pdp_service sample_read embedded_visits (\<lambda>_. Inl ()) sample_prepare sample_pdp_config = Inr (eng, iss)
     \<and> is_ttl iss = 300 * 1000000000
     \<and> mget (fst eng) ''lib/lib.rego'' = Some ''mine'' \<and> mget (fst eng) ''main.rego'' = Some ''main.rego''
     \<and> mget (fst eng) ''data.json'' = None \<and> mget (snd eng) ''required_attributes'' = Some (VObj [])"
proof -
  have "case pdp_service sample_read embedded_visits (\<lambda>_. Inl ()) sample_prepare sample_pdp_config of
      Inl _ \<Rightarrow> False | Inr _ \<Rightarrow> True"
    by code_simp
  then obtain eng iss where
    r: "pdp_service sample_read embedded_visits (\<lambda>_. Inl ()) sample_prepare sample_pdp_config = Inr (eng, iss)"
    by (auto split: sum.splits)
  have wf: "smap_wf (pg_modules sample_pdp_config)" "smap_wf (pg_data sample_pdp_config)"
    by (simp_all add: sample_pdp_config_def smap_wf_def)
  have dist: "distinct (map fst (embedded_visits :: unit visit list))" by (simp add: embedded_visits_def)
  note t = pdp_service_assembly [OF r wf dist]
  have "pg_bundle sample_pdp_config = []" by (simp add: sample_pdp_config_def)
  then obtain b d ms' d' where x: "sample_read ''data.json'' = Inr b" "unmarshal_map b = Some d"
    "sample_prepare ''data.vsp.authz.decision'' d' ms' = Inr eng"
    "\<forall>k. mget ms' k = (case mget (pg_modules sample_pdp_config) k of Some v \<Rightarrow> Some v
        | None \<Rightarrow> module_source sample_read embedded_visits k)"
    "\<forall>k. mget d' k = (case mget (pg_data sample_pdp_config) k of Some v \<Rightarrow> Some v | None \<Rightarrow> mget (entries d) k)"
    using t by auto
  have d: "d = Some [(''required_attributes'', VObj [])]"
    using x(1,2) embedded_data_parses by (simp add: sample_read_def)
  have "wants_module ''main.rego''" "\<not> wants_module ''data.json''"
    by (simp_all add: wants_module_def has_suffix_def)
  then show ?thesis
    using r t x(3) spec [OF x(4)] spec [OF x(5)] d
    by (auto simp: sample_prepare_def sample_pdp_config_def embedded_visits_def sample_read_def mget_def module_source_def)
qed

text \<open>
  A workload's TLS configuration comes from the SPIRE Workload API when its socket is
  configured, also when static files are configured too, and an error there is an error, not
  a fallback; from the static files when all three are configured; and otherwise there is
  none.  A gRPC client of the PDP is never dialled without one.
\<close>

theorem tls_selection:
  "(env ''SPIFFE_ENDPOINT_SOCKET'' \<noteq> [] \<longrightarrow>
      load_tls api svid bun of_source of_svid env
        = map_sum WorkloadApi (Some \<circ> of_source) (api (trust_domain env) (env ''SPIFFE_ENDPOINT_SOCKET'')))
   \<and> (env ''SPIFFE_ENDPOINT_SOCKET'' = [] \<and> \<not> mtls_configured env \<longrightarrow>
      load_tls api svid bun of_source of_svid env = Inr None)
   \<and> (env ''SPIFFE_ENDPOINT_SOCKET'' = [] \<and> mtls_configured env \<longrightarrow>
      (\<forall>cfg. load_tls api svid bun of_source of_svid env = Inr cfg \<longleftrightarrow>
         (\<exists>s b. svid (env ''SVID_CERT'') (env ''SVID_KEY'') = Inr s
            \<and> bun (trust_domain env) (env ''SVID_BUNDLE'') = Inr b \<and> cfg = Some (of_svid s b))))
   \<and> (\<forall>conn. pdp_grpc_client (load_tls api svid bun of_source of_svid env) dial addr = Inr conn \<longrightarrow>
      (\<exists>cfg. load_tls api svid bun of_source of_svid env = Inr (Some cfg) \<and> dial addr cfg = Inr conn))"
proof -
  have "map_sum id (\<lambda>(x, y). Some (of_svid x y)) (load_static_svid svid bun env) = Inr cfg \<longleftrightarrow>
         (\<exists>s b. svid (env ''SVID_CERT'') (env ''SVID_KEY'') = Inr s
            \<and> bun (trust_domain env) (env ''SVID_BUNDLE'') = Inr b \<and> cfg = Some (of_svid s b))" for cfg
    by (auto simp: load_static_svid_def split: sum.split)
  then show ?thesis
    by (auto simp: load_tls_def workload_source_def pdp_grpc_client_def Let_def split: sum.splits option.splits)
qed

lemma tls_selection_witness:
  "let api = (\<lambda>td sock. Inr (td, sock)) :: string \<Rightarrow> string \<Rightarrow> unit + string \<times> string;
       svid = (\<lambda>c k. Inr (c, k)) :: string \<Rightarrow> string \<Rightarrow> unit + string \<times> string;
       bun = (\<lambda>td b. Inl ()) :: string \<Rightarrow> string \<Rightarrow> unit + string in
   load_tls api svid bun (\<lambda>s. s) (\<lambda>s b. s) ((\<lambda>_. ''x'')(''SVID_TRUST_DOMAIN'' := []))
     = Inr (Some (''vsp.local'', ''x''))
   \<and> load_tls api svid bun (\<lambda>s. s) (\<lambda>s b. s) (\<lambda>_. []) = Inr None"
proof -
  let ?api = "(\<lambda>td sock. Inr (td, sock)) :: string \<Rightarrow> string \<Rightarrow> unit + string \<times> string"
  let ?svid = "(\<lambda>c k. Inr (c, k)) :: string \<Rightarrow> string \<Rightarrow> unit + string \<times> string"
  let ?bun = "(\<lambda>td b. Inl ()) :: string \<Rightarrow> string \<Rightarrow> unit + string"
  let ?dial = "(\<lambda>a c. Inr ()) :: string \<Rightarrow> string \<times> string \<Rightarrow> unit + unit"
  show ?thesis
    using tls_selection [of "(\<lambda>_. ''x'')(''SVID_TRUST_DOMAIN'' := [])" ?api ?svid ?bun "\<lambda>s. s" "\<lambda>s b. s" ?dial "[]"]
      tls_selection [of "\<lambda>_. []" ?api ?svid ?bun "\<lambda>s. s" "\<lambda>s b. s" ?dial "[]"]
    by (simp add: Let_def trust_domain_def env_or_def mtls_configured_def)
qed

end
