(* ===== verification/Pip.thy ===== *)
theory Pip
  imports Pep_Proofs
begin

text \<open>
  The seams to the outside (\<open>ports/pip/pip.go\<close>) with their in-memory implementations
  (\<open>testsupport/mock/mock.go\<close>).  The seam a PEP depends on is the workload attestor; its
  contract is a locale, and what an East-West PEP owes to it is proved once for every attestor.
\<close>

section \<open>The seams\<close>

text \<open>
  The lookups answer with an error or a value; the context argument carries no data.
\<close>

record ('e, 'f) pip =
  pip_lookup_subject :: "string \<Rightarrow> 'e + mapv"
  pip_validate_svid :: "string \<Rightarrow> 'e + bool"
  pip_latest_bundle :: "'f + string \<times> string"

section \<open>In-memory implementations\<close>

definition mock_lookup_subject :: "mapv smap \<Rightarrow> string \<Rightarrow> unit + mapv" where
  "mock_lookup_subject subjects sid = (case mget subjects sid of Some attrs \<Rightarrow> Inr attrs | None \<Rightarrow> Inr (Some []))"

datatype mock_error = NotSpiffe string

definition mock_validate_svid :: "bool smap \<Rightarrow> string \<Rightarrow> mock_error + bool" where
  "mock_validate_svid revoked sid =
     (if length sid < length ''spiffe://'' \<or> take (length ''spiffe://'') sid \<noteq> ''spiffe://''
      then Inl (NotSpiffe sid)
      else Inr (mget revoked sid \<noteq> Some True))"

definition mock_latest_bundle :: "string \<Rightarrow> string \<Rightarrow> unit + string \<times> string" where
  "mock_latest_bundle content version = Inr (content, version)"

text \<open>The PEP reads the error as \<open>None\<close>.\<close>

definition attestor_of :: "(string \<Rightarrow> 'e + bool) \<Rightarrow> string \<Rightarrow> bool option" where
  "attestor_of att i = (case att i of Inl _ \<Rightarrow> None | Inr b \<Rightarrow> Some b)"

section \<open>The contract of an attestor\<close>

text \<open>Only SPIFFE ids are ever attested.\<close>

locale workload_attestor =
  fixes att :: "string \<Rightarrow> bool option"
  assumes spiffe_only: "att i = Some True \<Longrightarrow> has_prefix i ''spiffe://''"
begin

lemma east_west_allow_attested:
  assumes "pc_profile cfg = ProfileEastWest" and "pc_attestor cfg = Some att"
    and "allow_grounds idc cfg fresh r"
  shows "\<exists>caller. has_prefix caller ''spiffe://'' \<and> att caller = Some True
     \<and> (Option.bind (rq_cert r) idc = Some caller
        \<or> (Option.bind (rq_cert r) idc = None \<and> pc_require_svid cfg = False \<and> header r HeaderCallerSpiffe = caller))"
proof -
  have "passes_l0 idc cfg r" using assms(3) by (simp add: allow_grounds_def)
  then obtain caller where c: "peer_identity idc cfg r = Some caller" "att caller = Some True"
    using assms(1,2) by (auto simp: passes_l0_def)
  then have "Option.bind (rq_cert r) idc = Some caller
        \<or> (Option.bind (rq_cert r) idc = None \<and> pc_require_svid cfg = False \<and> header r HeaderCallerSpiffe = caller)"
    by (auto simp: peer_identity_def split: option.splits if_splits)
  then show ?thesis using c spiffe_only by blast
qed

end

lemma mock_validate_true:
  "attestor_of (mock_validate_svid revoked) i = Some True \<longleftrightarrow> has_prefix i ''spiffe://'' \<and> mget revoked i \<noteq> Some True"
  by (auto simp: attestor_of_def mock_validate_svid_def has_prefix_def split: sum.splits if_splits)

interpretation mock: workload_attestor "attestor_of (mock_validate_svid revoked)" for revoked
  by unfold_locales (simp add: mock_validate_true)

section \<open>Properties\<close>

text \<open>
  An East-West PEP over the in-memory attestor allows only callers with a SPIFFE id that is
  not revoked; with \<open>RequirePeerSVID\<close> that id is the one of the peer's certificate.
\<close>

theorem mock_attested_callers:
  assumes "pc_profile p = ProfileEastWest" and "pc_attestor p = Some (attestor_of (mock_validate_svid revoked))"
    and "check idc p fresh r = Some (out, r')" and "oc_kind out = Allow"
  shows "\<exists>caller. has_prefix caller ''spiffe://'' \<and> mget revoked caller \<noteq> Some True
     \<and> (Option.bind (rq_cert r) idc = Some caller
        \<or> (Option.bind (rq_cert r) idc = None \<and> pc_require_svid p = False \<and> header r HeaderCallerSpiffe = caller))"
  using mock.east_west_allow_attested [OF assms(1,2)] check_allow(1) [OF assms(3)] assms(4) mock_validate_true by blast

definition east_west_pep :: "unit pep_config" where
  "east_west_pep = sample_pep\<lparr>pc_profile := ProfileEastWest, pc_require_svid := True,
     pc_attestor := Some (attestor_of (mock_validate_svid [(''spiffe://vsp.local/old'', True)]))\<rparr>"

lemma mock_attested_callers_witness:
  "\<exists>caller. has_prefix caller ''spiffe://'' \<and> mget [(''spiffe://vsp.local/old'', True)] caller \<noteq> Some True
     \<and> (Option.bind (rq_cert (sample_http\<lparr>rq_cert := Some ''leaf''\<rparr>)) (\<lambda>_. Some ''spiffe://vsp.local/gw'') = Some caller
        \<or> (Option.bind (rq_cert (sample_http\<lparr>rq_cert := Some ''leaf''\<rparr>)) (\<lambda>_. Some ''spiffe://vsp.local/gw'') = None
            \<and> pc_require_svid east_west_pep = False
            \<and> header (sample_http\<lparr>rq_cert := Some ''leaf''\<rparr>) HeaderCallerSpiffe = caller))"
proof -
  let ?r = "sample_http\<lparr>rq_cert := Some ''leaf''\<rparr>"
  have e: "pc_profile east_west_pep = ProfileEastWest"
    "pc_attestor east_west_pep = Some (attestor_of (mock_validate_svid [(''spiffe://vsp.local/old'', True)]))"
    by (simp_all add: east_west_pep_def)
  have "case check (\<lambda>_. Some ''spiffe://vsp.local/gw'') east_west_pep [] ?r of
      Some (out, r') \<Rightarrow> oc_kind out = Allow | None \<Rightarrow> False"
    by code_simp
  then obtain out r' where "check (\<lambda>_. Some ''spiffe://vsp.local/gw'') east_west_pep [] ?r = Some (out, r')" "oc_kind out = Allow"
    by (auto split: option.splits)
  from mock_attested_callers [OF e this] show ?thesis .
qed

end
