(* ===== verification/Sidecar.thy ===== *)
theory Sidecar
  imports Pep_Proofs Services Pip
begin

text \<open>
  The configuration-driven PEP sidecar (\<open>cmd/zta-pep/main.go\<close>): validation of the
  configuration, choice of the PDP transport, the handler that combines the PEP, the reverse
  proxy, the health check and the CAEP receiver, and its behaviour over a sequence of
  requests.  The YAML decoder, \<open>url.Parse\<close>, the upstream behind the reverse proxy and the
  SPIFFE library are arguments.
\<close>

section \<open>Configuration\<close>

record sc_config =
  sc_listen :: string
  sc_profile :: string
  sc_pep_id :: string
  sc_upstream :: string
  sc_require_svid :: bool
  sc_token_secret :: string
  sc_caep_secret :: string
  sc_http_url :: string
  sc_grpc_addr :: string
  sc_routes :: "route list"

datatype 'e config_error = ConfigRead 'e | ConfigParse 'e | ConfigProfile string | ConfigMissing | ConfigNoRoute

definition parse_config :: "(string \<Rightarrow> 'e + sc_config) \<Rightarrow> string \<Rightarrow> 'e config_error + sc_config" where
  "parse_config yaml b =
     (case yaml b of
        Inl e \<Rightarrow> Inl (ConfigParse e)
      | Inr cfg \<Rightarrow>
          if \<not> (sc_profile cfg = ProfileEdge \<or> sc_profile cfg = ProfileEastWest \<or> sc_profile cfg = ProfilePartner)
          then Inl (ConfigProfile (sc_profile cfg))
          else if sc_listen cfg = [] \<or> sc_upstream cfg = [] \<or> sc_pep_id cfg = [] then Inl ConfigMissing
          else if sc_routes cfg = [] then Inl ConfigNoRoute
          else Inr cfg)"

definition load_config ::
  "(string \<Rightarrow> 'e + string) \<Rightarrow> (string \<Rightarrow> 'e + sc_config) \<Rightarrow> string \<Rightarrow> 'e config_error + sc_config"
where
  "load_config read_file yaml path =
     (case read_file path of Inl e \<Rightarrow> Inl (ConfigRead e) | Inr b \<Rightarrow> parse_config yaml b)"

text \<open>\<open>buildPDP\<close>: gRPC is preferred over HTTP, and one of them is required.\<close>

datatype 'conn pdp_transport_choice = OverGrpc 'conn | OverHttp string

datatype 'd pdp_choice_error = GrpcClientFailed 'd | NoPdpConfigured

definition build_pdp ::
  "(string \<Rightarrow> 'd + 'conn) \<Rightarrow> sc_config \<Rightarrow> 'd pdp_choice_error + 'conn pdp_transport_choice"
where
  "build_pdp grpc_client cfg =
     (if sc_grpc_addr cfg \<noteq> [] then
        (case grpc_client (sc_grpc_addr cfg) of Inl e \<Rightarrow> Inl (GrpcClientFailed e) | Inr c \<Rightarrow> Inr (OverGrpc c))
      else if sc_http_url cfg \<noteq> [] then Inr (OverHttp (sc_http_url cfg))
      else Inl NoPdpConfigured)"

definition routes :: "sc_config \<Rightarrow> route list" where
  "routes cfg =
     map (\<lambda>x. \<lparr>rt_method = rt_method x, rt_path = rt_path x, rt_action = rt_action x, rt_type = rt_type x,
               rt_props = rt_props x\<rparr>) (sc_routes cfg)"

definition attested_in_trust_domain :: "string \<Rightarrow> bool option" where
  "attested_in_trust_domain i = Some (has_prefix i ''spiffe://'')"

interpretation trust_domain: workload_attestor attested_in_trust_domain
  by unfold_locales (simp add: attested_in_trust_domain_def)

section \<open>The handler\<close>

definition guard_config :: "sc_config \<Rightarrow> (request \<Rightarrow> 'e + response) \<Rightarrow> int \<Rightarrow> cache \<Rightarrow> 'e pep_config" where
  "guard_config cfg pdp now c =
     \<lparr>pc_profile = sc_profile cfg, pc_id = sc_pep_id cfg, pc_routes = routes cfg, pc_pdp = Some pdp,
      pc_attestor = Some attested_in_trust_domain, pc_require_svid = sc_require_svid cfg,
      pc_verifier =
        (if sc_token_secret cfg = [] then None
         else Some (verify_token \<lparr>is_secret = sc_token_secret cfg, is_ttl = 60 * 1000000000\<rparr> now)),
      pc_revocations = (if sc_caep_secret cfg = [] then None else Some (is_revoked c))\<rparr>"

text \<open>The upstream's response, and its rewriting by an Edge sidecar.\<close>

record upstream_response =
  up_status :: nat
  up_headers :: "string smap"
  up_body :: string

definition challenge :: "string \<Rightarrow> string" where
  "challenge acr =
     print_j (JObj [(''error'', JStr ''step_up_required''), (''method'', JStr ''mfa''), (''required_acr'', JStr acr)])"

definition modify_response :: "profile \<Rightarrow> upstream_response \<Rightarrow> upstream_response" where
  "modify_response prof u =
     (if prof \<noteq> ProfileEdge then u
      else (let acr = str_or_empty (mget (up_headers u) HeaderStepUpRequired) in
            if acr = [] then u
            else u\<lparr>up_status := 401, up_body := challenge acr,
                   up_headers := mput ''Content-Length'' (show_nat (length (challenge acr)))
                                   (mput ''Content-Type'' ''application/json'' (up_headers u))\<rparr>))"

datatype sc_result =
    ScEvents nat string
  | ScHealth
  | ScRefused "string smap" nat string
  | ScProxied "string smap" upstream_response
  | ScPanic

text \<open>
  The mux: \<open>POST /events\<close> only when a CAEP secret is configured, \<open>GET /healthz\<close> (and \<open>HEAD\<close>),
  and everything else through the guard.
\<close>

definition is_events :: "sc_config \<Rightarrow> http_request \<Rightarrow> bool" where
  "is_events cfg r \<longleftrightarrow> sc_caep_secret cfg \<noteq> [] \<and> rq_method r = ''POST'' \<and> rq_path r = ''/events''"

definition is_health :: "http_request \<Rightarrow> bool" where
  "is_health r \<longleftrightarrow> (rq_method r = ''GET'' \<or> rq_method r = ''HEAD'') \<and> rq_path r = ''/healthz''"

definition sc_handle ::
  "(string \<Rightarrow> string option) \<Rightarrow> (http_request \<Rightarrow> upstream_response) \<Rightarrow> sc_config
     \<Rightarrow> (request \<Rightarrow> 'e + response) \<Rightarrow> int \<Rightarrow> string \<Rightarrow> http_request \<Rightarrow> cache \<Rightarrow> sc_result \<times> cache"
where
  "sc_handle idc proxy cfg pdp now fresh r c =
     (if is_events cfg r then
        (case receive (sc_caep_secret cfg) (fst (read_all (rq_body r))) c of
           ((st, txt), c') \<Rightarrow> (ScEvents st txt, c'))
      else if is_health r then (ScHealth, c)
      else (case middleware idc (guard_config cfg pdp now c) fresh r of
              None \<Rightarrow> ScPanic
            | Some (h, Reply st txt) \<Rightarrow> ScRefused h st txt
            | Some (h, Forward f) \<Rightarrow> ScProxied h (modify_response (sc_profile cfg) (proxy f)), c))"

text \<open>\<open>handler\<close>: it fails on an upstream that does not parse, and \<open>pep.New\<close> may panic.\<close>

datatype 'u handler_error = InvalidUpstream 'u | GuardPanic pep_panic

definition sc_handler ::
  "(string \<Rightarrow> 'u + 't) \<Rightarrow> ('t \<Rightarrow> http_request \<Rightarrow> upstream_response) \<Rightarrow> (string \<Rightarrow> string option)
     \<Rightarrow> sc_config \<Rightarrow> (request \<Rightarrow> 'e + response)
     \<Rightarrow> 'u handler_error + (int \<Rightarrow> string \<Rightarrow> http_request \<Rightarrow> cache \<Rightarrow> sc_result \<times> cache)"
where
  "sc_handler parse_url proxy idc cfg pdp =
     (case parse_url (sc_upstream cfg) of
        Inl e \<Rightarrow> Inl (InvalidUpstream e)
      | Inr target \<Rightarrow>
          (case new_pep (guard_config cfg pdp 0 new_cache) of
             Inl e \<Rightarrow> Inl (GuardPanic e)
           | Inr _ \<Rightarrow> Inr (sc_handle idc (proxy target) cfg pdp)))"

section \<open>Start-up\<close>

datatype ('e, 'd, 'u, 't) start_error =
    StartConfig "'e config_error"
  | StartPdp "'d pdp_choice_error"
  | StartHandler "'u handler_error"
  | StartTls "'t tls_error"
  | StartNoSvid

text \<open>
  \<open>run\<close>, up to listening: \<open>pdp_of\<close> is the PDP behind a transport and \<open>tls\<close> what
  \<open>LoadServerTLS\<close> gives, which is asked only if peers have to present SVIDs.  The result is the
  configuration, the handler, and the TLS configuration it is served under, if any.
\<close>

definition sc_start ::
  "(string \<Rightarrow> 'e + string) \<Rightarrow> (string \<Rightarrow> 'e + sc_config) \<Rightarrow> (string \<Rightarrow> 'd + 'conn)
     \<Rightarrow> ('conn pdp_transport_choice \<Rightarrow> request \<Rightarrow> 'r + response)
     \<Rightarrow> (string \<Rightarrow> 'u + 'url) \<Rightarrow> ('url \<Rightarrow> http_request \<Rightarrow> upstream_response) \<Rightarrow> (string \<Rightarrow> string option)
     \<Rightarrow> 't tls_error + 'tls option \<Rightarrow> string
     \<Rightarrow> ('e, 'd, 'u, 't) start_error
        + sc_config \<times> (int \<Rightarrow> string \<Rightarrow> http_request \<Rightarrow> cache \<Rightarrow> sc_result \<times> cache) \<times> 'tls option"
where
  "sc_start read_file yaml grpc_client pdp_of parse_url proxy idc tls path =
     (case load_config read_file yaml path of Inl e \<Rightarrow> Inl (StartConfig e) | Inr cfg \<Rightarrow>
     (case build_pdp grpc_client cfg of Inl e \<Rightarrow> Inl (StartPdp e) | Inr choice \<Rightarrow>
     (case sc_handler parse_url proxy idc cfg (pdp_of choice) of Inl e \<Rightarrow> Inl (StartHandler e) | Inr h \<Rightarrow>
      if sc_require_svid cfg then
        (case tls of Inl e \<Rightarrow> Inl (StartTls e) | Inr None \<Rightarrow> Inl StartNoSvid | Inr (Some c) \<Rightarrow> Inr (cfg, h, Some c))
      else Inr (cfg, h, None))))"

text \<open>\<open>main\<close>: where the configuration is read from, and exit code 1 when the start fails.\<close>

definition config_path :: "environ \<Rightarrow> string option \<Rightarrow> string" where
  "config_path env flag = (case flag of Some p \<Rightarrow> p | None \<Rightarrow> env_or env ''ZTA_PEP_CONFIG'' ''/etc/zta/pep.yaml'')"

definition sc_main ::
  "(string \<Rightarrow> ('e, 'd, 'u, 't) start_error + 'started) \<Rightarrow> environ \<Rightarrow> string option \<Rightarrow> nat + 'started"
where
  "sc_main start env flag = (case start (config_path env flag) of Inl _ \<Rightarrow> Inl 1 | Inr s \<Rightarrow> Inr s)"

section \<open>A sequence of requests\<close>

text \<open>Each request comes with the clock reading and the random bytes of its handling.\<close>

type_synonym arrival = "int \<times> string \<times> http_request"

fun sc_run ::
  "(string \<Rightarrow> string option) \<Rightarrow> (http_request \<Rightarrow> upstream_response) \<Rightarrow> sc_config
     \<Rightarrow> (request \<Rightarrow> 'e + response) \<Rightarrow> arrival list \<Rightarrow> cache \<Rightarrow> sc_result list \<times> cache"
where
  "sc_run idc proxy cfg pdp [] c = ([], c)"
| "sc_run idc proxy cfg pdp ((now, fresh, r) # as) c =
     (case sc_handle idc proxy cfg pdp now fresh r c of (res, c') \<Rightarrow>
        (case sc_run idc proxy cfg pdp as c' of (rs, c'') \<Rightarrow> (res # rs, c'')))"

definition event_bodies :: "sc_config \<Rightarrow> arrival list \<Rightarrow> string option list" where
  "event_bodies cfg as =
     map (\<lambda>(now, fresh, r). fst (read_all (rq_body r))) (filter (\<lambda>(now, fresh, r). is_events cfg r) as)"

lemma handle_cache:
  "snd (sc_handle idc proxy cfg pdp now fresh r c) =
     (if is_events cfg r then snd (receive (sc_caep_secret cfg) (fst (read_all (rq_body r))) c) else c)"
  by (auto simp: sc_handle_def split: prod.split)

lemma run_cache:
  "snd (sc_run idc proxy cfg pdp as c) = receive_all (sc_caep_secret cfg) (event_bodies cfg as) c"
proof (induction as arbitrary: c)
  case Nil
  then show ?case by (simp add: event_bodies_def receive_all_def)
next
  case (Cons a as)
  obtain now fresh r where a: "a = (now, fresh, r)" by (cases a) auto
  obtain res c' where h: "sc_handle idc proxy cfg pdp now fresh r c = (res, c')" by fastforce
  have "snd (sc_run idc proxy cfg pdp (a # as) c) = snd (sc_run idc proxy cfg pdp as c')"
    by (simp add: a h split: prod.split)
  then show ?case
    using handle_cache [of idc proxy cfg pdp now fresh r c] h
    by (simp add: Cons a event_bodies_def receive_all_def)
qed

lemma guard_new [simp]: "new_pep (guard_config cfg pdp now c) = Inr (guard_config cfg pdp now c)"
  by (simp add: new_pep_def guard_config_def Option.is_none_def)

lemma guard_not_none: "\<exists>x. middleware idc (guard_config cfg pdp now c) fresh r = Some x"
  using check_total [OF guard_new, of idc cfg pdp now c fresh r] by (auto simp: middleware_def)

lemma handle_proxied:
  assumes "fst (sc_handle idc proxy cfg pdp now fresh r c) = ScProxied h u"
  shows "allow_grounds idc (guard_config cfg pdp now c) fresh r"
    "\<exists>f. middleware idc (guard_config cfg pdp now c) fresh r = Some (h, Forward f)
         \<and> u = modify_response (sc_profile cfg) (proxy f)"
proof -
  obtain f where f: "middleware idc (guard_config cfg pdp now c) fresh r = Some (h, Forward f)"
    "u = modify_response (sc_profile cfg) (proxy f)"
    using assms by (auto simp: sc_handle_def split: prod.splits option.splits mw_action.splits if_splits)
  then show "\<exists>f. middleware idc (guard_config cfg pdp now c) fresh r = Some (h, Forward f)
         \<and> u = modify_response (sc_profile cfg) (proxy f)" by blast
  obtain out r' where c: "check idc (guard_config cfg pdp now c) fresh r = Some (out, r')"
    and "respond (sc_profile cfg) out r' = (h, Forward f)"
    using f(1) by (auto simp: middleware_def guard_config_def)
  then show "allow_grounds idc (guard_config cfg pdp now c) fresh r"
    using check_allow(1) [OF c] respond_forward(1) by blast
qed

text \<open>
  The handler is built exactly if the upstream URL parses, and then serves every request
  without a panic; what it proxies was allowed by the guard at that moment: the L1 route, the
  revocations received so far, and the decision.
\<close>

lemma guarded:
  "case sc_handler parse_url proxy idc cfg pdp of
     Inl e \<Rightarrow> (\<exists>u. parse_url (sc_upstream cfg) = Inl u \<and> e = InvalidUpstream u)
   | Inr h \<Rightarrow>
       (\<exists>t. parse_url (sc_upstream cfg) = Inr t \<and> h = sc_handle idc (proxy t) cfg pdp)
       \<and> (\<nexists>now fresh r c. fst (h now fresh r c) = ScPanic)
       \<and> (\<nexists>now fresh r c hd u. fst (h now fresh r c) = ScProxied hd u
             \<and> \<not> allow_grounds idc (guard_config cfg pdp now c) fresh r)"
proof -
  have "fst (sc_handle idc p cfg pdp now fresh r c) \<noteq> ScPanic" for p now fresh r c
    using guard_not_none [of idc cfg pdp now c fresh r]
    by (auto simp: sc_handle_def split: prod.split option.split mw_action.split)
  moreover have "allow_grounds idc (guard_config cfg pdp now c) fresh r"
    if "fst (sc_handle idc p cfg pdp now fresh r c) = ScProxied hd u" for p now fresh r c hd u
    using that by (rule handle_proxied)
  ultimately show ?thesis by (auto simp: sc_handler_def split: sum.split)
qed

section \<open>Properties\<close>

text \<open>
  A configuration file is accepted exactly if it decodes, names one of the three
  profiles, and has a listen address, an upstream, a PEP id and at least one route; the
  sidecar then runs over gRPC if a gRPC address is given, over HTTP if only an HTTP URL is,
  and not at all if neither is.
\<close>

theorem config_accepted:
  "(parse_config yaml b = Inr cfg \<longleftrightarrow>
      yaml b = Inr cfg \<and> sc_profile cfg \<in> {''edge'', ''east_west'', ''partner''} \<and> sc_listen cfg \<noteq> []
      \<and> sc_upstream cfg \<noteq> [] \<and> sc_pep_id cfg \<noteq> [] \<and> sc_routes cfg \<noteq> [])
   \<and> build_pdp dial cfg =
       (if sc_grpc_addr cfg \<noteq> [] then map_sum GrpcClientFailed OverGrpc (dial (sc_grpc_addr cfg))
        else if sc_http_url cfg \<noteq> [] then Inr (OverHttp (sc_http_url cfg))
        else Inl NoPdpConfigured)"
  by (auto simp: parse_config_def profile_defs build_pdp_def split: sum.split)

text \<open>
  C35.  A sidecar that started was configured with one of the three profiles, a listen address,
  an upstream, a PEP id and a route, and over a PDP transport, gRPC if an address for it is
  given; it serves mTLS exactly if peers have to present an SVID.  Its handler never panics and
  proxies a request only if the guard allows it with the revocations received by then.
\<close>

theorem sidecar_started:
  "case sc_start read_file yaml grpc_client pdp_of parse_url proxy idc tls path of
     Inl _ \<Rightarrow> True
   | Inr (cfg, h, served) \<Rightarrow>
       sc_profile cfg \<in> {''edge'', ''east_west'', ''partner''} \<and> sc_listen cfg \<noteq> [] \<and> sc_upstream cfg \<noteq> []
       \<and> sc_pep_id cfg \<noteq> [] \<and> sc_routes cfg \<noteq> []
       \<and> (case served of None \<Rightarrow> sc_require_svid cfg = False | Some c \<Rightarrow> sc_require_svid cfg \<and> tls = Inr (Some c))
       \<and> (\<exists>choice. (if sc_grpc_addr cfg \<noteq> []
                     then \<exists>conn. grpc_client (sc_grpc_addr cfg) = Inr conn \<and> choice = OverGrpc conn
                     else sc_http_url cfg \<noteq> [] \<and> choice = OverHttp (sc_http_url cfg))
            \<and> (\<nexists>now fresh r c. fst (h now fresh r c) = ScPanic)
            \<and> (\<nexists>now fresh r c hd u. fst (h now fresh r c) = ScProxied hd u
                  \<and> \<not> allow_grounds idc (guard_config cfg (pdp_of choice) now c) fresh r))"
proof (cases "sc_start read_file yaml grpc_client pdp_of parse_url proxy idc tls path")
  case (Inr res)
  obtain cfg h served where res: "res = (cfg, h, served)" by (cases res) auto
  obtain b choice where c: "parse_config yaml b = Inr cfg" "build_pdp grpc_client cfg = Inr choice"
    "sc_handler parse_url proxy idc cfg (pdp_of choice) = Inr h"
    "case served of None \<Rightarrow> sc_require_svid cfg = False | Some c \<Rightarrow> sc_require_svid cfg \<and> tls = Inr (Some c)"
    using Inr unfolding res sc_start_def load_config_def by (auto split: sum.splits if_splits option.splits)
  have "if sc_grpc_addr cfg \<noteq> [] then \<exists>conn. grpc_client (sc_grpc_addr cfg) = Inr conn \<and> choice = OverGrpc conn
        else sc_http_url cfg \<noteq> [] \<and> choice = OverHttp (sc_http_url cfg)"
    using c(2) by (auto simp: build_pdp_def split: if_splits sum.splits)
  moreover have "sc_profile cfg \<in> {''edge'', ''east_west'', ''partner''} \<and> sc_listen cfg \<noteq> [] \<and> sc_upstream cfg \<noteq> []
       \<and> sc_pep_id cfg \<noteq> [] \<and> sc_routes cfg \<noteq> []"
    using c(1) by (auto simp: parse_config_def profile_defs split: sum.splits if_splits)
  ultimately show ?thesis
    using guarded [where parse_url = parse_url and proxy = proxy and idc = idc and cfg = cfg and pdp = "pdp_of choice"] c(3,4) by (auto simp: Inr res)
qed simp

lemma revoked_not_proxied:
  assumes "sc_caep_secret cfg \<noteq> []" and "header r HeaderSubjectID \<noteq> []" and "is_revoked c (header r HeaderSubjectID)"
  shows "fst (sc_handle idc proxy cfg pdp now fresh r c) \<noteq> ScProxied h u"
proof -
  have "revoked_subject (guard_config cfg pdp now c) r"
    using assms by (simp add: revoked_subject_def guard_config_def)
  then have "\<not> allow_grounds idc (guard_config cfg pdp now c) fresh r" by (simp add: allow_grounds_def)
  then show ?thesis using handle_proxied(1) by blast
qed

text \<open>
  Over any history of requests to a sidecar with a CAEP secret, if the last authentic
  event about a subject among those posted to \<open>/events\<close> is a revocation, the next request in
  that subject's name is not proxied.
\<close>

theorem sidecar_revokes:
  assumes "sc_caep_secret cfg \<noteq> []" and "header r HeaderSubjectID = s" and "s \<noteq> []"
    and "filter (speaks s) (concat (map (accepted (sc_caep_secret cfg)) (event_bodies cfg history))) = es @ [e]"
    and "ev_type e = EventSessionRevoked"
  shows "\<nexists>h u. fst (sc_handle idc proxy cfg pdp now fresh r
                      (snd (sc_run idc proxy cfg pdp history new_cache))) = ScProxied h u"
proof -
  let ?c = "snd (sc_run idc proxy cfg pdp history new_cache)"
  have "is_revoked ?c s"
    using assms(4,5) by (cases es) (simp_all add: run_cache receive_all_fold rc.fold_spec)
  then show ?thesis using revoked_not_proxied [OF assms(1)] assms(2,3) by blast
qed

definition sample_sidecar :: sc_config where
  "sample_sidecar = \<lparr>sc_listen = '':8080'', sc_profile = ''edge'', sc_pep_id = ''edge-1'',
     sc_upstream = ''http://127.0.0.1:9000'', sc_require_svid = False, sc_token_secret = [],
     sc_caep_secret = ''k'', sc_http_url = ''http://pdp'', sc_grpc_addr = [], sc_routes = [sample_route]\<rparr>"

definition sample_push :: http_request where
  "sample_push = \<lparr>rq_method = ''POST'', rq_path = ''/events'', rq_headers = [],
     rq_body = Body (sign_event ''k'' 0 sample_event), rq_remote = [], rq_cert = None\<rparr>"

definition open_pdp :: "request \<Rightarrow> unit + response" where
  "open_pdp r = Inr \<lparr>decision = True, resp_context = None\<rparr>"

definition echo_upstream :: "http_request \<Rightarrow> upstream_response" where
  "echo_upstream r = \<lparr>up_status = 200, up_headers = [], up_body = rq_path r\<rparr>"

lemma accepted_sample: "accepted ''k'' (Some (sign_event ''k'' 0 sample_event)) = [sample_event\<lparr>ev_iat := unix 0\<rparr>]"
  using verify_signed [OF sample_event_wf, of "''k''" "''k''" 0] trim_seal
  by (simp add: accepted_def sign_event_def)

lemma sidecar_revokes_witness:
  "\<nexists>h u. fst (sc_handle (\<lambda>_. None) echo_upstream sample_sidecar open_pdp 0 [] sample_http
            (snd (sc_run (\<lambda>_. None) echo_upstream sample_sidecar open_pdp [(0, [], sample_push)] new_cache)))
       = ScProxied h u"
proof (rule sidecar_revokes)
  from accepted_sample show "filter (speaks ''u-1'') (concat (map (accepted (sc_caep_secret sample_sidecar))
      (event_bodies sample_sidecar [(0, [], sample_push)]))) = [] @ [sample_event\<lparr>ev_iat := unix 0\<rparr>]"
    by (simp add: event_bodies_def is_events_def sample_push_def sample_sidecar_def speaks_def sample_event_def)
  show "ev_type (sample_event\<lparr>ev_iat := unix 0\<rparr>) = EventSessionRevoked" by (simp add: sample_event_def)
qed (simp_all add: sample_sidecar_def header_def sample_http_def mget_def)

text \<open>
  An Edge sidecar turns an upstream answer that carries a step-up requirement into a 401
  challenge with a consistent length, and passes every other answer through unchanged; a
  sidecar of another profile changes nothing.
\<close>

theorem edge_challenge:
  "modify_response prof u =
     (case (prof = ProfileEdge, mget (up_headers u) HeaderStepUpRequired) of
        (True, Some (a # acr)) \<Rightarrow>
          \<lparr>up_status = 401,
           up_headers = mput ''Content-Length'' (show_nat (length (challenge (a # acr))))
                          (mput ''Content-Type'' ''application/json'' (up_headers u)),
           up_body = challenge (a # acr)\<rparr>
      | _ \<Rightarrow> u)
   \<and> mget (up_headers (modify_response prof u)) HeaderStepUpRequired = mget (up_headers u) HeaderStepUpRequired"
proof (cases "mget (up_headers u) HeaderStepUpRequired")
  case (Some acr)
  then show ?thesis
    by (cases acr) (auto simp: modify_response_def Let_def mget_mput header_defs split: bool.split)
qed (auto simp: modify_response_def split: bool.split)

text \<open>
  C33.  An East-West sidecar proxies only for a caller with a SPIFFE id; with
  \<open>require_peer_svid\<close> that id is the one of the verified peer certificate, and only without it
  may the caller header stand in for a missing certificate.
\<close>

theorem east_west_caller:
  assumes "sc_profile cfg = ProfileEastWest"
    and "fst (sc_handle idc proxy cfg pdp now fresh r c) = ScProxied h u"
  shows "\<exists>caller. has_prefix caller ''spiffe://''
     \<and> (Option.bind (rq_cert r) idc = Some caller
        \<or> (Option.bind (rq_cert r) idc = None \<and> sc_require_svid cfg = False
            \<and> header r HeaderCallerSpiffe = caller))"
  using trust_domain.east_west_allow_attested [OF _ _ handle_proxied(1) [OF assms(2)]] assms(1)
  by (auto simp: guard_config_def)

lemma east_west_caller_witness:
  "\<exists>caller. has_prefix caller ''spiffe://''
     \<and> (Option.bind (rq_cert (sample_http\<lparr>rq_cert := Some ''leaf''\<rparr>)) (\<lambda>_. Some ''spiffe://vsp.local/gw'') = Some caller
        \<or> (Option.bind (rq_cert (sample_http\<lparr>rq_cert := Some ''leaf''\<rparr>)) (\<lambda>_. Some ''spiffe://vsp.local/gw'') = None
            \<and> sc_require_svid (sample_sidecar\<lparr>sc_profile := ''east_west'', sc_require_svid := True\<rparr>) = False
            \<and> header (sample_http\<lparr>rq_cert := Some ''leaf''\<rparr>) HeaderCallerSpiffe = caller))"
proof -
  let ?r = "sample_http\<lparr>rq_cert := Some ''leaf''\<rparr>"
  let ?cfg = "sample_sidecar\<lparr>sc_profile := ''east_west'', sc_require_svid := True\<rparr>"
  have p: "sc_profile ?cfg = ProfileEastWest" by (simp add: profile_defs)
  have "case fst (sc_handle (\<lambda>_. Some ''spiffe://vsp.local/gw'') echo_upstream ?cfg open_pdp 0 [] ?r new_cache)
      of ScProxied h u \<Rightarrow> True | _ \<Rightarrow> False"
    by code_simp
  then obtain h u where
    "fst (sc_handle (\<lambda>_. Some ''spiffe://vsp.local/gw'') echo_upstream ?cfg open_pdp 0 [] ?r new_cache) = ScProxied h u"
    by (auto split: sc_result.splits)
  from east_west_caller [OF p this] show ?thesis .
qed

text \<open>
  Without \<open>require_peer_svid\<close> the second case is real: a client without a certificate that names
  any SPIFFE id in a header passes the attestor, whose comment relies on the handshake.
\<close>

lemma spoofed_caller_proxied:
  "case sc_handle (\<lambda>_. None) echo_upstream (sample_sidecar\<lparr>sc_profile := ''east_west'', sc_require_svid := False\<rparr>)
      open_pdp 0 [] (sample_http\<lparr>rq_headers := [(HeaderCallerSpiffe, ''spiffe://vsp.local/gw''), (HeaderSubjectID, ''u-1'')]\<rparr>)
      new_cache of
     (ScProxied h u, c) \<Rightarrow> True | _ \<Rightarrow> False"
  by code_simp

end
