(* ===== verification/Bundles.thy ===== *)
theory Bundles
  imports Go_Value
begin

text \<open>
  The immutable policy store: the publisher \<open>cmd/bundlepush\<close> and the reader
  \<open>policystore/bundlestore\<close>.  The S3 client is an argument; of a versioned bucket the
  theorems use the laws in \<open>s3_ok\<close>, over the history of versions of every object.
\<close>

section \<open>The client\<close>

record store_config =
  st_endpoint :: string
  st_access :: string
  st_secret :: string
  st_bucket :: string
  st_object :: string
  st_ssl :: bool

record put_options =
  po_content_type :: string
  po_governance :: bool
  po_retain_until :: int

text \<open>An opened object: what reading it to the end gives, and the version \<open>Stat\<close> reports.\<close>

record 'e s3_object =
  so_read :: "'e + string"
  so_stat :: "'e + string"

record ('w, 'e) s3_client =
  s3_exists :: "string \<Rightarrow> 'w \<Rightarrow> 'e + bool"
  s3_make :: "string \<Rightarrow> bool \<Rightarrow> 'w \<Rightarrow> 'e option \<times> 'w"
  s3_put :: "string \<Rightarrow> string \<Rightarrow> string \<Rightarrow> put_options \<Rightarrow> 'w \<Rightarrow> ('e + string) \<times> 'w"
  s3_get :: "string \<Rightarrow> string \<Rightarrow> 'w \<Rightarrow> 'e + 'e s3_object"

section \<open>Reading the latest bundle\<close>

datatype 'e bundle_get_error = GetBundle 'e | ReadBundle 'e | StatBundle 'e

definition latest_bundle :: "('w, 'e) s3_client \<Rightarrow> store_config \<Rightarrow> 'w \<Rightarrow> 'e bundle_get_error + string \<times> string" where
  "latest_bundle cl cfg w =
     (case s3_get cl (st_bucket cfg) (st_object cfg) w of
        Inl e \<Rightarrow> Inl (GetBundle e)
      | Inr obj \<Rightarrow>
          (case so_read obj of
             Inl e \<Rightarrow> Inl (ReadBundle e)
           | Inr content \<Rightarrow>
               (case so_stat obj of Inl e \<Rightarrow> Inl (StatBundle e) | Inr version \<Rightarrow> Inr (content, version))))"

section \<open>Publishing\<close>

text \<open>\<open>time.Duration(retainDays) * 24 * time.Hour\<close> in 64-bit arithmetic.\<close>

definition retention :: "int \<Rightarrow> int" where
  "retention days = to_int64 (to_int64 (days * 24) * (3600 * 1000000000))"

datatype ('e, 'f) publish_error =
    PublishConnect 'e | CheckBucket 'e | MakeBucket 'e | OpenBundle 'f | PutBundle 'e

text \<open>
  \<open>open_file\<close> opens and sizes the bundle file; the bucket is created with object lock when it
  does not exist, and the object put under governance retention.
\<close>

definition publish ::
  "(store_config \<Rightarrow> 'e + ('w, 'e) s3_client) \<Rightarrow> (string \<Rightarrow> 'f + string) \<Rightarrow> int \<Rightarrow> store_config \<Rightarrow> string \<Rightarrow> int
     \<Rightarrow> 'w \<Rightarrow> (('e, 'f) publish_error + string) \<times> 'w"
where
  "publish connect open_file now cfg file days w =
     (case connect cfg of Inl e \<Rightarrow> (Inl (PublishConnect e), w) | Inr cl \<Rightarrow>
     (case s3_exists cl (st_bucket cfg) w of Inl e \<Rightarrow> (Inl (CheckBucket e), w) | Inr exists \<Rightarrow>
     (case (if exists then (None, w) else s3_make cl (st_bucket cfg) True w) of
        (Some e, w') \<Rightarrow> (Inl (MakeBucket e), w')
      | (None, w') \<Rightarrow>
     (case open_file file of Inl e \<Rightarrow> (Inl (OpenBundle e), w') | Inr content \<Rightarrow>
     (case s3_put cl (st_bucket cfg) (st_object cfg) content
             \<lparr>po_content_type = ''application/gzip'', po_governance = True, po_retain_until = now + retention days\<rparr> w' of
        (Inl e, w'') \<Rightarrow> (Inl (PutBundle e), w'')
      | (Inr version, w'') \<Rightarrow> (Inr version, w''))))))"

text \<open>
  The command: its flags as given, with defaults from the environment, and its exit code.
\<close>

record push_flags =
  pf_endpoint :: "string option"
  pf_access :: "string option"
  pf_secret :: "string option"
  pf_bucket :: "string option"
  pf_object :: "string option"
  pf_file :: "string option"
  pf_days :: "int option"

definition flag_or :: "'a \<Rightarrow> 'a option \<Rightarrow> 'a" where
  "flag_or d a = (case a of None \<Rightarrow> d | Some x \<Rightarrow> x)"

definition push_config :: "environ \<Rightarrow> push_flags \<Rightarrow> store_config" where
  "push_config env fl =
     \<lparr>st_endpoint = flag_or (env_or env ''S3_ENDPOINT'' ''localhost:9000'') (pf_endpoint fl),
      st_access = flag_or (env_or env ''S3_ACCESS_KEY'' ''minioadmin'') (pf_access fl),
      st_secret = flag_or (env_or env ''S3_SECRET_KEY'' ''minioadmin'') (pf_secret fl),
      st_bucket = flag_or (env_or env ''S3_BUCKET'' ''vsp-policy-bundles'') (pf_bucket fl),
      st_object = flag_or (env_or env ''S3_OBJECT'' ''bundle.tar.gz'') (pf_object fl), st_ssl = False\<rparr>"

definition bundlepush ::
  "(store_config \<Rightarrow> 'e + ('w, 'e) s3_client) \<Rightarrow> (string \<Rightarrow> 'f + string) \<Rightarrow> int \<Rightarrow> environ \<Rightarrow> push_flags \<Rightarrow> 'w
     \<Rightarrow> nat \<times> 'w"
where
  "bundlepush connect open_file now env fl w =
     (case publish connect open_file now (push_config env fl) (flag_or ''bundle.tar.gz'' (pf_file fl))
             (flag_or 1 (pf_days fl)) w of
        (Inl _, w') \<Rightarrow> (1, w')
      | (Inr _, w') \<Rightarrow> (0, w'))"

section \<open>Laws of the store\<close>

text \<open>
  \<open>hist w b k\<close> lists the versions of object \<open>k\<close> in bucket \<open>b\<close>, newest first.  Creating a
  bucket touches no object; a put that succeeds adds a version on top; a get gives the newest one.
\<close>

definition s3_ok :: "('w, 'e) s3_client \<Rightarrow> ('w \<Rightarrow> string \<Rightarrow> string \<Rightarrow> (string \<times> string) list) \<Rightarrow> bool" where
  "s3_ok cl hist \<longleftrightarrow>
     (\<forall>b lock w r w'. s3_make cl b lock w = (r, w') \<longrightarrow> hist w' = hist w)
     \<and> (\<forall>b k content opts w v w'. s3_put cl b k content opts w = (Inr v, w') \<longrightarrow>
          hist w' = (hist w)(b := (hist w b)(k := (v, content) # hist w b k)))
     \<and> (\<forall>b k w obj content version. s3_get cl b k w = Inr obj \<and> so_read obj = Inr content \<and> so_stat obj = Inr version \<longrightarrow>
          (\<exists>older. hist w b k = (version, content) # older))"

lemma s3_okD:
  assumes "s3_ok cl hist"
  shows "s3_make cl b lock w = (r, w') \<Longrightarrow> hist w' = hist w"
    and "s3_put cl b k content opts w = (Inr v, w') \<Longrightarrow>
      hist w' = (hist w)(b := (hist w b)(k := (v, content) # hist w b k))"
    and "s3_get cl b k w = Inr obj \<Longrightarrow> so_read obj = Inr content \<Longrightarrow> so_stat obj = Inr version \<Longrightarrow>
      \<exists>older. hist w b k = (version, content) # older"
  using assms unfolding s3_ok_def by blast+

lemma latest_is_newest:
  assumes "s3_ok cl hist" and "latest_bundle cl cfg w = Inr (content, version)"
  shows "\<exists>older. hist w (st_bucket cfg) (st_object cfg) = (version, content) # older"
  using assms(2) s3_okD(3) [OF assms(1)] by (auto simp: latest_bundle_def split: sum.splits)

lemma publish_adds:
  assumes "connect cfg = Inr cl" and "s3_ok cl hist"
    and "publish connect open_file now cfg file days w = (Inr version, w')"
  shows "\<exists>content. open_file file = Inr content
     \<and> hist w' = (hist w)(st_bucket cfg := (hist w (st_bucket cfg))
         (st_object cfg := (version, content) # hist w (st_bucket cfg) (st_object cfg)))"
proof -
  obtain ex w1 content where e: "(if ex then (None, w) else s3_make cl (st_bucket cfg) True w) = (None, w1)"
    "open_file file = Inr content"
    "s3_put cl (st_bucket cfg) (st_object cfg) content
       \<lparr>po_content_type = ''application/gzip'', po_governance = True, po_retain_until = now + retention days\<rparr> w1
       = (Inr version, w')"
    using assms(3) unfolding publish_def assms(1) sum.case
    by (auto split: sum.splits prod.splits option.splits)
  have "hist w1 = hist w" using e(1) s3_okD(1) [OF assms(2)] by (auto split: if_splits)
  then show ?thesis using e(2) s3_okD(2) [OF assms(2) e(3)] by auto
qed

section \<open>Properties\<close>

text \<open>
  After a bundle was published, and as long as nothing else is published to its object,
  the store's reader returns exactly that bundle with the version the publisher reported; every
  earlier version is still there, and no other object changed.
\<close>

theorem publish_then_pull:
  assumes "connect cfg = Inr cl" and "s3_ok cl hist"
    and "publish connect open_file now cfg file days w = (Inr version, w')"
  shows "(case latest_bundle cl cfg w' of
            Inr (content, v) \<Rightarrow> open_file file = Inr content \<and> v = version
          | Inl _ \<Rightarrow> True)
     \<and> tl (hist w' (st_bucket cfg) (st_object cfg)) = hist w (st_bucket cfg) (st_object cfg)
     \<and> (\<forall>b k. (b, k) \<noteq> (st_bucket cfg, st_object cfg) \<longrightarrow> hist w' b k = hist w b k)"
proof -
  obtain content where c: "open_file file = Inr content"
    "hist w' = (hist w)(st_bucket cfg := (hist w (st_bucket cfg))
       (st_object cfg := (version, content) # hist w (st_bucket cfg) (st_object cfg)))"
    using publish_adds [OF assms] by blast
  then show ?thesis
    using latest_is_newest [OF assms(2), of cfg w'] by (auto split: sum.split)
qed

text \<open>A store in memory: buckets, and the versions of every object.\<close>

type_synonym mem_store = "string list \<times> (string \<Rightarrow> string \<Rightarrow> (string \<times> string) list)"

definition mem_client :: "(mem_store, unit) s3_client" where
  "mem_client =
     \<lparr>s3_exists = (\<lambda>b w. Inr (b \<in> set (fst w))),
      s3_make = (\<lambda>b lock w. (None, (b # fst w, snd w))),
      s3_put = (\<lambda>b k content opts w.
        let v = show_nat (length (snd w b k)) in
        (Inr v, (fst w, (snd w)(b := (snd w b)(k := (v, content) # snd w b k))))),
      s3_get = (\<lambda>b k w. case snd w b k of [] \<Rightarrow> Inl ()
                 | (v, content) # _ \<Rightarrow> Inr \<lparr>so_read = Inr content, so_stat = Inr v\<rparr>)\<rparr>"

lemma mem_client_ok: "s3_ok mem_client snd"
  by (auto simp: s3_ok_def mem_client_def Let_def split: list.splits)

definition sample_store :: store_config where
  "sample_store = \<lparr>st_endpoint = ''minio:9000'', st_access = ''a'', st_secret = ''s'', st_bucket = ''b'',
     st_object = ''bundle.tar.gz'', st_ssl = False\<rparr>"

lemma publish_then_pull_witness:
  "\<exists>w'. publish (\<lambda>_. Inr mem_client) (\<lambda>f. Inr ''new'' :: unit + string) 0 sample_store ''f'' 1
          ([''b''], \<lambda>b k. [(''0'', ''old'')]) = (Inr ''1'', w')
     \<and> latest_bundle mem_client sample_store w' = Inr (''new'', ''1'')
     \<and> tl (snd w' ''b'' ''bundle.tar.gz'') = [(''0'', ''old'')]"
proof -
  obtain w' where w: "publish (\<lambda>_. Inr mem_client) (\<lambda>f. Inr ''new'' :: unit + string) 0 sample_store ''f'' 1
      ([''b''], \<lambda>b k. [(''0'', ''old'')]) = (Inr ''1'', w')"
  proof -
    have one: "show_nat (Suc 0) = ''1''" by code_simp
    show thesis
      by (rule that) (simp add: publish_def mem_client_def sample_store_def Let_def one)
  qed
  have l: "\<exists>x. latest_bundle mem_client sample_store w' = Inr x"
    using w by (auto simp: publish_def mem_client_def sample_store_def Let_def latest_bundle_def)
  show ?thesis
    using publish_then_pull [OF refl mem_client_ok w] w l
    by (auto simp: sample_store_def split: sum.splits)
qed

text \<open>
  C40.  A retention of up to 106751 days is kept as asked; the next day overflows 64 bits, and
  the bundle is published under a retention that ended centuries ago.
\<close>

theorem retention_bounds:
  "(if 0 \<le> days \<and> days \<le> 106751 then retention days = days * 24 * 3600 * 1000000000
    else if days = 106752 then retention days < 0
    else in_int64 (retention days))"
proof -
  have "retention 106752 < 0" by (simp add: retention_def to_int64_def)
  moreover have "retention days = days * 24 * 3600 * 1000000000" if "0 \<le> days" "days \<le> 106751"
  proof -
    have "in_int64 (days * 24)" "in_int64 (days * 24 * (3600 * 1000000000))" using that by (auto simp: in_int64_def)
    then show ?thesis by (simp add: retention_def to_int64_id)
  qed
  ultimately show ?thesis by (simp add: retention_def to_int64_range)
qed

end
