(* ===== verification/Go_Duration.thy ===== *)
theory Go_Duration
  imports Go_Float
begin

text \<open>
  \<open>time.ParseDuration\<close> of the standard library, which reads the PDP's token lifetime: an optional
  sign and a sequence of decimal numbers with units, in 64-bit arithmetic with its overflow
  checks, fractions in binary64.
\<close>

section \<open>Reading numbers\<close>

definition two63 :: nat where
  "two63 = 2 ^ 63"

text \<open>\<open>leadingInt\<close>: \<open>None\<close> on overflow.\<close>

fun leading_int :: "nat \<Rightarrow> string \<Rightarrow> (nat \<times> string) option" where
  "leading_int x [] = Some (x, [])"
| "leading_int x (c # s) =
     (if \<not> is_digit c then Some (x, c # s)
      else if two63 div 10 < x then None
      else (let y = x * 10 + digit_val c in if two63 < y then None else leading_int y s))"

text \<open>\<open>leadingFraction\<close>: further digits are dropped once the value would overflow.\<close>

fun leading_fraction :: "nat \<Rightarrow> nat \<Rightarrow> bool \<Rightarrow> string \<Rightarrow> nat \<times> nat \<times> string" where
  "leading_fraction x scl ov [] = (x, scl, [])"
| "leading_fraction x scl ov (c # s) =
     (if \<not> is_digit c then (x, scl, c # s)
      else if ov then leading_fraction x scl ov s
      else if (two63 - 1) div 10 < x then leading_fraction x scl True s
      else (let y = x * 10 + digit_val c in
            if two63 < y then leading_fraction x scl True s else leading_fraction y (scl * 10) ov s))"

lemma leading_int_length: "leading_int x s = Some (v, r) \<Longrightarrow> length r \<le> length s"
  by (induction x s rule: leading_int.induct) (fastforce simp: Let_def split: if_splits)+

lemma leading_fraction_length: "leading_fraction x sc ov s = (v, sc', r) \<Longrightarrow> length r \<le> length s"
  by (induction x sc ov s rule: leading_fraction.induct) (fastforce simp: Let_def split: if_splits)+

section \<open>Units\<close>

definition unit_map :: "string \<Rightarrow> nat option" where
  "unit_map u =
     (if u = ''ns'' then Some 1
      else if u = ''us'' \<or> u = [byte 0xC2, byte 0xB5, CHR ''s''] \<or> u = [byte 0xCE, byte 0xBC, CHR ''s''] then Some 1000
      else if u = ''ms'' then Some 1000000
      else if u = ''s'' then Some 1000000000
      else if u = ''m'' then Some 60000000000
      else if u = ''h'' then Some 3600000000000
      else None)"

definition unit_char :: "char \<Rightarrow> bool" where
  "unit_char c \<longleftrightarrow> c \<noteq> CHR ''.'' \<and> \<not> is_digit c"

text \<open>
  \<open>uint64(float64(f) * (float64(unit) / scl))\<close>: three roundings and a truncation.  All the
  values are in range, so rounding never fails.
\<close>

definition fraction_part :: "nat \<Rightarrow> nat \<Rightarrow> nat \<Rightarrow> nat" where
  "fraction_part f un scl =
     (case (round_quot f 1, round_quot un scl) of
        (Some (m1, e1), Some (m2, e2)) \<Rightarrow>
          (case float_quot (m1 * m2) (e1 + e2) of
             (a, b) \<Rightarrow> (case round_quot a b of
                          Some (m, e) \<Rightarrow> (case float_quot m e of (x, y) \<Rightarrow> x div y)
                        | None \<Rightarrow> 0))
      | _ \<Rightarrow> 0)"

section \<open>Parsing\<close>

text \<open>One number with its unit: the nanoseconds, and the rest of the text.\<close>

definition duration_item :: "string \<Rightarrow> (nat \<times> string) option" where
  "duration_item s =
     (if s = [] \<or> \<not> (hd s = CHR ''.'' \<or> is_digit (hd s)) then None
      else
        (case leading_int 0 s of None \<Rightarrow> None
         | Some (v, r) \<Rightarrow>
             (let pre = length r \<noteq> length s;
                  (f, scl, t, post) =
                    (if r \<noteq> [] \<and> hd r = CHR ''.''
                     then (case leading_fraction 0 1 False (tl r) of
                             (f, sc, t) \<Rightarrow> (f, sc, t, length t \<noteq> length (tl r)))
                     else (0, 1, r, False));
                  u = takeWhile unit_char t; rest = dropWhile unit_char t
              in if \<not> pre \<and> \<not> post then None
                 else if u = [] then None
                 else (case unit_map u of None \<Rightarrow> None
                   | Some un \<Rightarrow>
                       if two63 div un < v then None
                       else (let w = v * un + (if 0 < f then fraction_part f un scl else 0) in
                             if 0 < f \<and> two63 < w then None else Some (w, rest))))))"

lemma duration_item_shorter: "duration_item s = Some (w, r) \<Longrightarrow> length r < length s"
proof -
  assume d: "duration_item s = Some (w, r)"
  then obtain v q where q: "leading_int 0 s = Some (v, q)"
    by (auto simp: duration_item_def split: if_splits option.splits)
  define t where "t = (if q \<noteq> [] \<and> hd q = CHR ''.'' then snd (snd (leading_fraction 0 1 False (tl q))) else q)"
  have "takeWhile unit_char t \<noteq> [] \<and> r = dropWhile unit_char t"
    using d q by (auto simp: duration_item_def t_def Let_def split: if_splits option.splits prod.splits)
  then have "length r < length t"
    by (metis append_self_conv2 length_append length_greater_0_conv less_add_same_cancel2 takeWhile_dropWhile_id)
  moreover have "length t \<le> length q"
    using leading_fraction_length [of 0 1 False "tl q"]
    by (cases "leading_fraction 0 1 False (tl q)") (auto simp: t_def intro: order_trans)
  moreover have "length q \<le> length s" using leading_int_length [OF q] .
  ultimately show ?thesis by simp
qed

text \<open>The loop over the items; the sum wraps at 64 bits before it is checked.\<close>

function duration_sum :: "nat \<Rightarrow> string \<Rightarrow> nat option" where
  "duration_sum d s =
     (if s = [] then Some d
      else (case duration_item s of None \<Rightarrow> None
        | Some (w, r) \<Rightarrow> (let d' = (d + w) mod 2 ^ 64 in if two63 < d' then None else duration_sum d' r)))"
  by pat_completeness auto
termination
  by (relation "measure (\<lambda>(d, s). length s)") (auto simp: duration_item_shorter)

declare duration_sum.simps [simp del]

definition parse_duration :: "string \<Rightarrow> int option" where
  "parse_duration s0 =
     (let neg = (s0 \<noteq> [] \<and> hd s0 = CHR ''-'');
          s = (if s0 \<noteq> [] \<and> (hd s0 = CHR ''-'' \<or> hd s0 = CHR ''+'') then tl s0 else s0)
      in if s = ''0'' then Some 0
         else if s = [] then None
         else (case duration_sum 0 s of None \<Rightarrow> None
           | Some d \<Rightarrow>
               if neg then Some (to_int64 (- int d))
               else if two63 - 1 < d then None
               else Some (int d)))"

section \<open>Lemmas\<close>

text \<open>Every duration fits 64 bits.\<close>

lemma parse_duration_range: "parse_duration s = Some d \<Longrightarrow> in_int64 d"
  using to_int64_range
  by (auto simp: parse_duration_def Let_def two63_def split: if_splits option.splits)
     (simp_all add: in_int64_def)

lemma leading_int_digits:
  "list_all is_digit ds \<Longrightarrow> r = [] \<or> \<not> is_digit (hd r) \<Longrightarrow> x * 10 ^ length ds + read_nat ds \<le> two63 \<Longrightarrow>
   leading_int x (ds @ r) = Some (x * 10 ^ length ds + read_nat ds, r)"
proof (induction ds arbitrary: x)
  case Nil
  then show ?case by (cases r) (simp_all add: read_nat_def)
next
  case (Cons c ds)
  have rd: "read_nat (c # ds) = digit_val c * 10 ^ length ds + read_nat ds"
    using read_nat_append [of "[c]" ds] by (simp add: read_nat_def)
  let ?y = "x * 10 + digit_val c"
  have y: "?y * 10 ^ length ds + read_nat ds = x * 10 ^ length (c # ds) + read_nat (c # ds)"
    by (simp add: rd algebra_simps)
  have "?y \<le> ?y * 10 ^ length ds" by simp
  then have "?y \<le> two63" using y Cons.prems(3) by linarith
  then have "\<not> two63 div 10 < x" "\<not> two63 < ?y" by (simp_all add: two63_def)
  moreover have "leading_int ?y (ds @ r) = Some (?y * 10 ^ length ds + read_nat ds, r)"
    using Cons.prems y by (intro Cons.IH) simp_all
  ultimately show ?case using Cons.prems(1) y by (simp add: Let_def)
qed

text \<open>A lifetime written in whole seconds is read exactly, as long as it fits.\<close>

lemma parse_seconds:
  assumes "n * 1000000000 < two63"
  shows "parse_duration (show_nat n @ ''s'') = Some (int n * 1000000000)"
proof -
  obtain c cs where c: "show_nat n = c # cs" "is_digit c"
    using show_nat_nonempty [of n] show_nat_digits [of _ n] by (cases "show_nat n") auto
  then have sign: "c \<noteq> CHR ''-''" "c \<noteq> CHR ''+''" by (auto simp: is_digit_def)
  have le: "0 * 10 ^ length (show_nat n) + read_nat (show_nat n) \<le> two63"
    using assms by (simp add: read_show_nat)
  have "leading_int 0 (show_nat n @ ''s'') = Some (n, ''s'')"
    using leading_int_digits [OF show_nat_all_digits _ le, of "''s''"] by (simp add: read_show_nat is_digit_def)
  moreover have "n \<le> two63 div 1000000000" using assms by (simp add: two63_def)
  ultimately have item: "duration_item (show_nat n @ ''s'') = Some (n * 1000000000, [])"
    using c by (simp add: duration_item_def unit_map_def unit_char_def Let_def is_digit_def)
  have "n * 1000000000 mod 2 ^ 64 = n * 1000000000" using assms by (simp add: two63_def)
  then have "duration_sum 0 (show_nat n @ ''s'') = Some (n * 1000000000)"
    using assms by (subst duration_sum.simps, simp add: item) (simp add: duration_sum.simps)
  then show ?thesis
    using assms c sign by (auto simp: parse_duration_def Let_def two63_def)
qed

end
