(* ===== verification/Grpc_Pdp.thy ===== *)
theory Grpc_Pdp
  imports Pdp_Client
begin

text \<open>
  The gRPC transport (\<open>authz/grpcpdp\<close>) over the messages of \<open>proto/authzen/v1/authzen.pb.go\<close>:
  the conversions in both directions, the server and the client.  \<open>google.protobuf.Struct\<close>
  is an argument: \<open>ns\<close> for \<open>structpb.NewStruct\<close> and \<open>am\<close> for \<open>AsMap\<close>, of which
  \<open>structpb_ok\<close> states the documented round trip on maps of JSON values.
\<close>

section \<open>Messages\<close>

text \<open>Message fields are pointers: \<open>None\<close> is nil, and the getters of a nil message read zero values.\<close>

record 'st psubject =
  ps_type :: string
  ps_id :: string
  ps_props :: "'st option"

record 'st paction =
  pa_name :: string
  pa_props :: "'st option"

record 'st presource =
  pr_type :: string
  pr_id :: string
  pr_props :: "'st option"

record 'st prequest =
  pq_subject :: "'st psubject option"
  pq_action :: "'st paction option"
  pq_resource :: "'st presource option"
  pq_context :: "'st option"

record ptoken =
  pt_value :: string
  pt_ttl :: int

record 'st pobligation =
  po_type :: string
  po_details :: "'st option"

record 'st presponse =
  pp_decision :: bool
  pp_token :: "ptoken option"
  pp_obligations :: "'st pobligation list"
  pp_reason :: string

section \<open>Getters\<close>

text \<open>Nil-safe, as generated: the zero value of the field for a nil message.\<close>

definition subject_get_type :: "'st psubject option \<Rightarrow> string" where
  "subject_get_type x = (case x of None \<Rightarrow> [] | Some v \<Rightarrow> ps_type v)"

definition subject_get_id :: "'st psubject option \<Rightarrow> string" where
  "subject_get_id x = (case x of None \<Rightarrow> [] | Some v \<Rightarrow> ps_id v)"

definition subject_get_properties :: "'st psubject option \<Rightarrow> 'st option" where
  "subject_get_properties x = (case x of None \<Rightarrow> None | Some v \<Rightarrow> ps_props v)"

definition action_get_name :: "'st paction option \<Rightarrow> string" where
  "action_get_name x = (case x of None \<Rightarrow> [] | Some v \<Rightarrow> pa_name v)"

definition action_get_properties :: "'st paction option \<Rightarrow> 'st option" where
  "action_get_properties x = (case x of None \<Rightarrow> None | Some v \<Rightarrow> pa_props v)"

definition resource_get_type :: "'st presource option \<Rightarrow> string" where
  "resource_get_type x = (case x of None \<Rightarrow> [] | Some v \<Rightarrow> pr_type v)"

definition resource_get_id :: "'st presource option \<Rightarrow> string" where
  "resource_get_id x = (case x of None \<Rightarrow> [] | Some v \<Rightarrow> pr_id v)"

definition resource_get_properties :: "'st presource option \<Rightarrow> 'st option" where
  "resource_get_properties x = (case x of None \<Rightarrow> None | Some v \<Rightarrow> pr_props v)"

definition request_get_subject :: "'st prequest option \<Rightarrow> 'st psubject option" where
  "request_get_subject x = (case x of None \<Rightarrow> None | Some v \<Rightarrow> pq_subject v)"

definition request_get_action :: "'st prequest option \<Rightarrow> 'st paction option" where
  "request_get_action x = (case x of None \<Rightarrow> None | Some v \<Rightarrow> pq_action v)"

definition request_get_resource :: "'st prequest option \<Rightarrow> 'st presource option" where
  "request_get_resource x = (case x of None \<Rightarrow> None | Some v \<Rightarrow> pq_resource v)"

definition request_get_context :: "'st prequest option \<Rightarrow> 'st option" where
  "request_get_context x = (case x of None \<Rightarrow> None | Some v \<Rightarrow> pq_context v)"

definition token_get_value :: "ptoken option \<Rightarrow> string" where
  "token_get_value x = (case x of None \<Rightarrow> [] | Some v \<Rightarrow> pt_value v)"

definition token_get_ttl :: "ptoken option \<Rightarrow> int" where
  "token_get_ttl x = (case x of None \<Rightarrow> 0 | Some v \<Rightarrow> pt_ttl v)"

definition obligation_get_type :: "'st pobligation option \<Rightarrow> string" where
  "obligation_get_type x = (case x of None \<Rightarrow> [] | Some v \<Rightarrow> po_type v)"

definition obligation_get_details :: "'st pobligation option \<Rightarrow> 'st option" where
  "obligation_get_details x = (case x of None \<Rightarrow> None | Some v \<Rightarrow> po_details v)"

definition response_get_decision :: "'st presponse option \<Rightarrow> bool" where
  "response_get_decision x = (case x of None \<Rightarrow> False | Some v \<Rightarrow> pp_decision v)"

definition response_get_token :: "'st presponse option \<Rightarrow> ptoken option" where
  "response_get_token x = (case x of None \<Rightarrow> None | Some v \<Rightarrow> pp_token v)"

definition response_get_obligations :: "'st presponse option \<Rightarrow> 'st pobligation list" where
  "response_get_obligations x = (case x of None \<Rightarrow> [] | Some v \<Rightarrow> pp_obligations v)"

definition response_get_reason :: "'st presponse option \<Rightarrow> string" where
  "response_get_reason x = (case x of None \<Rightarrow> [] | Some v \<Rightarrow> pp_reason v)"

lemmas getter_defs =
  subject_get_type_def
  subject_get_id_def
  subject_get_properties_def
  action_get_name_def
  action_get_properties_def
  resource_get_type_def
  resource_get_id_def
  resource_get_properties_def
  request_get_subject_def
  request_get_action_def
  request_get_resource_def
  request_get_context_def
  token_get_value_def
  token_get_ttl_def
  obligation_get_type_def
  obligation_get_details_def
  response_get_decision_def
  response_get_token_def
  response_get_obligations_def
  response_get_reason_def

lemma getters [simp]:
  "subject_get_type (Some vsu) = ps_type vsu"
  "subject_get_id (Some vsu) = ps_id vsu"
  "subject_get_properties (Some vsu) = ps_props vsu"
  "action_get_name (Some vac) = pa_name vac"
  "action_get_properties (Some vac) = pa_props vac"
  "resource_get_type (Some vre) = pr_type vre"
  "resource_get_id (Some vre) = pr_id vre"
  "resource_get_properties (Some vre) = pr_props vre"
  "request_get_subject (Some vrq) = pq_subject vrq"
  "request_get_action (Some vrq) = pq_action vrq"
  "request_get_resource (Some vrq) = pq_resource vrq"
  "request_get_context (Some vrq) = pq_context vrq"
  "token_get_value (Some vto) = pt_value vto"
  "token_get_ttl (Some vto) = pt_ttl vto"
  "obligation_get_type (Some vob) = po_type vob"
  "obligation_get_details (Some vob) = po_details vob"
  "response_get_decision (Some vrp) = pp_decision vrp"
  "response_get_token (Some vrp) = pp_token vrp"
  "response_get_obligations (Some vrp) = pp_obligations vrp"
  "response_get_reason (Some vrp) = pp_reason vrp"
  by (simp_all add: getter_defs)

section \<open>Conversions\<close>

definition map_to_struct :: "(gmap \<Rightarrow> 'e + 'st) \<Rightarrow> mapv \<Rightarrow> 'e + 'st option" where
  "map_to_struct ns m = (if entries m = [] then Inr None else map_sum id Some (ns (entries m)))"

text \<open>\<open>AsMap\<close> makes a map even of a nil struct.\<close>

definition struct_to_map :: "('st \<Rightarrow> gmap) \<Rightarrow> 'st option \<Rightarrow> mapv" where
  "struct_to_map am s = Some (case s of None \<Rightarrow> [] | Some x \<Rightarrow> am x)"

definition request_to_proto :: "(gmap \<Rightarrow> 'e + 'st) \<Rightarrow> request \<Rightarrow> 'e + 'st prequest" where
  "request_to_proto ns r =
     (case map_to_struct ns (subj_props (req_subject r)) of Inl e \<Rightarrow> Inl e | Inr sub \<Rightarrow>
     (case map_to_struct ns (act_props (req_action r)) of Inl e \<Rightarrow> Inl e | Inr act \<Rightarrow>
     (case map_to_struct ns (res_props (req_resource r)) of Inl e \<Rightarrow> Inl e | Inr res \<Rightarrow>
     (case map_to_struct ns (req_context r) of Inl e \<Rightarrow> Inl e | Inr ctx \<Rightarrow>
        Inr \<lparr>pq_subject = Some \<lparr>ps_type = subj_type (req_subject r), ps_id = subj_id (req_subject r), ps_props = sub\<rparr>,
             pq_action = Some \<lparr>pa_name = act_name (req_action r), pa_props = act\<rparr>,
             pq_resource = Some \<lparr>pr_type = res_type (req_resource r), pr_id = res_id (req_resource r), pr_props = res\<rparr>,
             pq_context = ctx\<rparr>))))"

definition request_from_proto :: "('st \<Rightarrow> gmap) \<Rightarrow> 'st prequest option \<Rightarrow> request" where
  "request_from_proto am p =
     \<lparr>req_subject =
        (let s = request_get_subject p in
         if s = None then zero_subject
         else \<lparr>subj_type = subject_get_type s, subj_id = subject_get_id s,
               subj_props = struct_to_map am (subject_get_properties s)\<rparr>),
      req_action =
        (let a = request_get_action p in
         if a = None then zero_action
         else \<lparr>act_name = action_get_name a, act_props = struct_to_map am (action_get_properties a)\<rparr>),
      req_resource =
        (let s = request_get_resource p in
         if s = None then zero_resource
         else \<lparr>res_type = resource_get_type s, res_id = resource_get_id s,
               res_props = struct_to_map am (resource_get_properties s)\<rparr>),
      req_context = struct_to_map am (request_get_context p)\<rparr>"

fun obligations_to_proto :: "(gmap \<Rightarrow> 'e + 'st) \<Rightarrow> obligation list \<Rightarrow> 'e + 'st pobligation list" where
  "obligations_to_proto ns [] = Inr []"
| "obligations_to_proto ns (ob # obs) =
     (case map_to_struct ns (ob_details ob) of
        Inl e \<Rightarrow> Inl e
      | Inr d \<Rightarrow>
          (case obligations_to_proto ns obs of
             Inl e \<Rightarrow> Inl e
           | Inr ps \<Rightarrow> Inr (\<lparr>po_type = ob_type ob, po_details = d\<rparr> # ps)))"

text \<open>The TTL is converted to \<open>int32\<close>.\<close>

definition response_to_proto :: "(gmap \<Rightarrow> 'e + 'st) \<Rightarrow> response \<Rightarrow> 'e + 'st presponse" where
  "response_to_proto ns resp =
     (case resp_context resp of
        None \<Rightarrow> Inr \<lparr>pp_decision = decision resp, pp_token = None, pp_obligations = [], pp_reason = []\<rparr>
      | Some c \<Rightarrow>
          (case obligations_to_proto ns (rc_obligations c) of
             Inl e \<Rightarrow> Inl e
           | Inr ps \<Rightarrow>
               Inr \<lparr>pp_decision = decision resp,
                    pp_token = map_option (\<lambda>t. \<lparr>pt_value = tok_value t, pt_ttl = to_int32 (tok_ttl t)\<rparr>) (rc_token c),
                    pp_obligations = ps, pp_reason = rc_reason c\<rparr>))"

definition response_from_proto :: "('st \<Rightarrow> gmap) \<Rightarrow> 'st presponse option \<Rightarrow> response" where
  "response_from_proto am p =
     \<lparr>decision = response_get_decision p,
      resp_context = Some
        \<lparr>rc_token =
           (let dt = response_get_token p in
            if dt = None then None else Some \<lparr>tok_value = token_get_value dt, tok_ttl = token_get_ttl dt\<rparr>),
         rc_obligations =
           map (\<lambda>x. \<lparr>ob_type = obligation_get_type (Some x),
                     ob_details = struct_to_map am (obligation_get_details (Some x))\<rparr>)
             (response_get_obligations p),
         rc_reason = response_get_reason p\<rparr>\<rparr>"

section \<open>Server and client\<close>

datatype 'e grpc_error = InvalidArgument string | InternalError string | EncodeResponse 'e

definition server_evaluate ::
  "(string \<Rightarrow> string) \<Rightarrow> (gmap \<Rightarrow> 'm + 'st) \<Rightarrow> ('st \<Rightarrow> gmap) \<Rightarrow> (request \<Rightarrow> 'e pdp_error + response)
     \<Rightarrow> 'st prequest \<Rightarrow> 'm grpc_error + 'st presponse"
where
  "server_evaluate q ns am svc p =
     (case svc (request_from_proto am (Some p)) of
        Inl (ContractViolation ve) \<Rightarrow> Inl (InvalidArgument (validation_text q ve))
      | Inl _ \<Rightarrow> Inl (InternalError ''evaluation failed'')
      | Inr resp \<Rightarrow> (case response_to_proto ns resp of Inl e \<Rightarrow> Inl (EncodeResponse e) | Inr out \<Rightarrow> Inr out))"

datatype ('m, 'r) grpc_client_error = EncodeRequest 'm | RpcFailed 'r

definition grpc_evaluate ::
  "(gmap \<Rightarrow> 'm + 'st) \<Rightarrow> ('st \<Rightarrow> gmap) \<Rightarrow> ('st prequest \<Rightarrow> 'r + 'st presponse) \<Rightarrow> request
     \<Rightarrow> ('m, 'r) grpc_client_error + response"
where
  "grpc_evaluate ns am rpc r =
     (case request_to_proto ns r of
        Inl e \<Rightarrow> Inl (EncodeRequest e)
      | Inr p \<Rightarrow>
          (case rpc p of Inl e \<Rightarrow> Inl (RpcFailed e) | Inr out \<Rightarrow> Inr (response_from_proto am (Some out))))"

section \<open>Lemmas\<close>

definition structpb_ok :: "(gmap \<Rightarrow> 'm + 'st) \<Rightarrow> ('st \<Rightarrow> gmap) \<Rightarrow> bool" where
  "structpb_ok ns am \<longleftrightarrow> (\<forall>m. wf_map m \<longrightarrow> (\<exists>s. ns m = Inr s \<and> am s = m))"

lemma map_to_struct_ok:
  "structpb_ok ns am \<Longrightarrow> wf_mapv m \<Longrightarrow> \<exists>s. map_to_struct ns m = Inr s \<and> struct_to_map am s = Some (entries m)"
  by (auto simp: map_to_struct_def struct_to_map_def structpb_ok_def)

lemma request_to_proto_ok:
  assumes "structpb_ok ns am" and "wf_request r"
  shows "\<exists>p. request_to_proto ns r = Inr p \<and> same_request r (request_from_proto am (Some p))
     \<and> res_props (req_resource (request_from_proto am (Some p))) = Some (entries (res_props (req_resource r)))"
proof -
  note w = assms(2) [unfolded wf_request_def]
  obtain s1 where "map_to_struct ns (subj_props (req_subject r)) = Inr s1"
    "struct_to_map am s1 = Some (entries (subj_props (req_subject r)))"
    using map_to_struct_ok [OF assms(1)] w by blast
  moreover obtain s2 where "map_to_struct ns (act_props (req_action r)) = Inr s2"
    "struct_to_map am s2 = Some (entries (act_props (req_action r)))"
    using map_to_struct_ok [OF assms(1)] w by blast
  moreover obtain s3 where "map_to_struct ns (res_props (req_resource r)) = Inr s3"
    "struct_to_map am s3 = Some (entries (res_props (req_resource r)))"
    using map_to_struct_ok [OF assms(1)] w by blast
  moreover obtain s4 where "map_to_struct ns (req_context r) = Inr s4"
    "struct_to_map am s4 = Some (entries (req_context r))"
    using map_to_struct_ok [OF assms(1)] w by blast
  ultimately show ?thesis
    by (simp add: request_to_proto_def request_from_proto_def same_request_def norm_request_def norm_map_def Let_def)
qed

lemma obligations_to_proto_ok:
  assumes "structpb_ok ns am"
  shows "list_all wf_obligation bs \<Longrightarrow> \<exists>ps. obligations_to_proto ns bs = Inr ps
     \<and> map (\<lambda>x. \<lparr>ob_type = po_type x, ob_details = struct_to_map am (po_details x)\<rparr>) ps
         = map (\<lambda>b. b\<lparr>ob_details := Some (entries (ob_details b))\<rparr>) bs"
proof (induction bs)
  case (Cons b bs)
  then obtain ps where ps: "obligations_to_proto ns bs = Inr ps"
     "map (\<lambda>x. \<lparr>ob_type = po_type x, ob_details = struct_to_map am (po_details x)\<rparr>) ps
         = map (\<lambda>b. b\<lparr>ob_details := Some (entries (ob_details b))\<rparr>) bs" by auto
  have "wf_mapv (ob_details b)" using Cons.prems by (simp add: wf_obligation_def)
  then obtain s where "map_to_struct ns (ob_details b) = Inr s" "struct_to_map am s = Some (entries (ob_details b))"
    using map_to_struct_ok [OF assms] by blast
  then show ?case using ps by simp
qed simp

lemma response_to_proto_ok:
  assumes "structpb_ok ns am" and "wf_response s"
  shows "\<exists>p. response_to_proto ns s = Inr p \<and> agrees (response_from_proto am (Some p)) s
     \<and> map_option tok_ttl (Option.bind (resp_context (response_from_proto am (Some p))) rc_token)
         = map_option (to_int32 \<circ> tok_ttl) (Option.bind (resp_context s) rc_token)"
proof (cases "resp_context s")
  case None
  then show ?thesis
    by (simp add: response_to_proto_def response_from_proto_def agrees_def token_value_of_def reason_of_def
        obligations_of_def)
next
  case (Some c)
  then have "list_all wf_obligation (rc_obligations c)" using assms(2) by (simp add: wf_response_def wf_context_def)
  then obtain ps where "obligations_to_proto ns (rc_obligations c) = Inr ps"
    and m: "map (\<lambda>x. \<lparr>ob_type = po_type x, ob_details = struct_to_map am (po_details x)\<rparr>) ps
         = map (\<lambda>b. b\<lparr>ob_details := Some (entries (ob_details b))\<rparr>) (rc_obligations c)"
    using obligations_to_proto_ok [OF assms(1)] by blast
  moreover have "map norm_obligation (map (\<lambda>b. b\<lparr>ob_details := Some (entries (ob_details b))\<rparr>) (rc_obligations c))
      = map norm_obligation (rc_obligations c)"
    by (simp add: norm_obligation_def norm_map_def)
  ultimately show ?thesis using Some
    by (cases "rc_token c") (simp_all add: response_to_proto_def response_from_proto_def agrees_def token_value_of_def reason_of_def
        obligations_of_def option.map_comp comp_def del: map_map)
qed

text \<open>The client against the server is a transport of the service.\<close>

lemma grpc_to_server:
  assumes "structpb_ok ns am" and "fits r" and "svc_fits svc r"
  shows "\<exists>r'. same_request r r' \<and> res_props (req_resource r') = Some (entries (res_props (req_resource r)))
     \<and> (case svc r' of
          Inl (ContractViolation ve) \<Rightarrow>
            grpc_evaluate ns am (server_evaluate q ns am svc) r = Inl (RpcFailed (InvalidArgument (validation_text q ve)))
        | Inl _ \<Rightarrow>
            grpc_evaluate ns am (server_evaluate q ns am svc) r = Inl (RpcFailed (InternalError ''evaluation failed''))
        | Inr s \<Rightarrow>
            \<exists>resp. grpc_evaluate ns am (server_evaluate q ns am svc) r = Inr resp \<and> agrees resp s
               \<and> map_option tok_ttl (Option.bind (resp_context resp) rc_token)
                   = map_option (to_int32 \<circ> tok_ttl) (Option.bind (resp_context s) rc_token))"
proof -
  obtain p where p: "request_to_proto ns r = Inr p" "same_request r (request_from_proto am (Some p))"
    "res_props (req_resource (request_from_proto am (Some p))) = Some (entries (res_props (req_resource r)))"
    using request_to_proto_ok [OF assms(1)] assms(2) by (auto simp: fits_def)
  show ?thesis
  proof (intro exI conjI)
    show "same_request r (request_from_proto am (Some p))"
      "res_props (req_resource (request_from_proto am (Some p))) = Some (entries (res_props (req_resource r)))"
      by (rule p)+
    show "case svc (request_from_proto am (Some p)) of
          Inl (ContractViolation ve) \<Rightarrow>
            grpc_evaluate ns am (server_evaluate q ns am svc) r = Inl (RpcFailed (InvalidArgument (validation_text q ve)))
        | Inl _ \<Rightarrow>
            grpc_evaluate ns am (server_evaluate q ns am svc) r = Inl (RpcFailed (InternalError ''evaluation failed''))
        | Inr s \<Rightarrow>
            \<exists>resp. grpc_evaluate ns am (server_evaluate q ns am svc) r = Inr resp \<and> agrees resp s
               \<and> map_option tok_ttl (Option.bind (resp_context resp) rc_token)
                   = map_option (to_int32 \<circ> tok_ttl) (Option.bind (resp_context s) rc_token)"
    proof (cases "svc (request_from_proto am (Some p))")
      case (Inr s)
      then have "wf_response s" using assms(3) p(2) by (auto simp: svc_fits_def fits_response_def)
      from response_to_proto_ok [OF assms(1) this] show ?thesis
        using Inr p(1) by (auto simp: grpc_evaluate_def server_evaluate_def)
    qed (auto simp: grpc_evaluate_def server_evaluate_def p(1) split: pdp_error.split)
  qed
qed

lemma grpc_transport:
  assumes "structpb_ok ns am"
  shows "pdp_transport (grpc_evaluate ns am (server_evaluate q ns am svc)) svc"
proof
  fix r assume f: "fits r" "svc_fits svc r"
  obtain r' where r': "same_request r r'"
    "case svc r' of
          Inl (ContractViolation ve) \<Rightarrow>
            grpc_evaluate ns am (server_evaluate q ns am svc) r = Inl (RpcFailed (InvalidArgument (validation_text q ve)))
        | Inl _ \<Rightarrow>
            grpc_evaluate ns am (server_evaluate q ns am svc) r = Inl (RpcFailed (InternalError ''evaluation failed''))
        | Inr s \<Rightarrow>
            \<exists>resp. grpc_evaluate ns am (server_evaluate q ns am svc) r = Inr resp \<and> agrees resp s
               \<and> map_option tok_ttl (Option.bind (resp_context resp) rc_token)
                   = map_option (to_int32 \<circ> tok_ttl) (Option.bind (resp_context s) rc_token)"
    using grpc_to_server [OF assms f, of q] by blast
  show "\<exists>r' s. same_request r r' \<and> svc r' = Inr s \<and> agrees resp s"
    if "grpc_evaluate ns am (server_evaluate q ns am svc) r = Inr resp" for resp
    using that r' by (intro exI [of _ r']) (auto split: sum.splits pdp_error.splits)
  show "\<exists>resp. grpc_evaluate ns am (server_evaluate q ns am svc) r = Inr resp"
    if "\<forall>r'. same_request r r' \<longrightarrow> (\<exists>s. svc r' = Inr s)"
    using that r' by (auto dest!: spec [of _ r'] split: sum.splits)
qed

section \<open>Properties\<close>

text \<open>
  C29.  gRPC is transparent for decisions: against a server over the OPA-backed service the
  client allows a request exactly if it satisfies the contract and the policy allows it, and
  a contract violation arrives as \<open>InvalidArgument\<close> with the full message.  A token's TTL
  arrives truncated to an \<open>int32\<close>, hence unchanged exactly if it fits one.
\<close>

theorem grpc_pdp_faithful:
  fixes ns :: "gmap \<Rightarrow> 'm + 'st"
  assumes "structpb_ok ns am" and "fits r" and "issuer_ok i"
    and "\<forall>d. eval_opa q (VObj (input_map r)) = Inr d \<longrightarrow> decision_ok d"
  shows "let call = grpc_evaluate ns am (server_evaluate fq ns am (evaluate (eval_opa q) i now)) in
     ((\<exists>resp. call r = Inr resp \<and> decision resp) \<longleftrightarrow> conforms r \<and> opa_grants q (VObj (input_map r)))
     \<and> (\<not> conforms r \<longrightarrow> call r = Inl (RpcFailed (InvalidArgument
                              (validation_text fq (ValidationError (all_issues r))))))
     \<and> (\<forall>resp c tk. call r = Inr resp \<and> resp_context resp = Some c \<and> rc_token c = Some tk \<longrightarrow>
          tok_ttl tk = to_int32 (ttl_seconds i) \<and> (tok_ttl tk = ttl_seconds i \<longleftrightarrow> in_int32 (ttl_seconds i)))"
proof -
  let ?svc = "evaluate (eval_opa q) i now"
  let ?call = "grpc_evaluate ns am (server_evaluate fq ns am ?svc)"
  have f: "svc_fits ?svc r" using assms(2-4) by (rule evaluate_svc_fits)
  obtain r' where r': "same_request r r'" and out:
    "case ?svc r' of
          Inl (ContractViolation ve) \<Rightarrow> ?call r = Inl (RpcFailed (InvalidArgument (validation_text fq ve)))
        | Inl _ \<Rightarrow> ?call r = Inl (RpcFailed (InternalError ''evaluation failed''))
        | Inr s \<Rightarrow> \<exists>resp. ?call r = Inr resp \<and> agrees resp s
               \<and> map_option tok_ttl (Option.bind (resp_context resp) rc_token)
                   = map_option (to_int32 \<circ> tok_ttl) (Option.bind (resp_context s) rc_token)"
    using grpc_to_server [OF assms(1,2) f, of fq] by blast
  note same = same_request_facts [OF r']
  have c: "conforms r' = conforms r" using same(2) validate_None by metis
  have "all_issues r' = all_issues r" if "\<not> conforms r"
    using that same(2) c by (auto simp: validate_def all_issues_Nil split: if_splits)
  then have e: "?svc r' = (if \<not> conforms r then Inl (ContractViolation (ValidationError (all_issues r)))
      else (case eval_opa q (VObj (input_map r)) of
              Inl e \<Rightarrow> Inl (EngineFailed e) | Inr dec \<Rightarrow> Inr (assemble i now r' dec)))"
    using same(1,3) assms(2) c by (simp add: evaluate_fits)
  have t: "to_int32 t = t \<longleftrightarrow> in_int32 t" for t using to_int32_id to_int32_range by metis
  show ?thesis
  proof (cases "conforms r")
    case False
    then show ?thesis using e out by (simp add: Let_def)
  next
    case True
    show ?thesis
    proof (cases "eval_opa q (VObj (input_map r))")
      case (Inl err)
      then show ?thesis using e out True eval_opa_allow [of q "VObj (input_map r)"] by (auto simp: Let_def)
    next
      case (Inr d)
      then obtain resp where resp: "?call r = Inr resp" "agrees resp (assemble i now r' d)"
        "map_option tok_ttl (Option.bind (resp_context resp) rc_token)
           = map_option (to_int32 \<circ> tok_ttl) (Option.bind (resp_context (assemble i now r' d)) rc_token)"
        using e out True by auto
      have "decision resp = ed_allow d" using resp(2) by (simp add: agrees_def assemble_def)
      moreover have "tok_ttl tk = to_int32 (ttl_seconds i)"
        if "resp_context resp = Some c" "rc_token c = Some tk" for c tk
        using that resp(3) by (auto simp: assemble_def split: if_splits)
      ultimately show ?thesis
        using resp(1) True Inr eval_opa_allow [of q "VObj (input_map r)"] t by (auto simp: Let_def)
    qed
  qed
qed

lemma grpc_pdp_faithful_witness:
  "let ns = (\<lambda>m. Inr m) :: gmap \<Rightarrow> unit + gmap in
   \<exists>resp. grpc_evaluate ns id (server_evaluate id ns id (evaluate (eval_opa sample_opa) sample_issuer 0))
            sample_request = Inr resp \<and> decision resp"
proof -
  have s: "structpb_ok ((\<lambda>m. Inr m) :: gmap \<Rightarrow> unit + gmap) id" by (simp add: structpb_ok_def)
  show ?thesis
    using grpc_pdp_faithful [OF s sample_request_fits sample_issuer_ok sample_opa_ok, of id 0, unfolded Let_def]
      sample_request_conforms sample_opa_grants unfolding Let_def by blast
qed

end
