(* ===== verification/Pdp_Cmd.thy ===== *)
theory Pdp_Cmd
  imports Services Bundles Go_Duration Grpc_Pdp
begin

text \<open>
  The PDP command (\<open>cmd/pdp/main.go\<close>): its environment, the start-up sequence with the bundle
  pulled from the policy store, the optional gRPC endpoint, and the HTTP facade it ends up
  serving.
\<close>

section \<open>Environment\<close>

definition token_secret :: "environ \<Rightarrow> string" where
  "token_secret env = (if env ''PDP_TOKEN_SECRET'' \<noteq> [] then env ''PDP_TOKEN_SECRET'' else ''dev-insecure-secret-change-me'')"

definition token_ttl :: "environ \<Rightarrow> int" where
  "token_ttl env =
     (if env ''PDP_TOKEN_TTL'' \<noteq> [] then
        (case parse_duration (env ''PDP_TOKEN_TTL'') of Some d \<Rightarrow> d | None \<Rightarrow> 300 * 1000000000)
      else 300 * 1000000000)"

definition bundle_store :: "environ \<Rightarrow> store_config" where
  "bundle_store env =
     \<lparr>st_endpoint = env ''S3_ENDPOINT'', st_access = env_or env ''S3_ACCESS_KEY'' ''minioadmin'',
      st_secret = env_or env ''S3_SECRET_KEY'' ''minioadmin'', st_bucket = env_or env ''S3_BUCKET'' ''vsp-policy-bundles'',
      st_object = env_or env ''S3_OBJECT'' ''bundle.tar.gz'', st_ssl = False\<rparr>"

section \<open>Start-up\<close>

datatype ('s, 'p, 'e, 't, 'l) run_error =
    RunConnect 's
  | RunBundle "'s bundle_get_error"
  | RunService "('p, 'e) service_error"
  | RunListen 'l
  | RunCreds "'t tls_error"

text \<open>
  What ends up running: the engine and issuer of the service, the version of the pulled bundle,
  the gRPC endpoint with its credentials if any, and the address of the HTTP facade.
\<close>

record ('q, 'tls) running =
  ru_engine :: 'q
  ru_issuer :: issuer
  ru_version :: "string option"
  ru_grpc :: "(string \<times> 'tls option) option"
  ru_http :: string

definition pull_bundle ::
  "(store_config \<Rightarrow> 's + ('w, 's) s3_client) \<Rightarrow> environ \<Rightarrow> 'w \<Rightarrow> pdp_config
     \<Rightarrow> ('s, 'p, 'e, 't, 'l) run_error + pdp_config \<times> string option"
where
  "pull_bundle connect env w cfg =
     (if env ''S3_ENDPOINT'' = [] then Inr (cfg, None)
      else (case connect (bundle_store env) of
              Inl e \<Rightarrow> Inl (RunConnect e)
            | Inr cl \<Rightarrow>
                (case latest_bundle cl (bundle_store env) w of
                   Inl e \<Rightarrow> Inl (RunBundle e)
                 | Inr (content, version) \<Rightarrow> Inr (cfg\<lparr>pg_bundle := content\<rparr>, Some version))))"

definition grpc_endpoint ::
  "(string \<Rightarrow> 'l option) \<Rightarrow> 't tls_error + 'tls option \<Rightarrow> environ
     \<Rightarrow> ('s, 'p, 'e, 't, 'l) run_error + (string \<times> 'tls option) option"
where
  "grpc_endpoint listen tls env =
     (if env ''PDP_GRPC_ADDR'' = [] then Inr None
      else (case listen (env ''PDP_GRPC_ADDR'') of
              Some e \<Rightarrow> Inl (RunListen e)
            | None \<Rightarrow> (case grpc_server_creds tls of
                       Inl e \<Rightarrow> Inl (RunCreds e)
                     | Inr creds \<Rightarrow> Inr (Some (env ''PDP_GRPC_ADDR'', creds)))))"

definition pdp_run ::
  "(store_config \<Rightarrow> 's + ('w, 's) s3_client) \<Rightarrow> (string \<Rightarrow> 'p + string) \<Rightarrow> 'p visit list
     \<Rightarrow> (string \<Rightarrow> 'e + (string \<times> string) list \<times> gmap) \<Rightarrow> (string \<Rightarrow> gmap \<Rightarrow> string smap \<Rightarrow> 'e + 'q)
     \<Rightarrow> (string \<Rightarrow> 'l option) \<Rightarrow> 't tls_error + 'tls option \<Rightarrow> environ \<Rightarrow> 'w
     \<Rightarrow> ('s, 'p, 'e, 't, 'l) run_error + ('q, 'tls) running"
where
  "pdp_run connect read visits read_bundle prepare listen tls env w =
     (case pull_bundle connect env w
             \<lparr>pg_secret = token_secret env, pg_ttl = token_ttl env, pg_bundle = [], pg_modules = [], pg_data = []\<rparr> of
        Inl e \<Rightarrow> Inl e
      | Inr (cfg, version) \<Rightarrow>
          (case pdp_service read visits read_bundle prepare cfg of
             Inl e \<Rightarrow> Inl (RunService e)
           | Inr (eng, iss) \<Rightarrow>
               (case grpc_endpoint listen tls env of
                  Inl e \<Rightarrow> Inl e
                | Inr g \<Rightarrow>
                    Inr \<lparr>ru_engine = eng, ru_issuer = iss, ru_version = version, ru_grpc = g,
                         ru_http = env_or env ''PDP_ADDR'' '':8080''\<rparr>)))"

text \<open>What the HTTP endpoint of a running PDP answers.\<close>

definition running_facade ::
  "(string \<Rightarrow> string) \<Rightarrow> (string \<Rightarrow> string) \<Rightarrow> int \<Rightarrow> ('err prepared, 'tls) running \<Rightarrow> string \<Rightarrow> string \<Rightarrow> string \<Rightarrow> reply"
where
  "running_facade q json_err now ru = facade q json_err (evaluate (eval_opa (ru_engine ru)) (ru_issuer ru) now)"

section \<open>Lemmas\<close>

lemma token_ttl_range: "in_int64 (token_ttl env)"
  using parse_duration_range by (auto simp: token_ttl_def in_int64_def split: option.split)

lemma pdp_run_parts:
  assumes "(pdp_run connect read visits read_bundle prepare listen tls env w :: ('s, 'p, 'e, 't, 'l) run_error + _) = Inr ru"
  obtains cfg where
    "(pull_bundle connect env w
        \<lparr>pg_secret = token_secret env, pg_ttl = token_ttl env, pg_bundle = [], pg_modules = [], pg_data = []\<rparr>
        :: ('s, 'p, 'e, 't, 'l) run_error + _) = Inr (cfg, ru_version ru)"
    "pdp_service read visits read_bundle prepare cfg = Inr (ru_engine ru, ru_issuer ru)"
    "(grpc_endpoint listen tls env :: ('s, 'p, 'e, 't, 'l) run_error + _) = Inr (ru_grpc ru)"
    "ru_http ru = env_or env ''PDP_ADDR'' '':8080''"
  using assms by (auto simp: pdp_run_def split: sum.splits prod.splits)

lemma pull_bundle_keeps:
  "pull_bundle connect env w cfg = Inr (cfg', v) \<Longrightarrow>
   pg_secret cfg' = pg_secret cfg \<and> pg_ttl cfg' = pg_ttl cfg \<and> pg_modules cfg' = pg_modules cfg \<and> pg_data cfg' = pg_data cfg"
  by (auto simp: pull_bundle_def split: if_splits sum.splits)

lemma pdp_service_issuer:
  "pdp_service read visits read_bundle prepare cfg = Inr (eng, iss) \<Longrightarrow>
   iss = \<lparr>is_secret = pg_secret cfg, is_ttl = (if pg_ttl cfg = 0 then 300 * 1000000000 else pg_ttl cfg)\<rparr>"
  by (auto simp: pdp_service_def Let_def split: sum.splits if_splits)

text \<open>
  Without a bundle in its configuration, be it that no store is configured or that the store
  returned an empty object, the PDP starts on the policies it embeds, the modules and the data.
\<close>

lemma no_bundle_runs_embedded:
  assumes "pdp_service read visits read_bundle prepare cfg = Inr (eng, iss)"
    and "pg_bundle cfg = []" and "pg_modules cfg = []" and "pg_data cfg = []"
  shows "\<exists>ms d. policy_modules read visits = Inr ms \<and> policy_data read = Inr d
     \<and> new_engine prepare ms (entries d) DefaultDecisionQuery = Inr eng"
  using assms by (auto simp: pdp_service_def overlay_def Let_def split: sum.splits)

lemma empty_bundle_runs_embedded:
  assumes "(pdp_run connect read visits read_bundle prepare listen tls env w :: ('s, 'p, 'e, 't, 'l) run_error + _) = Inr ru"
    and "env ''S3_ENDPOINT'' \<noteq> []" and "connect (bundle_store env) = Inr cl"
    and "latest_bundle cl (bundle_store env) w = Inr ([], v)"
  shows "\<exists>ms d. policy_modules read visits = Inr ms \<and> policy_data read = Inr d
     \<and> new_engine prepare ms (entries d) DefaultDecisionQuery = Inr (ru_engine ru)"
proof -
  obtain cfg where p: "(pull_bundle connect env w
        \<lparr>pg_secret = token_secret env, pg_ttl = token_ttl env, pg_bundle = [], pg_modules = [], pg_data = []\<rparr>
        :: ('s, 'p, 'e, 't, 'l) run_error + _) = Inr (cfg, ru_version ru)"
    and s: "pdp_service read visits read_bundle prepare cfg = Inr (ru_engine ru, ru_issuer ru)"
    by (rule pdp_run_parts [OF assms(1)])
  have "pg_bundle cfg = []" "pg_modules cfg = []" "pg_data cfg = []"
    using p assms(2-4) by (auto simp: pull_bundle_def)
  with s show ?thesis by (rule no_bundle_runs_embedded)
qed

text \<open>In one environment, the publisher without flags and the PDP address the same object.\<close>

lemma push_defaults_agree:
  "env ''S3_ENDPOINT'' \<noteq> [] \<Longrightarrow>
   push_config env \<lparr>pf_endpoint = None, pf_access = None, pf_secret = None, pf_bucket = None, pf_object = None,
      pf_file = f, pf_days = d\<rparr> = bundle_store env"
  by (simp add: push_config_def bundle_store_def flag_or_def env_or_def)

section \<open>Properties\<close>

text \<open>
  C38.  A PDP that started runs exactly the policies it was told to, for the decision query: with
  an S3 endpoint the bundle the store returned; without one, or if the bundle was empty, the modules
  and the data it embeds, and nothing else.  It signs
  with the configured secret; its tokens live as long as \<open>PDP_TOKEN_TTL\<close> says if that is a
  nonzero duration, and 300 seconds otherwise, always within 64 bits.  Its gRPC endpoint is
  in the clear only if no TLS material is configured, never because loading it failed.
\<close>

theorem pdp_startup:
  assumes "(pdp_run connect read visits read_bundle prepare listen tls env w :: ('s, 'p, 'e, 't, 'l) run_error + _) = Inr ru"
  shows "(case ru_version ru of
            None \<Rightarrow> env ''S3_ENDPOINT'' = []
             \<and> (\<exists>ms d. policy_modules read visits = Inr ms \<and> policy_data read = Inr d
                  \<and> new_engine prepare ms (entries d) DefaultDecisionQuery = Inr (ru_engine ru))
          | Some v \<Rightarrow> env ''S3_ENDPOINT'' \<noteq> []
             \<and> (\<exists>cl content. connect (bundle_store env) = Inr cl
                  \<and> latest_bundle cl (bundle_store env) w = Inr (content, v)
                  \<and> (if content = []
                     then \<exists>ms d. policy_modules read visits = Inr ms \<and> policy_data read = Inr d
                            \<and> new_engine prepare ms (entries d) DefaultDecisionQuery = Inr (ru_engine ru)
                     else engine_from_bundle read_bundle prepare content DefaultDecisionQuery = Inr (ru_engine ru))))
     \<and> is_secret (ru_issuer ru) = token_secret env
     \<and> is_ttl (ru_issuer ru) = (case parse_duration (env ''PDP_TOKEN_TTL'') of
           Some d \<Rightarrow> if d = 0 then 300 * 1000000000 else d | None \<Rightarrow> 300 * 1000000000)
     \<and> in_int64 (is_ttl (ru_issuer ru))
     \<and> (case ru_grpc ru of None \<Rightarrow> env ''PDP_GRPC_ADDR'' = []
        | Some (addr, creds) \<Rightarrow> addr = env ''PDP_GRPC_ADDR'' \<and> tls = Inr creds)"
proof -
  obtain cfg where p: "(pull_bundle connect env w
        \<lparr>pg_secret = token_secret env, pg_ttl = token_ttl env, pg_bundle = [], pg_modules = [], pg_data = []\<rparr>
        :: ('s, 'p, 'e, 't, 'l) run_error + _) = Inr (cfg, ru_version ru)"
    and s: "pdp_service read visits read_bundle prepare cfg = Inr (ru_engine ru, ru_issuer ru)"
    and g: "(grpc_endpoint listen tls env :: ('s, 'p, 'e, 't, 'l) run_error + _) = Inr (ru_grpc ru)"
    by (rule pdp_run_parts [OF assms])
  let ?embedded = "\<exists>ms d. policy_modules read visits = Inr ms \<and> policy_data read = Inr d
      \<and> new_engine prepare ms (entries d) DefaultDecisionQuery = Inr (ru_engine ru)"
  have embedded: ?embedded if "pg_bundle cfg = []"
    using no_bundle_runs_embedded [OF s that] pull_bundle_keeps [OF p] by simp
  have iss: "ru_issuer ru = \<lparr>is_secret = token_secret env,
      is_ttl = (if token_ttl env = 0 then 300 * 1000000000 else token_ttl env)\<rparr>"
    using pdp_service_issuer [OF s] pull_bundle_keeps [OF p] by simp
  have nil: "parse_duration [] = None" by (simp add: parse_duration_def)
  have ttl: "(if token_ttl env = 0 then 300 * 1000000000 else token_ttl env)
      = (case parse_duration (env ''PDP_TOKEN_TTL'') of
           Some d \<Rightarrow> if d = 0 then 300 * 1000000000 else d | None \<Rightarrow> 300 * 1000000000)"
    using nil by (cases "env ''PDP_TOKEN_TTL'' = []") (auto simp: token_ttl_def split: option.split)
  have "in_int64 (is_ttl (ru_issuer ru))" using token_ttl_range [of env] by (simp add: iss in_int64_def)
  moreover have "case ru_version ru of
            None \<Rightarrow> env ''S3_ENDPOINT'' = [] \<and> ?embedded
          | Some v \<Rightarrow> env ''S3_ENDPOINT'' \<noteq> []
             \<and> (\<exists>cl content. connect (bundle_store env) = Inr cl
                  \<and> latest_bundle cl (bundle_store env) w = Inr (content, v)
                  \<and> (if content = [] then ?embedded
                     else engine_from_bundle read_bundle prepare content DefaultDecisionQuery = Inr (ru_engine ru)))"
  proof (cases "env ''S3_ENDPOINT'' = []")
    case True
    then show ?thesis using p embedded by (auto simp: pull_bundle_def)
  next
    case False
    then obtain cl content v where l: "connect (bundle_store env) = Inr cl"
      "latest_bundle cl (bundle_store env) w = Inr (content, v)" "pg_bundle cfg = content" "ru_version ru = Some v"
      using p by (auto simp: pull_bundle_def split: sum.splits)
    then have "if content = [] then ?embedded
        else engine_from_bundle read_bundle prepare content DefaultDecisionQuery = Inr (ru_engine ru)"
      using pdp_service_bundle [OF _ s] embedded by simp
    then show ?thesis using l False by auto
  qed
  moreover have "case ru_grpc ru of None \<Rightarrow> env ''PDP_GRPC_ADDR'' = []
        | Some (addr, creds) \<Rightarrow> addr = env ''PDP_GRPC_ADDR'' \<and> tls = Inr creds"
    using g by (cases "ru_grpc ru") (auto simp: grpc_endpoint_def grpc_server_creds_def split: if_splits option.splits sum.splits)
  ultimately show ?thesis using ttl iss by simp
qed

text \<open>An environment with a gRPC endpoint, a lifetime of 90 seconds and no store.\<close>

definition sample_env :: environ where
  "sample_env k = (if k = ''PDP_TOKEN_TTL'' then ''90s'' else if k = ''PDP_GRPC_ADDR'' then '':9090'' else [])"

lemma pdp_startup_witness:
  "\<exists>ru. pdp_run (\<lambda>_. Inl () :: unit + (unit, unit) s3_client) sample_read embedded_visits (\<lambda>_. Inl ()) sample_prepare
          (\<lambda>_. None :: unit option) (Inr None :: unit tls_error + unit option) sample_env () = Inr ru
     \<and> is_ttl (ru_issuer ru) = 90 * 1000000000 \<and> ru_grpc ru = Some ('':9090'', None) \<and> ru_version ru = None"
proof -
  have "case policy_modules sample_read embedded_visits of Inr _ \<Rightarrow> True | Inl _ \<Rightarrow> False" by code_simp
  then obtain ms where ms: "policy_modules sample_read embedded_visits = Inr ms" by (auto split: sum.splits)
  have d: "policy_data sample_read = Inr (Some [(''required_attributes'', VObj [])])"
    by (simp add: policy_data_def sample_read_def embedded_data_parses)
  obtain ru where
    r: "pdp_run (\<lambda>_. Inl () :: unit + (unit, unit) s3_client) sample_read embedded_visits (\<lambda>_. Inl ()) sample_prepare
          (\<lambda>_. None :: unit option) (Inr None :: unit tls_error + unit option) sample_env () = Inr ru"
      "ru_grpc ru = Some ('':9090'', None)" "ru_version ru = None"
    by (simp add: pdp_run_def pull_bundle_def pdp_service_def ms d Let_def new_engine_def sample_prepare_def
        grpc_endpoint_def grpc_server_creds_def sample_env_def Option.is_none_def)
  have "show_nat 90 = ''90''" by code_simp
  then have "parse_duration (sample_env ''PDP_TOKEN_TTL'') = Some (90 * 1000000000)"
    using parse_seconds [of 90] by (simp add: sample_env_def two63_def)
  then show ?thesis using pdp_startup [OF r(1)] r by auto
qed

text \<open>
  C39.  From the publisher to the decision: a PDP started on the store a bundle was published to,
  when nothing was published over it since, evaluates every request with the policies of
  exactly that bundle, and reports its version.
\<close>

theorem published_policy_runs:
  assumes "connect (bundle_store env) = Inr cl" and "s3_ok cl hist"
    and "publish connect open_file t (bundle_store env) file days w = (Inr version, w')"
    and "open_file file = Inr bundle" and "bundle \<noteq> []"
    and "env ''S3_ENDPOINT'' \<noteq> []"
    and "(pdp_run connect read visits read_bundle prepare listen tls env w' :: ('s, 'p, 'e, 't, 'l) run_error + _) = Inr ru"
  shows "ru_version ru = Some version
     \<and> engine_from_bundle read_bundle prepare bundle DefaultDecisionQuery = Inr (ru_engine ru)
     \<and> (\<forall>fq je now body. \<exists>eng. engine_from_bundle read_bundle prepare bundle ''data.vsp.authz.decision'' = Inr eng
          \<and> running_facade fq je now ru ''POST'' ''/access/v1/evaluation'' body
              = handle_evaluation fq je (evaluate (eval_opa eng) (ru_issuer ru) now) body)"
proof -
  obtain cfg where p: "(pull_bundle connect env w'
        \<lparr>pg_secret = token_secret env, pg_ttl = token_ttl env, pg_bundle = [], pg_modules = [], pg_data = []\<rparr>
        :: ('s, 'p, 'e, 't, 'l) run_error + _) = Inr (cfg, ru_version ru)"
    and s: "pdp_service read visits read_bundle prepare cfg = Inr (ru_engine ru, ru_issuer ru)"
    by (rule pdp_run_parts [OF assms(7)])
  obtain content v where l: "latest_bundle cl (bundle_store env) w' = Inr (content, v)"
    "pg_bundle cfg = content" "ru_version ru = Some v"
    using p assms(1,6) by (auto simp: pull_bundle_def split: sum.splits)
  obtain older where "hist w' (st_bucket (bundle_store env)) (st_object (bundle_store env)) = (v, content) # older"
    using latest_is_newest [OF assms(2) l(1)] by blast
  moreover obtain c where "open_file file = Inr c"
    "hist w' (st_bucket (bundle_store env)) (st_object (bundle_store env))
       = (version, c) # hist w (st_bucket (bundle_store env)) (st_object (bundle_store env))"
    using publish_adds [OF assms(1-3)] by auto
  ultimately have c: "content = bundle" "v = version" using assms(4) by auto
  then have e: "engine_from_bundle read_bundle prepare bundle DefaultDecisionQuery = Inr (ru_engine ru)"
    using pdp_service_bundle [OF _ s] l(2) assms(5) by simp
  then show ?thesis
    using c l(3) by (auto simp: DefaultDecisionQuery_def running_facade_def facade_def api_route_def)
qed

definition s3_env :: environ where
  "s3_env k = (if k = ''S3_ENDPOINT'' then ''minio:9000'' else [])"

definition sample_read_bundle :: "string \<Rightarrow> unit + (string \<times> string) list \<times> gmap" where
  "sample_read_bundle b = Inr ([(''main.rego'', b)], [])"

definition prepare_open :: "string \<Rightarrow> gmap \<Rightarrow> string smap \<Rightarrow> unit + unit prepared" where
  "prepare_open q d ms = Inr (\<lambda>v. Inr [[VObj [(''allow'', VBool (mget ms ''main.rego'' = Some ''allow''))]]])"

lemma published_policy_runs_witness:
  "\<exists>w' ru. publish (\<lambda>_. Inr mem_client) (\<lambda>f. Inr ''allow'' :: unit + string) 0 (bundle_store s3_env) ''f'' 1
             ([], \<lambda>b k. []) = (Inr ''0'', w')
     \<and> pdp_run (\<lambda>_. Inr mem_client) sample_read embedded_visits sample_read_bundle prepare_open
          (\<lambda>_. None :: unit option) (Inr None :: unit tls_error + unit option) s3_env w' = Inr ru
     \<and> ru_version ru = Some ''0''
     \<and> engine_from_bundle sample_read_bundle prepare_open ''allow'' DefaultDecisionQuery = Inr (ru_engine ru)"
proof -
  have zero: "show_nat 0 = ''0''" by code_simp
  obtain w' where w: "publish (\<lambda>_. Inr mem_client) (\<lambda>f. Inr ''allow'' :: unit + string) 0 (bundle_store s3_env) ''f'' 1
      ([], \<lambda>b k. []) = (Inr ''0'', w')"
    by (simp add: publish_def mem_client_def Let_def zero)
  have l: "latest_bundle mem_client (bundle_store s3_env) w' = Inr (''allow'', ''0'')"
    using w by (auto simp: publish_def mem_client_def Let_def latest_bundle_def zero)
  obtain ru where ru: "pdp_run (\<lambda>_. Inr mem_client) sample_read embedded_visits sample_read_bundle prepare_open
          (\<lambda>_. None :: unit option) (Inr None :: unit tls_error + unit option) s3_env w' = Inr ru"
    by (simp add: pdp_run_def pull_bundle_def l pdp_service_def Let_def engine_from_bundle_def sample_read_bundle_def
        new_engine_def prepare_open_def grpc_endpoint_def s3_env_def)
  have "s3_env ''S3_ENDPOINT'' \<noteq> []" by (simp add: s3_env_def)
  from published_policy_runs [OF refl mem_client_ok w refl _ this ru] show ?thesis using w ru by auto
qed

end
