(* ===== verification/Caep_Cmd.thy ===== *)
theory Caep_Cmd
  imports Caep Services
begin

text \<open>
  The admin command that pushes an event to receivers (\<open>cmd/caepemit/main.go\<close>): its defaults
  and usage check, the client it pushes with, and its exit code.
\<close>

section \<open>The command\<close>

text \<open>The flags as given on the command line, if they were, and the receiver URLs after them.\<close>

record emit_args =
  ea_secret :: "string option"
  ea_subject :: "string option"
  ea_type :: "string option"
  ea_urls :: "string list"

definition arg_or :: "string \<Rightarrow> string option \<Rightarrow> string" where
  "arg_or d a = (case a of None \<Rightarrow> d | Some s \<Rightarrow> s)"

text \<open>
  \<open>tls\<close> is what \<open>LoadClientTLS\<close> gives, and \<open>post\<close> delivers with the TLS configuration of the
  client, if it has one.  The exit code comes first.
\<close>

definition caepemit ::
  "environ \<Rightarrow> 't tls_error + 'tls option \<Rightarrow> ('tls option \<Rightarrow> string \<Rightarrow> string \<Rightarrow> 'w \<Rightarrow> ('err + nat) \<times> 'w)
     \<Rightarrow> int \<Rightarrow> emit_args \<Rightarrow> 'w \<Rightarrow> nat \<times> 'w"
where
  "caepemit env tls post now args w =
     (let secret = arg_or (env ''CAEP_SECRET'') (ea_secret args);
          subject = arg_or [] (ea_subject args);
          typ = arg_or EventSessionRevoked (ea_type args)
      in if secret = [] \<or> subject = [] \<or> ea_urls args = [] then (2, w)
         else (case tls of
                 Inl e \<Rightarrow> (1, w)
               | Inr client \<Rightarrow>
                   (case emit (post client) now \<lparr>tx_secret = secret, tx_subscribers = ea_urls args\<rparr>
                           \<lparr>ev_type = typ, ev_sub = subject, ev_iat = 0\<rparr> w of
                      (Some err, w') \<Rightarrow> (1, w')
                    | (None, w') \<Rightarrow> (0, w'))))"

section \<open>Properties\<close>

text \<open>
  Run with a subject and the URLs of receivers that share its secret, the command exits with 0
  and, by default, revokes exactly that subject at exactly those receivers; without a secret, a
  subject or a URL it exits with 2 and contacts nobody.
\<close>

theorem caepemit_revokes:
  assumes "ea_subject args = Some s" and "s \<noteq> []" and "valid_utf8 s" and "ea_type args = None"
    and "arg_or (env ''CAEP_SECRET'') (ea_secret args) = k" and "k \<noteq> []" and "ea_urls args \<noteq> []"
    and "\<forall>u \<in> set (ea_urls args). \<exists>c. net u = Some (k, c)"
  shows "case caepemit env (Inr client) (\<lambda>_. deliver) now args net of
       (code, net') \<Rightarrow> code = 0
         \<and> (\<forall>u x. revoked_at net' u x = ((u \<in> set (ea_urls args) \<and> x = s) \<or> revoked_at net u x))"
proof -
  let ?tx = "\<lparr>tx_secret = k, tx_subscribers = ea_urls args\<rparr>"
  let ?e = "\<lparr>ev_type = EventSessionRevoked, ev_sub = s, ev_iat = 0\<rparr>"
  have "wf_event ?e"
    using assms(3) by (auto simp: wf_event_def EventSessionRevoked_def ascii_def intro!: ascii_valid)
  moreover have "speaks s ?e" using assms(2) by (simp add: speaks_def)
  moreover have "\<forall>u \<in> set (tx_subscribers ?tx). \<exists>c. net u = Some (tx_secret ?tx, c)" using assms(8) by simp
  ultimately have "fst (emit deliver now ?tx ?e net) = None"
    and "\<forall>u x. revoked_at (snd (emit deliver now ?tx ?e net)) u x =
          (if u \<in> set (ea_urls args) \<and> x = s then True else revoked_at net u x)"
    using emit_signed_effect [of ?e s ?tx net now] by simp_all
  then show ?thesis
    using assms(1,2,4-7) by (cases "emit deliver now ?tx ?e net") (auto simp: caepemit_def arg_or_def Let_def)
qed

lemma caepemit_usage:
  "ea_subject args = None \<or> ea_urls args = [] \<Longrightarrow> caepemit env tls post now args w = (2, w)"
  by (auto simp: caepemit_def arg_or_def Let_def)

definition sample_args :: emit_args where
  "sample_args = \<lparr>ea_secret = Some ''k'', ea_subject = Some ''u-1'', ea_type = None, ea_urls = [''http://a'', ''http://b'']\<rparr>"

lemma caepemit_revokes_witness:
  "let (code, net') = caepemit (\<lambda>_. []) (Inr None :: unit tls_error + unit option) (\<lambda>_. deliver) 0 sample_args sample_net in
   code = 0 \<and> revoked_at net' ''http://b'' ''u-1'' \<and> \<not> revoked_at net' ''http://a'' ''u-2''"
proof -
  have "case caepemit (\<lambda>_. []) (Inr None :: unit tls_error + unit option) (\<lambda>_. deliver) 0 sample_args sample_net of
       (code, net') \<Rightarrow> code = 0
         \<and> (\<forall>u x. revoked_at net' u x = ((u \<in> set (ea_urls sample_args) \<and> x = ''u-1'') \<or> revoked_at sample_net u x))"
    by (rule caepemit_revokes [where k = "''k''"])
       (auto simp: sample_args_def arg_or_def sample_net_def ascii_def intro!: ascii_valid)
  then obtain net' where n: "caepemit (\<lambda>_. []) (Inr None :: unit tls_error + unit option) (\<lambda>_. deliver) 0 sample_args sample_net = (0, net')"
    and r: "\<And>u x. revoked_at net' u x = ((u \<in> set (ea_urls sample_args) \<and> x = ''u-1'') \<or> revoked_at sample_net u x)"
    by (auto split: prod.splits)
  have "\<not> revoked_at sample_net ''http://a'' ''u-2''" by (simp add: revoked_at_def sample_net_def is_revoked_def mget_def)
  then show ?thesis unfolding n by (simp add: r sample_args_def)
qed

end
