(* ===== verification/Spiffe.thy ===== *)
theory Spiffe
  imports Rw_Lock "HOL-Library.Stream"
begin

text \<open>
  Workload identities (\<open>identity/spiffe/ca.go\<close>, \<open>identity/spiffe/source.go\<close>): minting an SVID
  for an id of the trust domain, and the rotating source that re-mints it on a ticker and
  serves the latest one.  The SPIFFE library (parsing ids, membership) and X.509 (drawing a key and
  turning a template into a signed certificate) are arguments; the latter varies from call to call.
  What a mint reads of the clock, twice, and of the random source is a \<open>reading\<close>.
\<close>

section \<open>Minting\<close>

text \<open>
  The sixteen random bytes behind a serial number, if the random source gives them, and the two
  readings of the clock, one for each end of the validity.
\<close>

record reading =
  rd_random :: "string option"
  rd_first :: int
  rd_second :: int

text \<open>\<open>rand.Int\<close> below \<open>2 ^ 128\<close>: the bytes read as a big-endian number; on an error there is none.\<close>

definition serial :: "reading \<Rightarrow> nat option" where
  "serial rd = map_option (foldl (\<lambda>n c. 256 * n + byte_of c) 0) (rd_random rd)"

datatype key_usage = DigitalSignature | CertSign | CRLSign
datatype ext_key_usage = ServerAuth | ClientAuth

record 'i cert_template =
  ct_serial :: "nat option"
  ct_not_before :: int
  ct_not_after :: int
  ct_key_usage :: "key_usage list"
  ct_ext_usage :: "ext_key_usage list"
  ct_constraints_valid :: bool
  ct_is_ca :: bool
  ct_uris :: "'i list"

record ('i, 'c) svid =
  sv_id :: 'i
  sv_template :: "'i cert_template"
  sv_leaf :: 'c

datatype ('p, 'e) mint_error = BadId 'p | NotMember string | IssueFailed 'e

definition minute :: int where "minute = 60 * 1000000000"
definition svid_ttl :: int where "svid_ttl = 24 * 60 * minute"

definition svid_template :: "reading \<Rightarrow> 'i \<Rightarrow> 'i cert_template" where
  "svid_template rd i =
     \<lparr>ct_serial = serial rd, ct_not_before = rd_first rd - minute, ct_not_after = rd_second rd + svid_ttl,
      ct_key_usage = [DigitalSignature], ct_ext_usage = [ServerAuth, ClientAuth],
      ct_constraints_valid = True, ct_is_ca = False, ct_uris = [i]\<rparr>"

lemma serial_range:
  assumes "rd_random rd = Some bs" and "length bs = 16"
  shows "\<exists>n. serial rd = Some n \<and> n < 2 ^ 128"
proof -
  have "foldl (\<lambda>n c. 256 * n + byte_of c) n cs < (n + 1) * 256 ^ length cs" for n cs
  proof (induction cs arbitrary: n)
    case (Cons c cs)
    have "(256 * n + byte_of c + 1) * 256 ^ length cs \<le> (256 * n + 256) * 256 ^ length cs"
      using nat_of_char_less_256 [of c] by (intro mult_le_mono1) linarith
    from less_le_trans [OF Cons [of "256 * n + byte_of c"] this] show ?case by (simp add: algebra_simps)
  qed simp
  from this [of 0 bs] show ?thesis by (simp add: serial_def assms)
qed

definition mint ::
  "(string \<Rightarrow> 'p + 'i) \<Rightarrow> ('i \<Rightarrow> bool) \<Rightarrow> string \<Rightarrow> reading \<Rightarrow> ('i cert_template \<Rightarrow> 'e + 'c)
     \<Rightarrow> ('p, 'e) mint_error + ('i, 'c) svid"
where
  "mint parse_id member sid rd sign =
     (case parse_id sid of
        Inl e \<Rightarrow> Inl (BadId e)
      | Inr i \<Rightarrow>
          if \<not> member i then Inl (NotMember sid)
          else (case sign (svid_template rd i) of
                  Inl e \<Rightarrow> Inl (IssueFailed e)
                | Inr leaf \<Rightarrow> Inr \<lparr>sv_id = i, sv_template = svid_template rd i, sv_leaf = leaf\<rparr>))"

section \<open>Rotation\<close>

text \<open>
  The rotating source: the SVID in use and whether its context was cancelled.  A tick mints
  again and keeps the old SVID on an error; after a cancel the loop is gone.
\<close>

record ('i, 'c) rotating =
  ro_svid :: "('i, 'c) svid"
  ro_stopped :: bool

datatype ('i, 'e, 'c) rot_event = Tick reading "'i cert_template \<Rightarrow> 'e + 'c" | Cancel

definition remint ::
  "(string \<Rightarrow> 'p + 'i) \<Rightarrow> ('i \<Rightarrow> bool) \<Rightarrow> string \<Rightarrow> reading \<Rightarrow> ('i cert_template \<Rightarrow> 'e + 'c)
     \<Rightarrow> ('i, 'c) rotating \<Rightarrow> ('i, 'c) rotating"
where
  "remint parse_id member sid rd sign s =
     (case mint parse_id member sid rd sign of Inl _ \<Rightarrow> s | Inr v \<Rightarrow> s\<lparr>ro_svid := v\<rparr>)"

fun rot_step ::
  "(string \<Rightarrow> 'p + 'i) \<Rightarrow> ('i \<Rightarrow> bool) \<Rightarrow> string \<Rightarrow> ('i, 'e, 'c) rot_event
     \<Rightarrow> ('i, 'c) rotating \<Rightarrow> ('i, 'c) rotating"
where
  "rot_step parse_id member sid (Tick rd sign) s =
     (if ro_stopped s then s else remint parse_id member sid rd sign s)"
| "rot_step parse_id member sid Cancel s = s\<lparr>ro_stopped := True\<rparr>"

definition rotating_source ::
  "(string \<Rightarrow> 'p + 'i) \<Rightarrow> ('i \<Rightarrow> bool) \<Rightarrow> string \<Rightarrow> reading \<Rightarrow> ('i cert_template \<Rightarrow> 'e + 'c)
     \<Rightarrow> ('p, 'e) mint_error + ('i, 'c) rotating"
where
  "rotating_source parse_id member sid rd sign =
     map_sum id (\<lambda>v. \<lparr>ro_svid = v, ro_stopped = False\<rparr>) (mint parse_id member sid rd sign)"

text \<open>
  The loop itself.  \<open>select\<close> waits for the next of the two channels to be ready; the events come
  in the order in which it takes them.  It returns only on a cancel, so it is a partial function
  of the endless stream of events.
\<close>

partial_function (option) rot_loop ::
  "(string \<Rightarrow> 'p + 'i) \<Rightarrow> ('i \<Rightarrow> bool) \<Rightarrow> string \<Rightarrow> ('i, 'e, 'c) rot_event stream
     \<Rightarrow> ('i, 'c) rotating \<Rightarrow> ('i, 'c) rotating option"
where
  "rot_loop parse_id member sid evs s =
     (case shd evs of
        Cancel \<Rightarrow> Some (s\<lparr>ro_stopped := True\<rparr>)
      | Tick rd sign \<Rightarrow> rot_loop parse_id member sid (stl evs) (remint parse_id member sid rd sign s))"

text \<open>
  The goroutine: \<open>time.NewTicker\<close> panics on an interval that is not positive, which no caller can
  recover from.
\<close>

datatype 's loop_end = TickerPanic | Returned 's

definition run_loop ::
  "int \<Rightarrow> (string \<Rightarrow> 'p + 'i) \<Rightarrow> ('i \<Rightarrow> bool) \<Rightarrow> string \<Rightarrow> ('i, 'e, 'c) rot_event stream
     \<Rightarrow> ('i, 'c) rotating \<Rightarrow> ('i, 'c) rotating loop_end option"
where
  "run_loop every parse_id member sid evs s =
     (if every \<le> 0 then Some TickerPanic else map_option Returned (rot_loop parse_id member sid evs s))"

text \<open>What a handshake gets.\<close>

definition get_svid :: "('i, 'c) rotating \<Rightarrow> ('i, 'c) svid" where
  "get_svid s = ro_svid s"

text \<open>
  An SVID of the id, of the trust domain, whose certificate is a leaf for signatures and for both ends
  of TLS, valid from a minute before to 24 hours after the two clock readings of one of the mints.
\<close>

definition good_svid ::
  "(string \<Rightarrow> 'p + 'i) \<Rightarrow> ('i \<Rightarrow> bool) \<Rightarrow> string \<Rightarrow> reading list \<Rightarrow> ('i, 'c) svid \<Rightarrow> bool"
where
  "good_svid parse_id member sid rds v \<longleftrightarrow>
     (let t = sv_template v in
      parse_id sid = Inr (sv_id v) \<and> member (sv_id v) \<and> ct_uris t = [sv_id v]
      \<and> \<not> ct_is_ca t \<and> ct_constraints_valid t
      \<and> ct_key_usage t = [DigitalSignature] \<and> ct_ext_usage t = [ServerAuth, ClientAuth]
      \<and> (\<exists>rd \<in> set rds. ct_serial t = serial rd
            \<and> ct_not_before t = rd_first rd - minute \<and> ct_not_after t = rd_second rd + svid_ttl))"

lemma mint_good: "mint parse_id member sid rd sign = Inr v \<Longrightarrow> good_svid parse_id member sid [rd] v"
  by (auto simp: mint_def good_svid_def svid_template_def Let_def split: sum.splits if_splits)

lemma good_mono: "good_svid parse_id member sid rds v \<Longrightarrow> set rds \<subseteq> set rds' \<Longrightarrow> good_svid parse_id member sid rds' v"
  unfolding good_svid_def Let_def by blast

text \<open>If no mint took longer than \<open>d\<close> between its readings, the validity is 24 hours and a minute, up to \<open>d\<close>.\<close>

lemma good_validity:
  assumes "good_svid parse_id member sid rds v"
    and "\<forall>rd \<in> set rds. rd_first rd \<le> rd_second rd \<and> rd_second rd \<le> rd_first rd + d"
  shows "ct_not_before (sv_template v) + svid_ttl + minute \<le> ct_not_after (sv_template v)
     \<and> ct_not_after (sv_template v) \<le> ct_not_before (sv_template v) + svid_ttl + minute + d"
  using assms by (auto simp: good_svid_def Let_def)

lemma stopped_fixed: "ro_stopped s \<Longrightarrow> fold (rot_step parse_id member sid) evs s = s"
proof (induction evs)
  case (Cons ev evs)
  have "rot_step parse_id member sid ev s = s" using Cons.prems by (cases ev; cases s) simp_all
  then show ?case using Cons by simp
qed simp

text \<open>The last successful mint among some ticks.\<close>

fun last_mint ::
  "(string \<Rightarrow> 'p + 'i) \<Rightarrow> ('i \<Rightarrow> bool) \<Rightarrow> string \<Rightarrow> ('i, 'c) svid \<Rightarrow> ('i, 'e, 'c) rot_event list \<Rightarrow> ('i, 'c) svid"
where
  "last_mint parse_id member sid v [] = v"
| "last_mint parse_id member sid v (Cancel # evs) = v"
| "last_mint parse_id member sid v (Tick rd sign # evs) =
     last_mint parse_id member sid
       (case mint parse_id member sid rd sign of Inl _ \<Rightarrow> v | Inr w \<Rightarrow> w) evs"

text \<open>The readings of the mints among some ticks.\<close>

fun tick_readings :: "('i, 'e, 'c) rot_event list \<Rightarrow> reading list" where
  "tick_readings [] = []"
| "tick_readings (Cancel # evs) = []"
| "tick_readings (Tick rd sign # evs) = rd # tick_readings evs"

lemma last_mint_good:
  "good_svid parse_id member sid rds v \<Longrightarrow>
   good_svid parse_id member sid (rds @ tick_readings evs) (last_mint parse_id member sid v evs)"
proof (induction parse_id member sid v evs arbitrary: rds rule: last_mint.induct)
  case (3 parse_id member sid v rd sign evs)
  have "good_svid parse_id member sid (rds @ [rd])
      (case mint parse_id member sid rd sign of Inl _ \<Rightarrow> v | Inr w \<Rightarrow> w)"
  proof (cases "mint parse_id member sid rd sign")
    case (Inl e)
    then show ?thesis using good_mono [OF 3(2), of "rds @ [rd]"] by auto
  next
    case (Inr w)
    then show ?thesis using good_mono [OF mint_good [OF Inr], of "rds @ [rd]"] by auto
  qed
  from 3(1) [OF this] show ?case by simp
qed simp_all

lemma run_last_mint:
  "\<not> ro_stopped s \<Longrightarrow> ro_svid (fold (rot_step parse_id member sid) evs s) = last_mint parse_id member sid (ro_svid s) evs"
proof (induction parse_id member sid "ro_svid s" evs arbitrary: s rule: last_mint.induct)
  case (2 parse_id member sid evs s)
  then show ?case by (simp add: stopped_fixed)
next
  case (3 parse_id member sid rd sign evs s)
  have "ro_svid (remint parse_id member sid rd sign s)
      = (case mint parse_id member sid rd sign of Inl _ \<Rightarrow> ro_svid s | Inr w \<Rightarrow> w)"
    and "\<not> ro_stopped (remint parse_id member sid rd sign s)"
    using "3.prems" by (simp_all add: remint_def split: sum.split)
  then show ?case using "3.hyps" "3.prems" by simp
qed simp

text \<open>The loop is the fold of its events up to the first cancel, and has no result without one.\<close>

lemma remint_running: "\<not> ro_stopped s \<Longrightarrow> \<not> ro_stopped (remint parse_id member sid rd sign s)"
  by (simp add: remint_def split: sum.split)

lemma loop_returns:
  "\<not> ro_stopped s \<Longrightarrow> evs !! n = Cancel \<Longrightarrow> (\<And>m. m < n \<Longrightarrow> evs !! m \<noteq> Cancel) \<Longrightarrow>
   rot_loop parse_id member sid evs s = Some (fold (rot_step parse_id member sid) (stake (Suc n) evs) s)"
proof (induction n arbitrary: evs s)
  case 0
  then show ?case by (subst rot_loop.simps) simp
next
  case (Suc n)
  have "evs !! 0 \<noteq> Cancel" using Suc.prems(3) by blast
  then obtain rd sign where e: "shd evs = Tick rd sign" by (cases "shd evs") auto
  have "stl evs !! m \<noteq> Cancel" if "m < n" for m using Suc.prems(3) [of "Suc m"] that by simp
  then have "rot_loop parse_id member sid (stl evs) (remint parse_id member sid rd sign s)
      = Some (fold (rot_step parse_id member sid) (stake (Suc n) (stl evs)) (remint parse_id member sid rd sign s))"
    using Suc.prems(2) by (intro Suc.IH remint_running [OF Suc.prems(1)]) simp_all
  then show ?case using Suc.prems(1) by (subst rot_loop.simps) (simp add: e)
qed

lemma loop_cancelled:
  "rot_loop parse_id member sid evs s = Some s' \<Longrightarrow> \<exists>n. evs !! n = Cancel"
proof (induction parse_id member sid evs s s' rule: rot_loop.raw_induct [rotated, consumes 1])
  case (1 rec parse_id member sid evs s s')
  show ?case
  proof (cases "shd evs")
    case (Tick rd sign)
    then have "rec parse_id member sid (stl evs) (remint parse_id member sid rd sign s) = Some s'"
      using 1(2) by simp
    then have "\<exists>n. stl evs !! n = Cancel" using 1(1) by blast
    then show ?thesis by (metis snth.simps(2))
  next
    case Cancel
    then show ?thesis by (metis snth.simps(1))
  qed
qed

lemma serves_good:
  assumes "rotating_source parse_id member sid rd sign = Inr s"
  shows "get_svid (fold (rot_step parse_id member sid) evs s) = last_mint parse_id member sid (get_svid s) evs"
    and "good_svid parse_id member sid (rd # tick_readings evs) (get_svid (fold (rot_step parse_id member sid) evs s))"
proof -
  have v: "mint parse_id member sid rd sign = Inr (get_svid s)" "\<not> ro_stopped s"
    using assms by (auto simp: rotating_source_def map_sum_def get_svid_def split: sum.splits)
  then show last: "get_svid (fold (rot_step parse_id member sid) evs s) = last_mint parse_id member sid (get_svid s) evs"
    by (simp add: run_last_mint get_svid_def)
  show "good_svid parse_id member sid (rd # tick_readings evs) (get_svid (fold (rot_step parse_id member sid) evs s))"
    using last_mint_good [OF mint_good [OF v(1)], of evs] by (simp add: last)
qed

section \<open>The SVID under concurrent calls\<close>

text \<open>
  A handshake reads the SVID under the shared lock; the loop stores a minted one under the
  exclusive lock, after \<open>Mint\<close> has returned.
\<close>

datatype ('i, 'c) svid_call = CallGet | CallStore "('i, 'c) svid"

fun svid_exclusive :: "('i, 'c) svid_call \<Rightarrow> bool" where
  "svid_exclusive CallGet \<longleftrightarrow> False"
| "svid_exclusive (CallStore v) \<longleftrightarrow> True"

fun svid_effect :: "('i, 'c) svid_call \<Rightarrow> ('i, 'c) rotating \<Rightarrow> ('i, 'c) rotating" where
  "svid_effect CallGet = id"
| "svid_effect (CallStore v) = (\<lambda>s. s\<lparr>ro_svid := v\<rparr>)"

fun svid_answer :: "('i, 'c) svid_call \<Rightarrow> ('i, 'c) rotating \<Rightarrow> ('i, 'c) svid option" where
  "svid_answer CallGet s = Some (get_svid s)"
| "svid_answer (CallStore v) s = None"

interpretation svid_lock: rw_guarded svid_exclusive svid_effect svid_answer
proof
  show "svid_effect c = id" if "\<not> svid_exclusive c" for c :: "('i, 'c) svid_call" using that by (cases c) simp_all
qed

text \<open>Every handshake gets the SVID of the source or one the loop has stored, never a torn one.\<close>

lemma served_svids:
  assumes "rw_reachable svid_exclusive svid_effect svid_answer src s" and "(t, CallGet, r) \<in> set (rw_log s)"
  shows "\<not> races svid_effect s \<and> (\<exists>v. r = Some v \<and> (v = ro_svid src \<or> (\<exists>t r'. (t, CallStore v, r') \<in> set (rw_log s))))"
proof -
  have stored: "ro_svid (fold (\<lambda>(t, c, r). svid_effect c) es src) = ro_svid src
      \<or> (\<exists>t r'. (t, CallStore (ro_svid (fold (\<lambda>(t, c, r). svid_effect c) es src)), r') \<in> set es)" for es
  proof (induction es rule: rev_induct)
    case (snoc x es)
    obtain t c r where x: "x = (t, c, r)" by (cases x)
    then show ?case using snoc by (cases c) auto
  qed simp
  obtain pre post where l: "rw_log s = pre @ (t, CallGet, r) # post" using assms(2) by (auto simp: in_set_conv_decomp)
  then have "r = svid_answer CallGet (fold (\<lambda>(t, c, r). svid_effect c) pre src)"
    using svid_lock.linearizable [OF assms(1)] sequential_answer by metis
  then show ?thesis using svid_lock.no_race [OF assms(1)] stored [of pre] l by (auto simp: get_svid_def)
qed

section \<open>Properties\<close>

lemma rot_loop_ends:
  assumes "\<not> ro_stopped s"
  shows "rot_loop parse_id member sid evs s =
     (if \<exists>n. evs !! n = Cancel
      then Some (fold (rot_step parse_id member sid) (stake (Suc (LEAST n. evs !! n = Cancel)) evs) s)
      else None)"
proof (cases "\<exists>n. evs !! n = Cancel")
  case True
  then have "evs !! (LEAST n. evs !! n = Cancel) = Cancel" by (rule LeastI_ex)
  moreover have "evs !! m \<noteq> Cancel" if "m < (LEAST n. evs !! n = Cancel)" for m
    using that by (rule not_less_Least)
  ultimately have "rot_loop parse_id member sid evs s
      = Some (fold (rot_step parse_id member sid) (stake (Suc (LEAST n. evs !! n = Cancel)) evs) s)"
    by (rule loop_returns [OF assms])
  then show ?thesis using True by (simp only: if_True)
next
  case False
  then show ?thesis using loop_cancelled by (cases "rot_loop parse_id member sid evs s") fastforce+
qed

text \<open>
  C37.  The rotation goroutine of a running source crashes the process if its interval is not
  positive.  Otherwise it returns exactly if its context is cancelled at some point: with a cancel
  among the events it has processed the ticks before the first one and nothing after it, and
  without one it never returns.
\<close>

theorem rotation_loop_ends:
  assumes "\<not> ro_stopped s"
  shows "run_loop every parse_id member sid evs s =
     (if every \<le> 0 then Some TickerPanic
      else if \<exists>n. evs !! n = Cancel
      then Some (Returned (fold (rot_step parse_id member sid) (stake (Suc (LEAST n. evs !! n = Cancel)) evs) s))
      else None)"
  by (simp add: run_loop_def rot_loop_ends [OF assms])

text \<open>
  C34.  A rotating source serves at all times an SVID of the requested id, which belongs to the
  trust domain, in a leaf certificate for signing and for both ends of TLS, valid from a minute
  before to 24 hours after the clock readings of its mint; it is the one of the last mint that
  succeeded before the source was closed, so a failed rotation never leaves a handshake without
  an identity.  (That the interval is positive is the caller's duty.)
\<close>

theorem rotation_serves_identity:
  assumes "rotating_source parse_id member sid rd sign = Inr s"
  shows "get_svid (fold (rot_step parse_id member sid) evs s) = last_mint parse_id member sid (get_svid s) evs
     \<and> good_svid parse_id member sid (rd # tick_readings evs) (get_svid (fold (rot_step parse_id member sid) evs s))"
  by (simp add: serves_good(1) [OF assms]) (simp add: serves_good(2) [OF assms] serves_good(1) [OF assms, symmetric])

text \<open>A mint at some time, with the same serial number always, and clock readings a second apart.\<close>

definition reading_at :: "int \<Rightarrow> reading" where
  "reading_at t = \<lparr>rd_random = Some (replicate 16 CHR ''x''), rd_first = t, rd_second = t + 1000000000\<rparr>"

definition sample_parse :: "string \<Rightarrow> unit + string" where
  "sample_parse s = (if has_prefix s ''spiffe://'' then Inr s else Inl ())"

definition sample_sign :: "string cert_template \<Rightarrow> unit + int" where
  "sample_sign t = Inr (ct_not_after t)"

definition sample_source :: "(string, int) rotating" where
  "sample_source =
     \<lparr>ro_svid = \<lparr>sv_id = ''spiffe://vsp.local/wallet'', sv_template = svid_template (reading_at 0) ''spiffe://vsp.local/wallet'',
        sv_leaf = svid_ttl + 1000000000\<rparr>, ro_stopped = False\<rparr>"

lemma rotation_serves_identity_witness:
  "get_svid (fold (rot_step sample_parse (\<lambda>_. True) ''spiffe://vsp.local/wallet'')
       [Tick (reading_at minute) (\<lambda>_. Inl ()), Cancel, Tick (reading_at (2 * minute)) sample_sign] sample_source) = get_svid sample_source
   \<and> good_svid sample_parse (\<lambda>_. True) ''spiffe://vsp.local/wallet'' [reading_at 0, reading_at minute]
       (get_svid (fold (rot_step sample_parse (\<lambda>_. True) ''spiffe://vsp.local/wallet'')
          [Tick (reading_at minute) (\<lambda>_. Inl ()), Cancel, Tick (reading_at (2 * minute)) sample_sign] sample_source))"
proof -
  have "rotating_source sample_parse (\<lambda>_. True) ''spiffe://vsp.local/wallet'' (reading_at 0) sample_sign = Inr sample_source"
    by (simp add: rotating_source_def mint_def sample_parse_def has_prefix_def sample_sign_def sample_source_def
        svid_template_def reading_at_def)
  note t = rotation_serves_identity [OF this, of "[Tick (reading_at minute) (\<lambda>_. Inl ()), Cancel, Tick (reading_at (2 * minute)) sample_sign]"]
  have "last_mint sample_parse (\<lambda>_. True) ''spiffe://vsp.local/wallet'' (get_svid sample_source)
      [Tick (reading_at minute) (\<lambda>_. Inl ()), Cancel, Tick (reading_at (2 * minute)) sample_sign] = get_svid sample_source"
    by (simp add: mint_def sample_parse_def has_prefix_def)
  from t [unfolded this tick_readings.simps] show ?thesis .
qed

lemma rotation_loop_ends_witness:
  "run_loop minute sample_parse (\<lambda>_. True) ''spiffe://vsp.local/wallet'' (Tick (reading_at minute) sample_sign ## sconst Cancel) sample_source
     = Some (Returned (sample_source\<lparr>ro_svid := \<lparr>sv_id = ''spiffe://vsp.local/wallet'',
               sv_template = svid_template (reading_at minute) ''spiffe://vsp.local/wallet'', sv_leaf = minute + 1000000000 + svid_ttl\<rparr>,
             ro_stopped := True\<rparr>))
   \<and> run_loop minute sample_parse (\<lambda>_. True) ''spiffe://vsp.local/wallet'' (sconst (Tick (reading_at minute) sample_sign)) sample_source = None"
proof -
  let ?evs = "Tick (reading_at minute) sample_sign ## sconst Cancel :: (string, unit, int) rot_event stream"
  have run: "\<not> ro_stopped sample_source" by (simp add: sample_source_def)
  have c: "?evs !! 1 = Cancel" by simp
  have "(LEAST n. ?evs !! n = Cancel) = 1"
  proof (rule Least_equality)
    show "1 \<le> n" if "?evs !! n = Cancel" for n using that by (cases n) auto
  qed (rule c)
  moreover have "\<exists>n. ?evs !! n = Cancel" using c by blast
  ultimately have "run_loop minute sample_parse (\<lambda>_. True) ''spiffe://vsp.local/wallet'' ?evs sample_source
      = Some (Returned (fold (rot_step sample_parse (\<lambda>_. True) ''spiffe://vsp.local/wallet'') (stake (Suc 1) ?evs) sample_source))"
    using rotation_loop_ends [OF run, of minute sample_parse "\<lambda>_. True" "''spiffe://vsp.local/wallet''" ?evs] by (simp add: minute_def)
  moreover have "run_loop minute sample_parse (\<lambda>_. True) ''spiffe://vsp.local/wallet''
      (sconst (Tick (reading_at minute) sample_sign) :: (string, unit, int) rot_event stream) sample_source = None"
    by (subst rotation_loop_ends [OF run]) (simp add: minute_def)
  ultimately show ?thesis
    by (simp add: sample_source_def remint_def mint_def sample_parse_def has_prefix_def sample_sign_def svid_template_def
        reading_at_def)
qed

end
