(* ===== verification/Spiffe_Tls.thy ===== *)
theory Spiffe_Tls
  imports Spiffe
begin

text \<open>
  The certificate authority of a trust domain, the mTLS configurations built from its SVIDs, the
  two kinds of SVID source, and SVID files (\<open>identity/spiffe/ca.go\<close>, \<open>source.go\<close>,
  \<open>pem.go\<close>).  X.509 (self-signing, issuing, PEM and PKCS8), the SPIFFE library (trust
  domains, TLS configurations, the Workload API) and the file system are arguments.
\<close>

section \<open>The authority\<close>

record ca_template =
  cat_serial :: "nat option"
  cat_cn :: string
  cat_not_before :: int
  cat_not_after :: int
  cat_key_usage :: "key_usage list"
  cat_constraints_valid :: bool
  cat_is_ca :: bool

record ('t, 'c, 'k) ca =
  ca_td :: 't
  ca_cert :: 'c
  ca_key :: 'k

record ('t, 'c) trust_bundle =
  bu_td :: 't
  bu_roots :: "'c list"

datatype ('p, 'e) ca_error = BadTrustDomain 'p | SelfSignFailed 'e

definition ca_ttl :: int where
  "ca_ttl = 10 * 365 * 24 * 60 * minute"

definition root_template :: "string \<Rightarrow> reading \<Rightarrow> ca_template" where
  "root_template tdname rd =
     \<lparr>cat_serial = serial rd, cat_cn = tdname @ '' CA'', cat_not_before = rd_first rd - minute,
      cat_not_after = rd_second rd + ca_ttl, cat_key_usage = [CertSign, CRLSign],
      cat_constraints_valid = True, cat_is_ca = True\<rparr>"

definition new_ca ::
  "(string \<Rightarrow> 'p + 't) \<Rightarrow> (ca_template \<Rightarrow> 'e + 'c \<times> 'k) \<Rightarrow> reading \<Rightarrow> string \<Rightarrow> ('p, 'e) ca_error + ('t, 'c, 'k) ca"
where
  "new_ca parse_td self_sign rd tdname =
     (case parse_td tdname of
        Inl e \<Rightarrow> Inl (BadTrustDomain e)
      | Inr td \<Rightarrow>
          (case self_sign (root_template tdname rd) of
             Inl e \<Rightarrow> Inl (SelfSignFailed e)
           | Inr (cert, key) \<Rightarrow> Inr \<lparr>ca_td = td, ca_cert = cert, ca_key = key\<rparr>))"

definition ca_bundle :: "('t, 'c, 'k) ca \<Rightarrow> ('t, 'c) trust_bundle" where
  "ca_bundle a = \<lparr>bu_td = ca_td a, bu_roots = [ca_cert a]\<rparr>"

text \<open>\<open>td_of\<close> is the trust domain of an id, so \<open>MemberOf\<close> compares it.\<close>

definition ca_mint ::
  "(string \<Rightarrow> 'p + 'i) \<Rightarrow> ('i \<Rightarrow> 't) \<Rightarrow> ('t, 'c, 'k) ca \<Rightarrow> string \<Rightarrow> reading
     \<Rightarrow> ('c \<Rightarrow> 'k \<Rightarrow> 'i cert_template \<Rightarrow> 'e + 'l) \<Rightarrow> ('p, 'e) mint_error + ('i, 'l) svid"
where
  "ca_mint parse_id td_of a sid rd issue =
     mint parse_id (\<lambda>i. td_of i = ca_td a) sid rd (issue (ca_cert a) (ca_key a))"

section \<open>mTLS configurations and sources\<close>

text \<open>
  \<open>mk_server\<close> and \<open>mk_client\<close> are \<open>tlsconfig.MTLSServerConfig\<close> and \<open>MTLSClientConfig\<close>: they
  take where the own SVID comes from, the bundle peers are verified against, and who is
  authorized.
\<close>

definition mtls_server_config ::
  "('v \<Rightarrow> ('t, 'c) trust_bundle \<Rightarrow> ('i \<Rightarrow> bool) \<Rightarrow> 'tls) \<Rightarrow> ('i \<Rightarrow> 't) \<Rightarrow> 'v \<Rightarrow> ('t, 'c) trust_bundle \<Rightarrow> 'tls"
where
  "mtls_server_config mk_server td_of v b = mk_server v b (\<lambda>i. td_of i = bu_td b)"

definition mtls_client_config ::
  "('v \<Rightarrow> ('t, 'c) trust_bundle \<Rightarrow> ('i \<Rightarrow> bool) \<Rightarrow> 'tls) \<Rightarrow> ('i \<Rightarrow> 't) \<Rightarrow> 'v \<Rightarrow> ('t, 'c) trust_bundle \<Rightarrow> 'tls"
where
  "mtls_client_config mk_client td_of v b = mk_client v b (\<lambda>i. td_of i = bu_td b)"

text \<open>
  A source; \<open>so_svid\<close> is read at every handshake, from the state \<open>'w\<close> of the process.  The
  closer, if any, changes that state.
\<close>

record ('w, 'v, 'b, 't, 'e) source =
  so_svid :: "'w \<Rightarrow> 'v"
  so_bundle :: 'b
  so_td :: 't
  so_closer :: "('w \<Rightarrow> 'e option \<times> 'w) option"

definition server_tls ::
  "(('w \<Rightarrow> 'v) \<Rightarrow> 'b \<Rightarrow> ('i \<Rightarrow> bool) \<Rightarrow> 'tls) \<Rightarrow> ('i \<Rightarrow> 't) \<Rightarrow> ('w, 'v, 'b, 't, 'e) source \<Rightarrow> 'tls"
where
  "server_tls mk_server td_of s = mk_server (so_svid s) (so_bundle s) (\<lambda>i. td_of i = so_td s)"

definition client_tls ::
  "(('w \<Rightarrow> 'v) \<Rightarrow> 'b \<Rightarrow> ('i \<Rightarrow> bool) \<Rightarrow> 'tls) \<Rightarrow> ('i \<Rightarrow> 't) \<Rightarrow> ('w, 'v, 'b, 't, 'e) source \<Rightarrow> 'tls"
where
  "client_tls mk_client td_of s = mk_client (so_svid s) (so_bundle s) (\<lambda>i. td_of i = so_td s)"

definition close_source :: "('w, 'v, 'b, 't, 'e) source \<Rightarrow> 'w \<Rightarrow> 'e option \<times> 'w" where
  "close_source s w = (case so_closer s of None \<Rightarrow> (None, w) | Some f \<Rightarrow> f w)"

text \<open>The rotating source: its SVID is the one in the rotation's state, its closer cancels the loop.\<close>

definition as_source ::
  "('t, 'c, 'k) ca \<Rightarrow> (('i, 'l) rotating, ('i, 'l) svid, ('t, 'c) trust_bundle, 't, 'e) source"
where
  "as_source a =
     \<lparr>so_svid = get_svid, so_bundle = ca_bundle a, so_td = ca_td a,
      so_closer = Some (\<lambda>s. (None, s\<lparr>ro_stopped := True\<rparr>))\<rparr>"

datatype ('p, 'e) api_error = ApiTrustDomain 'p | ApiFailed 'e

text \<open>
  The Workload API source \<open>dial\<close> gives is both the SVID source and the bundle source; the
  socket is passed on when there is one.
\<close>

definition from_workload_api ::
  "(string \<Rightarrow> 'p + 't) \<Rightarrow> (string list \<Rightarrow> 'e + 'src) \<Rightarrow> ('src \<Rightarrow> 'w \<Rightarrow> 'v) \<Rightarrow> ('src \<Rightarrow> 'w \<Rightarrow> 'e option \<times> 'w)
     \<Rightarrow> string \<Rightarrow> string \<Rightarrow> ('p, 'e) api_error + ('w, 'v, 'src, 't, 'e) source"
where
  "from_workload_api parse_td dial svid_of close_of tdname sock =
     (case parse_td tdname of
        Inl e \<Rightarrow> Inl (ApiTrustDomain e)
      | Inr td \<Rightarrow>
          (case dial (if sock = [] then [] else [sock]) of
             Inl e \<Rightarrow> Inl (ApiFailed e)
           | Inr src \<Rightarrow>
               Inr \<lparr>so_svid = svid_of src, so_bundle = src, so_td = td, so_closer = Some (close_of src)\<rparr>))"

section \<open>SVID files\<close>

datatype ('m, 'w) write_svid_error = WriteCert 'w | MarshalKey 'm | WriteKey 'w

text \<open>\<open>write path content mode\<close> is \<open>os.WriteFile\<close>, \<open>pem\<close> is \<open>pem.EncodeToMemory\<close>.\<close>

definition write_svid ::
  "(string \<Rightarrow> string \<Rightarrow> nat \<Rightarrow> 'f \<Rightarrow> 'w option \<times> 'f) \<Rightarrow> (string \<Rightarrow> string \<Rightarrow> string) \<Rightarrow> ('k \<Rightarrow> 'm + string)
     \<Rightarrow> string \<Rightarrow> string \<Rightarrow> string list \<Rightarrow> 'k \<Rightarrow> 'f \<Rightarrow> ('m, 'w) write_svid_error option \<times> 'f"
where
  "write_svid write pem pkcs8 cert_path key_path ders key fs =
     (case write cert_path (concat (map (pem ''CERTIFICATE'') ders)) 0x1A4 fs of
        (Some e, fs') \<Rightarrow> (Some (WriteCert e), fs')
      | (None, fs') \<Rightarrow>
          (case pkcs8 key of
             Inl e \<Rightarrow> (Some (MarshalKey e), fs')
           | Inr der \<Rightarrow>
               (case write key_path (pem ''PRIVATE KEY'' der) 0x180 fs' of
                  (Some e, fs'') \<Rightarrow> (Some (WriteKey e), fs'')
                | (None, fs'') \<Rightarrow> (None, fs''))))"

datatype ('m, 'w) write_bundle_error = MarshalBundle 'm | WriteBundleFile 'w

definition write_bundle ::
  "(string \<Rightarrow> string \<Rightarrow> nat \<Rightarrow> 'f \<Rightarrow> 'w option \<times> 'f) \<Rightarrow> ('b \<Rightarrow> 'm + string) \<Rightarrow> string \<Rightarrow> 'b \<Rightarrow> 'f
     \<Rightarrow> ('m, 'w) write_bundle_error option \<times> 'f"
where
  "write_bundle write marshal path b fs =
     (case marshal b of
        Inl e \<Rightarrow> (Some (MarshalBundle e), fs)
      | Inr txt \<Rightarrow>
          (case write path txt 0x1A4 fs of
             (Some e, fs') \<Rightarrow> (Some (WriteBundleFile e), fs')
           | (None, fs') \<Rightarrow> (None, fs')))"

definition load_svid :: "(string \<Rightarrow> string \<Rightarrow> 'f \<Rightarrow> 'e + 'v) \<Rightarrow> string \<Rightarrow> string \<Rightarrow> 'f \<Rightarrow> 'e + 'v" where
  "load_svid load cert_path key_path fs = load cert_path key_path fs"

definition load_bundle ::
  "(string \<Rightarrow> 'p + 't) \<Rightarrow> ('t \<Rightarrow> string \<Rightarrow> 'f \<Rightarrow> 'e + 'b) \<Rightarrow> string \<Rightarrow> string \<Rightarrow> 'f \<Rightarrow> ('p, 'e) api_error + 'b"
where
  "load_bundle parse_td load tdname path fs =
     (case parse_td tdname of
        Inl e \<Rightarrow> Inl (ApiTrustDomain e)
      | Inr td \<Rightarrow> (case load td path fs of Inl e \<Rightarrow> Inl (ApiFailed e) | Inr b \<Rightarrow> Inr b))"

section \<open>Lemmas\<close>

text \<open>
  A leaf minted within ten years less a day of the authority's creation is valid only while the
  authority is.  Nothing stops a later mint, whose leaf outlives its root.
\<close>

lemma leaf_within_root:
  assumes "rd_first c \<le> rd_first n" and "rd_second n \<le> rd_second c + ca_ttl - svid_ttl"
  shows "cat_not_before (root_template td c) \<le> ct_not_before (svid_template n i)
     \<and> ct_not_after (svid_template n i) \<le> cat_not_after (root_template td c)"
  using assms by (simp add: root_template_def svid_template_def)

lemma late_leaf_outlives_root:
  "rd_second c + ca_ttl - svid_ttl < rd_second n \<Longrightarrow>
   cat_not_after (root_template td c) < ct_not_after (svid_template n i)"
  by (simp add: root_template_def svid_template_def)

lemma new_ca_InrD:
  "new_ca parse_td self_sign rd tdname = Inr a \<Longrightarrow>
   parse_td tdname = Inr (ca_td a) \<and> self_sign (root_template tdname rd) = Inr (ca_cert a, ca_key a)"
  by (auto simp: new_ca_def split: sum.splits)

text \<open>Closing a rotating source cancels its loop; the SVID it serves stays.\<close>

lemma close_rotating:
  "close_source (as_source a) s = (None, s\<lparr>ro_stopped := True\<rparr>)"
  "so_svid (as_source a) (snd (close_source (as_source a) s)) = so_svid (as_source a) s"
  by (simp_all add: close_source_def as_source_def get_svid_def)

lemma closed_source_frozen:
  "fold (rot_step parse_id member sid) evs (snd (close_source (as_source a) s)) = snd (close_source (as_source a) s)"
  by (simp add: close_rotating(1) stopped_fixed)

text \<open>A file system on which a write that succeeds stores the content and the mode.\<close>

definition files_ok ::
  "(string \<Rightarrow> string \<Rightarrow> nat \<Rightarrow> 'f \<Rightarrow> 'w option \<times> 'f) \<Rightarrow> ('f \<Rightarrow> string \<Rightarrow> (string \<times> nat) option) \<Rightarrow> bool"
where
  "files_ok write file \<longleftrightarrow>
     (\<forall>p c m fs fs'. write p c m fs = (None, fs') \<longrightarrow> file fs' = (file fs)(p \<mapsto> (c, m)))"

lemma files_okD: "files_ok write file \<Longrightarrow> write p c m fs = (None, fs') \<Longrightarrow> file fs' = (file fs)(p \<mapsto> (c, m))"
  by (auto simp: files_ok_def)

section \<open>Properties\<close>

text \<open>
  Writing an SVID to two different files without an error leaves the certificate chain in
  the one and the private key, readable by its owner only, in the other, and nothing else
  changed; a key that cannot be encoded is an error after the certificate was already written.
\<close>

theorem svid_files_written:
  assumes "files_ok write file" and "cert_path \<noteq> key_path"
    and "write_svid write pem pkcs8 cert_path key_path ders key fs = (None, fs')"
  shows "\<exists>der. pkcs8 key = Inr der
     \<and> file fs' cert_path = Some (concat (map (pem ''CERTIFICATE'') ders), 0x1A4)
     \<and> file fs' key_path = Some (pem ''PRIVATE KEY'' der, 0x180)
     \<and> (\<forall>p. p \<noteq> cert_path \<and> p \<noteq> key_path \<longrightarrow> file fs' p = file fs p)"
proof -
  obtain fs1 der where w: "write cert_path (concat (map (pem ''CERTIFICATE'') ders)) 0x1A4 fs = (None, fs1)"
    "pkcs8 key = Inr der" "write key_path (pem ''PRIVATE KEY'' der) 0x180 fs1 = (None, fs')"
    using assms(3) by (auto simp: write_svid_def split: prod.splits option.splits sum.splits)
  show ?thesis
    using files_okD [OF assms(1) w(1)] files_okD [OF assms(1) w(3)] assms(2) w(2) by auto
qed

definition sample_write :: "string \<Rightarrow> string \<Rightarrow> nat \<Rightarrow> (string \<rightharpoonup> string \<times> nat) \<Rightarrow> unit option \<times> (string \<rightharpoonup> string \<times> nat)" where
  "sample_write p c m fs = (if p = [] then (Some (), fs) else (None, fs(p \<mapsto> (c, m))))"

lemma svid_files_written_witness:
  "\<exists>der fs'. write_svid sample_write (\<lambda>t b. t @ b) (\<lambda>k. Inr k :: unit + string) ''c.pem'' ''k.pem'' [''x''] ''y'' Map.empty = (None, fs')
     \<and> fs' ''c.pem'' = Some (''CERTIFICATEx'', 0x1A4) \<and> fs' ''k.pem'' = Some (''PRIVATE KEY'' @ der, 0x180)"
proof -
  have ok: "files_ok sample_write (\<lambda>fs. fs)" by (auto simp: files_ok_def sample_write_def split: if_splits)
  obtain fs' where w: "write_svid sample_write (\<lambda>t b. t @ b) (\<lambda>k. Inr k :: unit + string) ''c.pem'' ''k.pem'' [''x''] ''y'' Map.empty
      = (None, fs')"
    by (simp add: write_svid_def sample_write_def)
  have "''c.pem'' \<noteq> ''k.pem''" by simp
  from svid_files_written [OF ok this w] show ?thesis using w by auto
qed

text \<open>
  Workloads with SVIDs of one authority authorize each other, at every moment of their
  rotation: the configuration of any of its sources verifies peers against the authority's root
  alone and authorizes exactly the ids of its trust domain, to which the id of every SVID its
  sources serve belongs.
\<close>

theorem same_authority_peers:
  assumes "rotating_source parse_id (\<lambda>i. td_of i = ca_td a) sid rd (issue (ca_cert a) (ca_key a)) = Inr s"
  shows "case (server_tls (\<lambda>v b auth. (v, b, auth)) td_of (as_source a),
               client_tls (\<lambda>v b auth. (v, b, auth)) td_of (as_source a)) of
       ((v, b, auth), (v', b', auth')) \<Rightarrow>
         (let w = fold (rot_step parse_id (\<lambda>i. td_of i = ca_td a) sid) evs s in
          auth (sv_id (v w)) \<and> auth' (sv_id (v' w)) \<and> parse_id sid = Inr (sv_id (v w)))
         \<and> bu_roots b = [ca_cert a] \<and> bu_roots b' = [ca_cert a]
         \<and> (\<forall>i. (auth i \<longleftrightarrow> td_of i = ca_td a) \<and> (auth' i \<longleftrightarrow> td_of i = ca_td a))"
proof -
  have "good_svid parse_id (\<lambda>i. td_of i = ca_td a) sid (rd # tick_readings evs)
      (get_svid (fold (rot_step parse_id (\<lambda>i. td_of i = ca_td a) sid) evs s))"
    by (rule serves_good(2) [OF assms])
  then show ?thesis
    by (simp add: server_tls_def client_tls_def as_source_def ca_bundle_def good_svid_def Let_def)
qed

definition sample_ca :: "(string, int, int) ca" where
  "sample_ca = \<lparr>ca_td = ''spiffe:/'', ca_cert = 1, ca_key = 2\<rparr>"

lemma same_authority_peers_witness:
  "case (server_tls (\<lambda>v b auth. (v, b, auth)) (take 8) (as_source sample_ca :: (_, _, _, _, unit) source)) of
       (v, b, auth) \<Rightarrow> auth (sv_id (v sample_source)) \<and> bu_roots b = [1] \<and> \<not> auth ''https://x''"
proof -
  have "rotating_source sample_parse (\<lambda>i. take 8 i = ca_td sample_ca) ''spiffe://vsp.local/wallet'' (reading_at 0)
      ((\<lambda>c k. sample_sign) (ca_cert sample_ca) (ca_key sample_ca)) = Inr sample_source"
    by (simp add: rotating_source_def mint_def sample_parse_def has_prefix_def sample_sign_def sample_source_def
        svid_template_def sample_ca_def reading_at_def)
  from same_authority_peers [OF this, of "[]"] show ?thesis
    by (auto simp: server_tls_def as_source_def sample_ca_def ca_bundle_def Let_def)
qed

end
