(* ===== verification/Sha_Vectors.thy ===== *)
theory Sha_Vectors
  imports Go_Crypto
begin

unbundle bit_operations_syntax

text \<open>
  SHA-256 evaluated by the kernel on messages of one block: the example \<open>abc\<close> of the standard,
  which checks the model of the digest, and the two JSON texts whose digests decide
  whether a token survives a nil map (\<open>null\<close> and \<open>{}\<close>).  The evaluation runs on an equivalent form over
  integers, which the simplifier computes faster than words.
\<close>

section \<open>The rounds over integers\<close>

definition rot_int :: "nat \<Rightarrow> int \<Rightarrow> int" where
  "rot_int n x = x div 2 ^ n + (x mod 2 ^ n) * 2 ^ (32 - n)"

lemma uint_lt [simp]: "uint (w :: w32) < 4294967296"
  using uint_bounded [of w] by simp

lemma uint_rotr:
  assumes "0 < n" "n < 32"
  shows "uint (word_rotr n (w :: w32)) = rot_int n (uint w)"
proof -
  have lt: "uint w div 2 ^ n < 2 ^ (32 - n)"
  proof -
    have "uint w < 2 ^ (32 - n) * 2 ^ n" using assms by (simp flip: power_add)
    moreover have "uint w div 2 ^ n * 2 ^ n \<le> uint w" by (simp flip: minus_mod_eq_div_mult)
    ultimately have "uint w div 2 ^ n * 2 ^ n < 2 ^ (32 - n) * 2 ^ n" by linarith
    then show ?thesis by simp
  qed
  have uint_take: "uint (take_bit n w) = uint w mod 2 ^ n" by (metis take_bit_eq_mod unsigned_take_bit_eq)
  have "uint (word_rotr n w) = concat_bit (32 - n) (uint w div 2 ^ n) (uint w mod 2 ^ n)"
    using assms uint_take by (simp add: uint_word_rotr_eq drop_bit_eq_div)
  also have "\<dots> = take_bit (32 - n) (uint w div 2 ^ n) + push_bit (32 - n) (uint w mod 2 ^ n)"
    by (simp add: concat_bit_eq)
  also have "\<dots> = rot_int n (uint w)"
    using lt by (simp add: rot_int_def take_bit_eq_mod push_bit_eq_mult mod_pos_pos_trivial pos_imp_zdiv_nonneg_iff)
  finally show ?thesis .
qed

lemma uint_add: "uint (a + b :: w32) = (uint a + uint b) mod 4294967296"
  by (simp add: uint_word_ariths)

lemma uint_not: "uint (NOT a :: w32) = 4294967295 - uint a"
proof -
  have "NOT a = - 1 - a" by (simp add: not_eq_complement)
  then have "uint (NOT a) = (4294967295 - uint a) mod 4294967296"
    by (simp add: uint_word_ariths mod_diff_left_eq)
  moreover have "0 \<le> 4294967295 - uint a" using uint_lt [of a] by linarith
  moreover have "4294967295 - uint a < 4294967296" using uint_ge_0 [of a] by linarith
  ultimately show ?thesis by (metis mod_pos_pos_trivial)
qed

lemma uint_shr: "uint (drop_bit n (a :: w32)) = uint a div 2 ^ n"
proof -
  have "uint (drop_bit n a) = drop_bit n (uint a)"
    by (rule bit_eqI) (simp add: bit_unsigned_iff bit_drop_bit_eq)
  then show ?thesis by (simp only: drop_bit_eq_div)
qed

lemmas uint_ops = uint_add uint_not uint_shr uint_rotr unsigned_xor_eq unsigned_and_eq

definition int_t1 :: "int \<Rightarrow> int \<Rightarrow> int \<Rightarrow> int \<Rightarrow> int \<Rightarrow> int \<Rightarrow> int" where
  "int_t1 e f g h k w =
     h + (rot_int 6 e XOR rot_int 11 e XOR rot_int 25 e) + ((e AND f) XOR (4294967295 - e AND g)) + k + w"

definition int_t2 :: "int \<Rightarrow> int \<Rightarrow> int \<Rightarrow> int" where
  "int_t2 a b c =
     (rot_int 2 a XOR rot_int 13 a XOR rot_int 22 a) + ((a AND b) XOR (a AND c) XOR (b AND c))"

definition int_next :: "int \<Rightarrow> int \<Rightarrow> int \<times> int \<times> int \<times> int \<times> int \<times> int \<times> int
     \<Rightarrow> int \<times> int \<times> int \<times> int \<times> int \<times> int \<times> int \<times> int" where
  "int_next x y st = (case st of (a, b, c, d, e, f, g) \<Rightarrow>
     ((x + y) mod 4294967296, a, b, c, (d + x) mod 4294967296, e, f, g))"

fun int_round :: "int \<times> int \<times> int \<times> int \<times> int \<times> int \<times> int \<times> int \<Rightarrow> int \<times> int
     \<Rightarrow> int \<times> int \<times> int \<times> int \<times> int \<times> int \<times> int \<times> int" where
  "int_round (a, b, c, d, e, f, g, h) (k, w) = int_next (int_t1 e f g h k w) (int_t2 a b c) (a, b, c, d, e, f, g)"

fun of_sha :: "sha_state \<Rightarrow> int \<times> int \<times> int \<times> int \<times> int \<times> int \<times> int \<times> int" where
  "of_sha (Sha a b c d e f g h) = (uint a, uint b, uint c, uint d, uint e, uint f, uint g, uint h)"

lemma of_sha_round: "of_sha (sha_round st kw) = int_round (of_sha st) (map_prod uint uint kw)"
  by (cases st; cases kw)
    (simp add: Let_def uint_ops int_next_def int_t1_def int_t2_def mod_simps ac_simps)

definition int_extend_word :: "int \<Rightarrow> int \<Rightarrow> int \<Rightarrow> int \<Rightarrow> int" where
  "int_extend_word x y u v =
     ((rot_int 17 x XOR rot_int 19 x XOR x div 1024) + u + (rot_int 7 y XOR rot_int 18 y XOR y div 8) + v)
       mod 4294967296"

fun int_extend :: "nat \<Rightarrow> int list \<Rightarrow> int list" where
  "int_extend 0 ws = ws"
| "int_extend (Suc n) ws = int_extend n (int_extend_word (ws ! 1) (ws ! 14) (ws ! 6) (ws ! 15) # ws)"

lemma map_extend: "15 < length ws \<Longrightarrow> map uint (sha_extend n ws) = int_extend n (map uint ws)"
proof (induction n arbitrary: ws)
  case (Suc n)
  then show ?case by (simp add: Let_def uint_ops int_extend_word_def mod_simps ac_simps)
qed simp
section \<open>Test vectors\<close>

definition schedule :: "string \<Rightarrow> int list" where
  "schedule m = rev (int_extend 48 (rev (map uint (be_words (sha_pad m)))))"

definition compressed :: "string \<Rightarrow> int \<times> int \<times> int \<times> int \<times> int \<times> int \<times> int \<times> int" where
  "compressed m = foldl int_round (of_sha sha_init) (zip (map uint sha_k) (schedule m))"

lemma of_sha_fold: "of_sha (foldl sha_round st kws) = foldl int_round (of_sha st) (map (map_prod uint uint) kws)"
  by (induction kws arbitrary: st) (simp_all add: of_sha_round)

lemma of_sha_inj: "of_sha a = of_sha b \<Longrightarrow> a = b"
  by (cases a; cases b) (simp add: word_uint_eq_iff)

lemma sha256_one_block:
  assumes "length m < 56" and "compressed m = of_sha st"
  shows "sha256 m = (case sha_add sha_init st of Sha a b c d e f g h \<Rightarrow> concat (map be_bytes [a, b, c, d, e, f, g, h]))"
proof -
  have "(119 - length m) mod 64 = 55 - length m"
    using assms(1) mod_add_self1 [of 64 "55 - length m"] by simp
  then have len: "length (sha_pad m) = 64" using assms(1) by (simp add: sha_pad_def Let_def)
  have words: "length (be_words s) = length s div 4" for s
    by (induction s rule: be_words.induct) simp_all
  let ?ws = "rev (sha_extend 48 (rev (be_words (sha_pad m))))"
  have sch: "schedule m = map uint ?ws"
    by (simp add: schedule_def map_extend words len flip: rev_map)
  have "of_sha (foldl sha_round sha_init (zip sha_k ?ws)) = compressed m"
    by (simp only: of_sha_fold compressed_def sch zip_map_map map_prod_def)
  then have "foldl sha_round sha_init (zip sha_k ?ws) = st"
    using assms(2) of_sha_inj by simp
  then show ?thesis
    using len by (simp add: sha256_def sha_block_def sha_blocks.simps [of _ "sha_pad m"]
        sha_blocks.simps [of _ "[]"])
qed

lemma compressed_abc:
  "compressed ''abc'' = of_sha
     (Sha 1349398616 3550093669 80891244 3093179625 1593118500 4212265488 2492278198 2518632596)"
  by code_simp

lemma sha256_abc: "map byte_of (take 4 (sha256 ''abc'')) = [0xBA, 0x78, 0x16, 0xBF]"
  unfolding sha256_one_block [OF _ compressed_abc, simplified] by code_simp

lemma compressed_null:
  "compressed ''null'' = of_sha
     (Sha 169437233 4102003466 2037120641 3312640592 2066039269 1581975471 1820180199 2644634610)"
  by code_simp

lemma sha256_null: "map byte_of (take 1 (sha256 ''null'')) = [116]"
  unfolding sha256_one_block [OF _ compressed_null, simplified] by code_simp

lemma compressed_braces:
  "compressed ''{}'' = of_sha
     (Sha 3658058044 2588653829 3570907556 1385721700 1139604803 2229409271 4047275851 3234476657)"
  by code_simp

lemma sha256_braces: "map byte_of (take 1 (sha256 ''{}'')) = [68]"
  unfolding sha256_one_block [OF _ compressed_braces, simplified] by code_simp

lemma sha256_null_braces: "sha256 ''null'' \<noteq> sha256 ''{}''"
  using sha256_null sha256_braces by auto

end
