(* ===== verification/Rego.thy ===== *)
theory Rego
  imports Engine
begin

text \<open>
  The embedded policy (\<open>policies/main.rego\<close>, \<open>global/schema.rego\<close>, \<open>lib/lib.rego\<close>,
  \<open>profiles/profiles.rego\<close>) and the synthetic domain of the test fixture
  (\<open>policyfixture.go\<close>), rule by rule.  A document that may be undefined is an option; \<open>not\<close> holds
  of undefined and of false, but OPA evaluates a reference that is an argument of a call before the
  expression, negated or not, so an undefined argument leaves the whole body undefined; a built-in
  applied to an operand of the wrong type is undefined;
  values compare across types in OPA's order, numbers by value (OPA compares the decimal text
  of a number; against an integer that binary64 represents the order is the same).  A domain's verdict (the adopter's modules) and the \<open>%q\<close>
  verb of OPA's \<open>sprintf\<close> are arguments.
\<close>

section \<open>References, truth, built-ins\<close>

fun ref :: "gval \<Rightarrow> string list \<Rightarrow> gval option" where
  "ref v [] = Some v"
| "ref v (k # ks) =
     (case v of VObj m \<Rightarrow> (case mget m k of None \<Rightarrow> None | Some w \<Rightarrow> ref w ks) | _ \<Rightarrow> None)"

definition holds :: "gval option \<Rightarrow> bool" where
  "holds d \<longleftrightarrow> d \<noteq> None \<and> d \<noteq> Some (VBool False)"

text \<open>A number as an array index, and a reference with a computed key.\<close>

fun num_index :: "float64 \<Rightarrow> nat option" where
  "num_index (F64 neg m e) =
     (if neg \<and> m \<noteq> 0 then None
      else if 0 \<le> e then Some (m * 2 ^ nat e)
      else if m mod 2 ^ nat (- e) = 0 then Some (m div 2 ^ nat (- e)) else None)"

definition index :: "gval option \<Rightarrow> gval option \<Rightarrow> gval option" where
  "index d k =
     (case (d, k) of
        (Some (VObj m), Some (VStr s)) \<Rightarrow> mget m s
      | (Some (VArr xs), Some (VNum f)) \<Rightarrow>
          (case num_index f of Some n \<Rightarrow> if n < length xs then Some (xs ! n) else None | None \<Rightarrow> None)
      | _ \<Rightarrow> None)"

text \<open>What \<open>some x in\<close> ranges over.\<close>

fun members :: "gval option \<Rightarrow> gval list" where
  "members (Some (VArr xs)) = xs"
| "members (Some (VObj m)) = map snd m"
| "members _ = []"

definition starts_with :: "gval option \<Rightarrow> string \<Rightarrow> bool" where
  "starts_with d p = (case d of Some (VStr s) \<Rightarrow> has_prefix s p | _ \<Rightarrow> False)"

text \<open>\<open>split(x, ":")[0]\<close>.\<close>

definition before_colon :: "gval option \<Rightarrow> string option" where
  "before_colon d = (case d of Some (VStr s) \<Rightarrow> Some (hd (split_byte CHR '':'' s)) | _ \<Rightarrow> None)"

text \<open>\<open>x > n\<close> in the order null, booleans, numbers, strings, arrays, objects; \<open>x <= n\<close> is its negation.\<close>

fun float_above :: "float64 \<Rightarrow> nat \<Rightarrow> bool" where
  "float_above (F64 neg m e) n \<longleftrightarrow>
     \<not> neg \<and> (if 0 \<le> e then n < m * 2 ^ nat e else n * 2 ^ nat (- e) < m)"

fun above :: "gval \<Rightarrow> nat \<Rightarrow> bool" where
  "above VNull n \<longleftrightarrow> False"
| "above (VBool _) n \<longleftrightarrow> False"
| "above (VNum f) n \<longleftrightarrow> float_above f n"
| "above (VStr _) n \<longleftrightarrow> True"
| "above (VArr _) n \<longleftrightarrow> True"
| "above (VObj _) n \<longleftrightarrow> True"

section \<open>The global schema\<close>

text \<open>
  The regular expression \<open>colon_pair\<close>: a lower-case letter and name characters, a colon, and the
  same again to the end of the text.
\<close>

definition colon_pair :: "string \<Rightarrow> bool" where
  "colon_pair s =
     (case s of
        [] \<Rightarrow> False
      | c # cs \<Rightarrow> lower c \<and>
          (case dropWhile name_char cs of
             x # d # ds \<Rightarrow> x = CHR '':'' \<and> lower d \<and> list_all name_char ds
           | _ \<Rightarrow> False))"

definition matches_pair :: "gval option \<Rightarrow> bool" where
  "matches_pair d = (case d of Some (VStr s) \<Rightarrow> colon_pair s | _ \<Rightarrow> False)"

definition valid_subject_type :: "gval \<Rightarrow> bool" where
  "valid_subject_type v \<longleftrightarrow>
     ref v [''subject'', ''type''] = Some (VStr ''user'') \<or> ref v [''subject'', ''type''] = Some (VStr ''workload'')"

definition quoted :: "string \<Rightarrow> string" where
  "quoted s = [CHR 0x22] @ s @ [CHR 0x22]"

text \<open>The five messages.\<close>

definition subject_type_msg :: string where
  "subject_type_msg = ''subject.type must be '' @ quoted ''user'' @ '' or '' @ quoted ''workload''"

definition subject_id_msg :: string where
  "subject_id_msg = ''subject.id is required''"

definition action_name_msg :: string where
  "action_name_msg = ''action.name must match <domain>:<action>''"

definition resource_type_msg :: string where
  "resource_type_msg = ''resource.type must match <domain>:<entity>''"

definition mismatch_msg :: string where
  "mismatch_msg = ''action/resource domain mismatch''"

lemma schema_msgs_distinct:
  "distinct [subject_type_msg, subject_id_msg, action_name_msg, resource_type_msg, mismatch_msg]"
  by (simp add: subject_type_msg_def subject_id_msg_def action_name_msg_def resource_type_msg_def mismatch_msg_def
      quoted_def)

text \<open>The rules that negate \<open>regex.match\<close> report a name that is there and does not match.\<close>

definition schema_violations :: "gval \<Rightarrow> string list" where
  "schema_violations v =
     (let action = ref v [''action'', ''name'']; type = ref v [''resource'', ''type''] in
      (if valid_subject_type v then [] else [subject_type_msg])
      @ (if holds (ref v [''subject'', ''id'']) then [] else [subject_id_msg])
      @ (if action \<noteq> None \<and> \<not> matches_pair action then [action_name_msg] else [])
      @ (if type \<noteq> None \<and> \<not> matches_pair type then [resource_type_msg] else [])
      @ (if matches_pair action \<and> matches_pair type \<and> before_colon action \<noteq> before_colon type
         then [mismatch_msg] else []))"

section \<open>The library\<close>

text \<open>\<open>aal_rank[a]\<close>, undefined for anything but the three levels.\<close>

definition aal_rank_of :: "gval option \<Rightarrow> nat option" where
  "aal_rank_of d =
     (if d = Some (VStr ''AAL1'') then Some 1 else if d = Some (VStr ''AAL2'') then Some 2
      else if d = Some (VStr ''AAL3'') then Some 3 else None)"

definition aal_at_least :: "gval option \<Rightarrow> gval option \<Rightarrow> bool" where
  "aal_at_least have want =
     (case (aal_rank_of have, aal_rank_of want) of (Some h, Some w) \<Rightarrow> w \<le> h | _ \<Rightarrow> False)"

definition subject_aal :: "gval \<Rightarrow> gval option" where
  "subject_aal v = ref v [''subject'', ''properties'', ''auth_assurance_level'']"

definition rego_step_up :: "string \<Rightarrow> gval" where
  "rego_step_up acr =
     VObj [(''details'', VObj [(''method'', VStr ''mfa''), (''required_acr'', VStr acr)]), (''type'', VStr ''step_up'')]"

definition audit :: "string \<Rightarrow> gval" where
  "audit level = VObj [(''details'', VObj [(''level'', VStr level)]), (''type'', VStr ''log'')]"

definition required_attributes_for :: "gmap \<Rightarrow> gval option \<Rightarrow> gval option" where
  "required_attributes_for data action = index (mget data ''required_attributes'') action"

definition missing_required_violations :: "(gval \<Rightarrow> string) \<Rightarrow> gmap \<Rightarrow> gval \<Rightarrow> string list" where
  "missing_required_violations fq data v =
     (case ref v [''action'', ''name''] of
        None \<Rightarrow> []
      | Some action \<Rightarrow>
          map (\<lambda>attr. ''missing required attribute '' @ fq attr @ '' for action '' @ fq action)
            (filter (\<lambda>attr. \<not> holds (index (ref v [''resource'', ''properties'']) (Some attr)))
              (members (required_attributes_for data (Some action)))))"

section \<open>Profiles\<close>

definition valid_workload_act :: "gval \<Rightarrow> bool" where
  "valid_workload_act act \<longleftrightarrow> ref act [''type''] = Some (VStr ''workload'') \<and> starts_with (ref act [''id'']) ''spiffe://''"

definition profile_violations :: "gval \<Rightarrow> string list" where
  "profile_violations v =
     (let profile = ref v [''context'', ''authz_profile'']; act = ref v [''subject'', ''properties'', ''act''] in
      (if profile = Some (VStr ''edge'') \<and> \<not> holds (ref v [''context'', ''source_ip''])
       then [''edge profile requires context.source_ip''] else [])
      @ (if profile = Some (VStr ''east_west'') \<and> \<not> holds act
         then [''east_west profile requires subject.properties.act (delegation actor)''] else [])
      @ (if profile = Some (VStr ''east_west'') \<and> (case act of Some a \<Rightarrow> \<not> valid_workload_act a | None \<Rightarrow> False)
         then [''east_west delegation actor must be a workload with a spiffe:// id''] else [])
      @ (if profile = Some (VStr ''partner'') \<and> \<not> holds (ref v [''context'', ''partner_id''])
         then [''partner profile requires context.partner_id''] else []))"

section \<open>The decision\<close>

text \<open>A set of messages is listed in OPA's order, each once.\<close>

definition all_violations :: "(gval \<Rightarrow> string) \<Rightarrow> gmap \<Rightarrow> gval \<Rightarrow> string list" where
  "all_violations fq data v =
     sort (remdups (schema_violations v @ missing_required_violations fq data v @ profile_violations v))"

text \<open>
  The verdict of a domain, by its name: \<open>None\<close> if there is no such package, or no verdict; an
  evaluation error if its rules conflict.
\<close>

type_synonym 'e verdicts = "string \<Rightarrow> gval \<Rightarrow> 'e + gval option"

definition domain_verdict :: "'e verdicts \<Rightarrow> gval \<Rightarrow> 'e + gval option" where
  "domain_verdict vd v =
     (case before_colon (ref v [''resource'', ''type'']) of None \<Rightarrow> Inr None | Some d \<Rightarrow> vd d v)"

definition default_decision :: gval where
  "default_decision = VObj [(''allow'', VBool False), (''obligations'', VArr []), (''reason_code'', VStr ''default_deny'')]"

definition invalid_decision :: "string list \<Rightarrow> gval" where
  "invalid_decision vs =
     VObj [(''allow'', VBool False), (''obligations'', VArr [audit ''audit_denied'']),
       (''reason_code'', VStr ''request_invalid''), (''violations'', VArr (map VStr vs))]"

definition unknown_decision :: gval where
  "unknown_decision =
     VObj [(''allow'', VBool False), (''obligations'', VArr [audit ''audit_denied'']), (''reason_code'', VStr ''unknown_domain'')]"

text \<open>A verdict that lacks one of the three fields leaves the default.\<close>

definition verdict_decision :: "gval \<Rightarrow> gval" where
  "verdict_decision w =
     (case (ref w [''allow''], ref w [''obligations''], ref w [''reason_code'']) of
        (Some a, Some obs, Some rc) \<Rightarrow> VObj [(''allow'', a), (''obligations'', obs), (''reason_code'', rc)]
      | _ \<Rightarrow> default_decision)"

definition rego_decision :: "(gval \<Rightarrow> string) \<Rightarrow> 'e verdicts \<Rightarrow> gmap \<Rightarrow> gval \<Rightarrow> 'e + gval" where
  "rego_decision fq vd data v =
     (if all_violations fq data v \<noteq> [] then Inr (invalid_decision (all_violations fq data v))
      else (case domain_verdict vd v of
              Inl e \<Rightarrow> Inl e
            | Inr None \<Rightarrow> Inr unknown_decision
            | Inr (Some w) \<Rightarrow> Inr (if holds (Some w) then verdict_decision w else unknown_decision)))"

text \<open>The prepared query \<open>data.vsp.authz.decision\<close>: one result, of one expression.\<close>

definition rego_query :: "(gval \<Rightarrow> string) \<Rightarrow> 'e verdicts \<Rightarrow> gmap \<Rightarrow> 'e prepared" where
  "rego_query fq vd data v = (case rego_decision fq vd data v of Inl e \<Rightarrow> Inl e | Inr d \<Rightarrow> Inr [[d]])"

section \<open>The fixture's domain\<close>

definition acct_rule :: "bool \<Rightarrow> gval list \<Rightarrow> string \<Rightarrow> gval" where
  "acct_rule allow obs rc = VObj [(''allow'', VBool allow), (''obligations'', VArr obs), (''reason_code'', VStr rc)]"

text \<open>
  Above 5000000 a level below AAL3 is challenged; without a level no rule applies but the default,
  as the negated call has an undefined argument.
\<close>

definition acct_verdict :: "gval \<Rightarrow> gval" where
  "acct_verdict v =
     (let amount = ref v [''resource'', ''properties'', ''amount''];
          settle = ref v [''action'', ''name''] = Some (VStr ''acct:settle'') in
      if settle \<and> (case amount of Some a \<Rightarrow> above a 5000000 | None \<Rightarrow> False)
      then (if aal_at_least (subject_aal v) (Some (VStr ''AAL3''))
            then acct_rule True [audit ''audit_success''] ''acct_settle_ok''
            else if subject_aal v \<noteq> None
            then acct_rule False [rego_step_up ''AAL3'', audit ''audit_denied''] ''step_up_required''
            else acct_rule False [] ''acct_denied'')
      else if settle \<and> (case amount of Some a \<Rightarrow> \<not> above a 5000000 | None \<Rightarrow> False)
              \<and> aal_at_least (subject_aal v) (Some (VStr ''AAL2''))
      then acct_rule True [audit ''audit_success''] ''acct_settle_standard''
      else acct_rule False [] ''acct_denied'')"

text \<open>The framework with the fixture's domain and nothing else.\<close>

definition fixture_domains :: "'e verdicts" where
  "fixture_domains d v = Inr (if d = ''acct'' then Some (acct_verdict v) else None)"

definition fixture_document :: gmap where
  "fixture_document = [(''required_attributes'', VObj [(''acct:settle'', VArr [VStr ''amount'', VStr ''currency''])])]"

end
