(* ===== verification/Rego_Proofs.thy ===== *)
theory Rego_Proofs
  imports Rego Pdp
begin

text \<open>
  The embedded policy on the requests the contract describes: its schema against the Go
  validator, its gates in terms of the request, and the decisions of a PDP that runs it.
\<close>

section \<open>The naming rule: regular expression and hand-written check\<close>

lemma not_name_colon [simp]: "\<not> name_char CHR '':''"
  by (simp add: name_char_def lower_def is_digit_def)

lemma name_token_iff: "name_token s \<longleftrightarrow> (\<exists>c cs. s = c # cs \<and> lower c \<and> list_all name_char cs)"
  by (cases s) (simp_all add: name_token_def)

lemma colon_pair_iff: "colon_pair s \<longleftrightarrow> is_colon_pair s"
  unfolding is_colon_pair_iff
proof
  assume "colon_pair s"
  then obtain c cs d ds where s: "s = c # cs" "lower c" "dropWhile name_char cs = CHR '':'' # d # ds"
    and t: "lower d" "list_all name_char ds"
    by (auto simp: colon_pair_def split: list.splits)
  have "cs = takeWhile name_char cs @ CHR '':'' # d # ds" using s(3) takeWhile_dropWhile_id [of name_char cs] by simp
  then have "named s (c # takeWhile name_char cs) (d # ds)"
    using s t by (auto simp: named_def name_token_iff list_all_iff dest: set_takeWhileD)
  then show "\<exists>d x. named s d x" by blast
next
  assume "\<exists>d x. named s d x"
  then obtain c t d ds where n: "s = (c # t) @ CHR '':'' # d # ds" "lower c" "list_all name_char t"
    "lower d" "list_all name_char ds"
    by (auto simp: named_def name_token_iff)
  then have "dropWhile name_char (t @ CHR '':'' # d # ds) = CHR '':'' # d # ds"
    by (simp add: dropWhile_append list_all_iff)
  then show "colon_pair s" using n by (simp add: colon_pair_def)
qed

lemma before_colon_named: "named s d x \<Longrightarrow> before_colon (Some (VStr s)) = Some d"
  using name_token_no_colon by (auto simp: before_colon_def named_def split_byte_append)

section \<open>References into the input\<close>

lemma resource_properties [gmap_simps]:
  "mget (resource_map e) ''properties'' = (if entries (res_props e) = [] then None else Some (VObj (entries (res_props e))))"
  by (simp add: resource_map_def mget_put mget_mput mget_Nil del: mput.simps)

lemma input_ref:
  "ref (VObj (input_map r)) [''subject'', ''type''] = Some (VStr (subj_type (req_subject r)))"
  "ref (VObj (input_map r)) [''subject'', ''id''] = Some (VStr (subj_id (req_subject r)))"
  "ref (VObj (input_map r)) [''action'', ''name''] = Some (VStr (act_name (req_action r)))"
  "ref (VObj (input_map r)) [''resource'', ''type''] = Some (VStr (res_type (req_resource r)))"
  "ref (VObj (input_map r)) [''context'', k] = mget (entries (req_context r)) k"
  "ref (VObj (input_map r)) [''subject'', ''properties'', k] = mget (entries (subj_props (req_subject r))) k"
  "ref (VObj (input_map r)) [''resource'', ''properties'', k] = mget (entries (res_props (req_resource r))) k"
  "index (ref (VObj (input_map r)) [''resource'', ''properties'']) (Some (VStr k)) = mget (entries (res_props (req_resource r))) k"
  by (simp_all add: gmap_simps mget_Nil index_def split: option.split)

lemma ref_one: "ref w [k] = Option.bind (as_map w) (\<lambda>m. mget m k)"
  by (cases w) (simp_all split: option.split)

section \<open>The schema against the validator\<close>

lemma set_unless [simp]:
  "x \<in> set (if p then [] else [m]) \<longleftrightarrow> \<not> p \<and> x = m" "x \<in> set (if p then [m] else []) \<longleftrightarrow> p \<and> x = m"
  by auto

lemma schema_reports:
  fixes v :: gval
  defines "sv \<equiv> set (schema_violations v)"
  shows "subject_type_msg \<in> sv \<longleftrightarrow> \<not> valid_subject_type v"
    and "subject_id_msg \<in> sv \<longleftrightarrow> \<not> holds (ref v [''subject'', ''id''])"
    and "action_name_msg \<in> sv \<longleftrightarrow>
           ref v [''action'', ''name''] \<noteq> None \<and> \<not> matches_pair (ref v [''action'', ''name''])"
    and "resource_type_msg \<in> sv \<longleftrightarrow>
           ref v [''resource'', ''type''] \<noteq> None \<and> \<not> matches_pair (ref v [''resource'', ''type''])"
    and "mismatch_msg \<in> sv \<longleftrightarrow>
           matches_pair (ref v [''action'', ''name'']) \<and> matches_pair (ref v [''resource'', ''type''])
           \<and> before_colon (ref v [''action'', ''name'']) \<noteq> before_colon (ref v [''resource'', ''type''])"
proof -
  have d: "subject_type_msg \<noteq> subject_id_msg" "subject_type_msg \<noteq> action_name_msg"
    "subject_type_msg \<noteq> resource_type_msg" "subject_type_msg \<noteq> mismatch_msg"
    "subject_id_msg \<noteq> action_name_msg" "subject_id_msg \<noteq> resource_type_msg" "subject_id_msg \<noteq> mismatch_msg"
    "action_name_msg \<noteq> resource_type_msg" "action_name_msg \<noteq> mismatch_msg" "resource_type_msg \<noteq> mismatch_msg"
    using schema_msgs_distinct by simp_all
  note m = sv_def schema_violations_def Let_def set_append Un_iff set_unless d d [symmetric] simp_thms
  show "subject_type_msg \<in> sv \<longleftrightarrow> \<not> valid_subject_type v" by (simp only: m)
  show "subject_id_msg \<in> sv \<longleftrightarrow> \<not> holds (ref v [''subject'', ''id''])" by (simp only: m)
  show "action_name_msg \<in> sv \<longleftrightarrow>
           ref v [''action'', ''name''] \<noteq> None \<and> \<not> matches_pair (ref v [''action'', ''name''])"
    by (simp only: m)
  show "resource_type_msg \<in> sv \<longleftrightarrow>
           ref v [''resource'', ''type''] \<noteq> None \<and> \<not> matches_pair (ref v [''resource'', ''type''])"
    by (simp only: m)
  show "mismatch_msg \<in> sv \<longleftrightarrow>
           matches_pair (ref v [''action'', ''name'']) \<and> matches_pair (ref v [''resource'', ''type''])
           \<and> before_colon (ref v [''action'', ''name'']) \<noteq> before_colon (ref v [''resource'', ''type''])"
    by (simp only: m)
qed

lemma domains_differ:
  "(\<exists>ad rd. ad \<noteq> rd \<and> (\<exists>x. named a ad x) \<and> (\<exists>x. named t rd x)) \<longleftrightarrow>
     colon_pair a \<and> colon_pair t \<and> before_colon (Some (VStr a)) \<noteq> before_colon (Some (VStr t))"
proof (cases "colon_pair a \<and> colon_pair t")
  case True
  then obtain d x e y where n: "named a d x" "named t e y" unfolding colon_pair_iff is_colon_pair_iff by blast
  then show ?thesis using True n [THEN before_colon_named] named_unique by (metis option.inject)
next
  case False
  then show ?thesis unfolding colon_pair_iff is_colon_pair_iff by blast
qed

text \<open>
  C11.  Defence in depth: on every contract request the policy's schema reports exactly the
  naming issues that \<open>Validate\<close> reports, rule by rule, although one is a regular expression and
  the other a hand-written scan; but its rule for the subject id never fires, since an empty id
  is defined.
\<close>

theorem schema_agrees:
  "let sv = set (schema_violations (VObj (input_map r))); xs = set (all_issues r) in
     (subject_type_msg \<in> sv \<longleftrightarrow> SubjectTypeRequired \<in> xs \<or> (\<exists>t. SubjectTypeBad t \<in> xs))
   \<and> (action_name_msg \<in> sv \<longleftrightarrow> ActionNameRequired \<in> xs \<or> (\<exists>a. ActionNameBad a \<in> xs))
   \<and> (resource_type_msg \<in> sv \<longleftrightarrow> ResourceTypeRequired \<in> xs \<or> (\<exists>t. ResourceTypeBad t \<in> xs))
   \<and> (mismatch_msg \<in> sv \<longleftrightarrow> (\<exists>a ad t rd. DomainMismatch a ad t rd \<in> xs))
   \<and> subject_id_msg \<notin> sv"
proof -
  let ?a = "act_name (req_action r)" and ?t = "res_type (req_resource r)"
  have bad: "(\<nexists>d x. named s d x) \<longleftrightarrow> \<not> colon_pair s" for s
    by (simp add: colon_pair_iff is_colon_pair_iff)
  have empty: "\<not> colon_pair []" by (simp add: colon_pair_def)
  have "(\<exists>a ad t rd. breaks r (DomainMismatch a ad t rd)) \<longleftrightarrow>
      colon_pair ?a \<and> colon_pair ?t \<and> before_colon (Some (VStr ?a)) \<noteq> before_colon (Some (VStr ?t))"
    unfolding domains_differ [symmetric] breaks.simps by blast
  moreover have "valid_subject_type (VObj (input_map r)) \<longleftrightarrow>
      subj_type (req_subject r) = SubjectTypeUser \<or> subj_type (req_subject r) = SubjectTypeWorkload"
    by (simp only: valid_subject_type_def input_ref SubjectTypeUser_def SubjectTypeWorkload_def option.inject gval.inject)
  moreover have "matches_pair (Some (VStr s)) = colon_pair s" "holds (Some (VStr s))" for s
    by (simp_all add: matches_pair_def holds_def)
  moreover have "breaks r SubjectTypeRequired \<or> (\<exists>t. breaks r (SubjectTypeBad t)) \<longleftrightarrow>
      \<not> (subj_type (req_subject r) = SubjectTypeUser \<or> subj_type (req_subject r) = SubjectTypeWorkload)"
    using consts_nonempty(1,2) by (cases "subj_type (req_subject r) = []") (simp_all add: eq_commute)
  moreover have "breaks r ActionNameRequired \<or> (\<exists>a. breaks r (ActionNameBad a)) \<longleftrightarrow> \<not> colon_pair ?a"
    "breaks r ResourceTypeRequired \<or> (\<exists>t. breaks r (ResourceTypeBad t)) \<longleftrightarrow> \<not> colon_pair ?t"
    using bad [of ?a] bad [of ?t] empty unfolding breaks.simps by metis+
  ultimately show ?thesis
    unfolding Let_def schema_reports set_all_issues input_ref by (simp only: option.distinct) blast
qed

lemma profiles_differ:
  "ProfileEdge \<noteq> ProfileEastWest" "ProfileEdge \<noteq> ProfilePartner" "ProfileEastWest \<noteq> ProfilePartner"
  by (simp_all add: profile_defs)

section \<open>The gates on contract requests\<close>

text \<open>The attributes the data document requires for an action.\<close>

definition required_list :: "gmap \<Rightarrow> string \<Rightarrow> gval list" where
  "required_list data action = members (required_attributes_for data (Some (VStr action)))"

definition supplies :: "request \<Rightarrow> gval \<Rightarrow> bool" where
  "supplies r attr \<longleftrightarrow> (\<exists>k. attr = VStr k \<and> holds (mget (entries (res_props (req_resource r))) k))"

text \<open>Who is on the other side of the hop, by profile.\<close>

definition hop_identified :: "request \<Rightarrow> bool" where
  "hop_identified r \<longleftrightarrow>
     (authz_profile r = ProfileEdge \<longrightarrow> holds (mget (entries (req_context r)) ''source_ip''))
   \<and> (authz_profile r = ProfileEastWest \<longrightarrow>
        (\<exists>act i. act_subject (req_subject r) = Some act \<and> get_str act ''type'' = Some SubjectTypeWorkload
               \<and> get_str act ''id'' = Some i \<and> has_prefix i ''spiffe://''))
   \<and> (authz_profile r = ProfilePartner \<longrightarrow> holds (mget (entries (req_context r)) ''partner_id''))"

definition gates_open :: "gmap \<Rightarrow> request \<Rightarrow> bool" where
  "gates_open data r \<longleftrightarrow>
     (\<forall>attr \<in> set (required_list data (act_name (req_action r))). supplies r attr) \<and> hop_identified r"

lemma supplies_iff:
  "holds (index (ref (VObj (input_map r)) [''resource'', ''properties'']) (Some attr)) \<longleftrightarrow> supplies r attr"
proof (cases attr)
  case (VStr k)
  then show ?thesis using input_ref(8) [of r k] by (simp add: supplies_def)
next
  case (VNum f)
  then show ?thesis by (simp add: index_def supplies_def holds_def gmap_simps split: option.split)
qed (simp_all add: index_def supplies_def holds_def gmap_simps split: option.split)

lemma missing_required_iff:
  "missing_required_violations fq data (VObj (input_map r)) = [] \<longleftrightarrow>
     (\<forall>attr \<in> set (required_list data (act_name (req_action r))). supplies r attr)"
  by (simp add: missing_required_violations_def input_ref supplies_iff required_list_def filter_empty_conv
      del: ref.simps)

lemma profile_ref:
  assumes "p \<noteq> []"
  shows "ref (VObj (input_map r)) [''context'', ''authz_profile''] = Some (VStr p) \<longleftrightarrow> authz_profile r = p"
  unfolding input_ref
  using assms by (cases "mget (entries (req_context r)) ''authz_profile''")
    (auto simp: authz_profile_def get_str_def as_str_iff str_or_empty_def split: option.splits)

lemma get_str_iff: "get_str m k = Some s \<longleftrightarrow> mget m k = Some (VStr s)"
  by (auto simp: get_str_def bind_eq_Some_conv as_str_iff)

lemma get_map_iff: "get_map m k = Some g \<longleftrightarrow> mget m k = Some (VObj g)"
  by (auto simp: get_map_def bind_eq_Some_conv as_map_iff)

lemma starts_with_iff: "starts_with d p \<longleftrightarrow> (\<exists>s. d = Some (VStr s) \<and> has_prefix s p)"
  by (auto simp: starts_with_def split: option.splits gval.splits)

lemma valid_workload_act_iff:
  "valid_workload_act a \<longleftrightarrow> (\<exists>m i. a = VObj m \<and> mget m ''type'' = Some (VStr ''workload'')
      \<and> mget m ''id'' = Some (VStr i) \<and> has_prefix i ''spiffe://'')"
  by (cases a) (auto simp: valid_workload_act_def starts_with_iff split: option.splits)

lemma valid_act_iff:
  "(\<exists>a. mget (entries (subj_props s)) ''act'' = Some a \<and> valid_workload_act a) \<longleftrightarrow>
     (\<exists>act i. act_subject s = Some act \<and> get_str act ''type'' = Some SubjectTypeWorkload
            \<and> get_str act ''id'' = Some i \<and> has_prefix i ''spiffe://'')"
  by (auto simp: valid_workload_act_iff act_subject_def get_map_iff get_str_iff SubjectTypeWorkload_def)

lemma profile_violations_iff:
  "profile_violations (VObj (input_map r)) = [] \<longleftrightarrow> hop_identified r"
proof -
  have p: "ref (VObj (input_map r)) [''context'', ''authz_profile''] = Some (VStr ''edge'') \<longleftrightarrow> authz_profile r = ProfileEdge"
    "ref (VObj (input_map r)) [''context'', ''authz_profile''] = Some (VStr ''east_west'') \<longleftrightarrow> authz_profile r = ProfileEastWest"
    "ref (VObj (input_map r)) [''context'', ''authz_profile''] = Some (VStr ''partner'') \<longleftrightarrow> authz_profile r = ProfilePartner"
    by (simp_all add: profile_ref profile_defs del: ref.simps)
  have act: "(\<exists>a. d = Some a \<and> valid_workload_act a) \<longleftrightarrow>
      holds d \<and> \<not> (case d of Some a \<Rightarrow> \<not> valid_workload_act a | None \<Rightarrow> False)" for d
    by (auto simp: holds_def valid_workload_act_def split: option.splits)
  have nil: "(if c then [x] else ([] :: string list)) = [] \<longleftrightarrow> \<not> c" for c x by simp
  show ?thesis
    unfolding profile_violations_def Let_def p hop_identified_def valid_act_iff [symmetric] act append_is_Nil_conv nil
    unfolding input_ref by blast
qed

lemma all_violations_Nil:
  "all_violations fq data v = [] \<longleftrightarrow>
     schema_violations v = [] \<and> missing_required_violations fq data v = [] \<and> profile_violations v = []"
  by (simp only: all_violations_def set_empty [symmetric] set_sort set_remdups set_append Un_empty)

lemma gates_on_contract:
  assumes "conforms r"
  shows "all_violations fq data (VObj (input_map r)) = [] \<longleftrightarrow> gates_open data r"
proof -
  have "set (schema_violations (VObj (input_map r)))
      \<subseteq> {subject_type_msg, subject_id_msg, action_name_msg, resource_type_msg, mismatch_msg}"
    by (auto simp: schema_violations_def Let_def split: if_splits)
  moreover have "set (schema_violations (VObj (input_map r))) \<inter>
      {subject_type_msg, subject_id_msg, action_name_msg, resource_type_msg, mismatch_msg} = {}"
    using schema_agrees [of r] assms unfolding Let_def all_issues_Nil [symmetric] by simp
  ultimately have "schema_violations (VObj (input_map r)) = []"
    by (metis inf.absorb_iff1 set_empty)
  then show ?thesis
    by (simp add: all_violations_Nil missing_required_iff profile_violations_iff gates_open_def)
qed

section \<open>What a PDP with the embedded policy decides\<close>

text \<open>A verdict that lets the request pass: \<open>allow\<close> is true and the two other fields are there.\<close>

definition grants_verdict :: "gmap \<Rightarrow> bool" where
  "grants_verdict w \<longleftrightarrow> mget w ''allow'' = Some (VBool True) \<and> mget w ''obligations'' \<noteq> None \<and> mget w ''reason_code'' \<noteq> None"

definition complete_verdict :: "gmap \<Rightarrow> bool" where
  "complete_verdict w \<longleftrightarrow> (\<forall>k \<in> {''allow'', ''obligations'', ''reason_code''}. mget w k \<noteq> None)"

lemma domain_verdict_named:
  assumes "named (res_type (req_resource r)) d x"
  shows "domain_verdict vd (VObj (input_map r)) = vd d (VObj (input_map r))"
  by (simp add: domain_verdict_def input_ref before_colon_named [OF assms] del: ref.simps)

lemma verdict_decision_obj:
  "verdict_decision (VObj w) =
     (if complete_verdict w
      then VObj [(''allow'', the (mget w ''allow'')), (''obligations'', the (mget w ''obligations'')),
                 (''reason_code'', the (mget w ''reason_code''))]
      else default_decision)"
  by (auto simp: verdict_decision_def complete_verdict_def ref_one split: option.splits)

lemma verdict_decision_other: "as_map w = None \<Longrightarrow> verdict_decision w = default_decision"
  by (cases w) (simp_all add: verdict_decision_def)

lemma rego_query_grants:
  "opa_grants (rego_query fq vd data) v \<longleftrightarrow>
     all_violations fq data v = [] \<and> (\<exists>w. domain_verdict vd v = Inr (Some (VObj w)) \<and> grants_verdict w)"
proof -
  have inv: "mget [(''allow'', VBool False), x, y, z] ''allow'' \<noteq> Some (VBool True)"
    "mget [(''allow'', VBool False), x, y] ''allow'' \<noteq> Some (VBool True)" for x y z
    by (simp_all add: mget_def)
  have obj: "(\<exists>m. verdict_decision w = VObj m \<and> mget m ''allow'' = Some (VBool True))
      \<longleftrightarrow> (\<exists>m. w = VObj m \<and> grants_verdict m)" for w
  proof (cases w)
    case (VObj m)
    then show ?thesis
      using inv by (auto simp: verdict_decision_obj complete_verdict_def grants_verdict_def default_decision_def mget_def)
  qed (use inv in \<open>simp_all add: verdict_decision_other default_decision_def\<close>)
  have q: "opa_grants (rego_query fq vd data) v \<longleftrightarrow>
      (\<exists>m. rego_decision fq vd data v = Inr (VObj m) \<and> mget m ''allow'' = Some (VBool True))"
    by (auto simp: opa_grants_def rego_query_def split: sum.splits gval.splits)
  show ?thesis
  proof (cases "all_violations fq data v = []")
    case False
    then show ?thesis using inv by (simp add: q rego_decision_def invalid_decision_def)
  next
    case True
    show ?thesis
    proof (cases "domain_verdict vd v")
      case (Inr o')
      then show ?thesis
        using True inv obj by (cases o') (auto simp: q rego_decision_def unknown_decision_def holds_def)
    qed (simp add: q rego_decision_def True)
  qed
qed

text \<open>The log obligation of a denial.\<close>

definition audit_denied :: obligation where
  "audit_denied = \<lparr>ob_type = ''log'', ob_details = Some [(''level'', VStr ''audit_denied'')]\<rparr>"

lemma parse_decision_fields:
  "parse_decision [(''allow'', a), (''obligations'', obs), (''reason_code'', rc)] =
     \<lparr>ed_allow = (a = VBool True),
      ed_obligations = (case obs of VArr vs \<Rightarrow> List.map_filter as_map vs | _ \<Rightarrow> []),
      ed_reason = (case rc of VStr s \<Rightarrow> s | _ \<Rightarrow> [])\<rparr>"
  "parse_decision [(''allow'', a), (''obligations'', obs), (''reason_code'', rc), (''violations'', vs)] =
     \<lparr>ed_allow = (a = VBool True),
      ed_obligations = (case obs of VArr vs \<Rightarrow> List.map_filter as_map vs | _ \<Rightarrow> []),
      ed_reason = (case rc of VStr s \<Rightarrow> s | _ \<Rightarrow> [])\<rparr>"
  by (cases a; cases obs; cases rc; auto simp: parse_decision_def get_defs mget_def)+

lemma log_obligations: "to_obligations (List.map_filter as_map [audit ''audit_denied'']) = [audit_denied]"
  by (simp add: to_obligations_def to_obligation_def audit_def audit_denied_def List.map_filter_def get_defs mget_def)

lemma eval_rego: "eval_opa (rego_query fq vd data) v =
   (case rego_decision fq vd data v of
      Inl e \<Rightarrow> Inl (EvalFailed e)
    | Inr d \<Rightarrow> (case as_map d of None \<Rightarrow> Inl (BadDocument d) | Some val \<Rightarrow> Inr (parse_decision val)))"
  by (simp add: eval_opa_def rego_query_def split: sum.split)

text \<open>The value of a binary64 number, and what OPA's comparison says of it.\<close>

fun float_value :: "float64 \<Rightarrow> real" where
  "float_value (F64 neg m e) = (if neg then - 1 else 1) * real m * 2 powi e"

lemma float_above_value: "float_above f n \<longleftrightarrow> real n < float_value f"
proof (cases f)
  case (F64 neg m e)
  have pos: "0 \<le> real m * 2 powi e" by (simp add: zero_le_power_int)
  have "n < m * 2 ^ nat e \<longleftrightarrow> real n < real m * 2 powi e" if "0 \<le> e"
  proof -
    have "real (m * 2 ^ nat e) = real m * 2 powi e" using that by (simp add: power_int_def)
    then show ?thesis by (metis of_nat_less_iff)
  qed
  moreover have "n * 2 ^ nat (- e) < m \<longleftrightarrow> real n < real m * 2 powi e" if "\<not> 0 \<le> e"
  proof -
    have "real m * 2 powi e = real m / 2 ^ nat (- e)" using that by (simp add: power_int_def field_simps)
    then have "real n < real m * 2 powi e \<longleftrightarrow> real n * 2 ^ nat (- e) < real m" by (simp add: pos_less_divide_eq)
    also have "\<dots> \<longleftrightarrow> real (n * 2 ^ nat (- e)) < real m" by simp
    finally show ?thesis by (metis of_nat_less_iff)
  qed
  moreover have "\<not> real n < - (real m * 2 powi e)" using pos by linarith
  ultimately show ?thesis using F64 by auto
qed

section \<open>The fixture's domain on contract requests\<close>

lemma assurance_prop:
  assumes "a \<noteq> []"
  shows "mget (entries (subj_props (req_subject r))) ''auth_assurance_level'' = Some (VStr a)
      \<longleftrightarrow> auth_assurance_level (req_subject r) = a"
  using assms by (cases "mget (entries (subj_props (req_subject r))) ''auth_assurance_level''")
    (auto simp: auth_assurance_level_def get_str_def as_str_iff str_or_empty_def split: option.splits)

lemma aal_at_least_props:
  "aal_at_least (subject_aal (VObj (input_map r))) (Some (VStr ''AAL3'')) \<longleftrightarrow> auth_assurance_level (req_subject r) = ''AAL3''"
  "aal_at_least (subject_aal (VObj (input_map r))) (Some (VStr ''AAL2'')) \<longleftrightarrow>
     auth_assurance_level (req_subject r) = ''AAL2'' \<or> auth_assurance_level (req_subject r) = ''AAL3''"
proof -
  from assurance_prop show
    "aal_at_least (subject_aal (VObj (input_map r))) (Some (VStr ''AAL3'')) \<longleftrightarrow> auth_assurance_level (req_subject r) = ''AAL3''"
    "aal_at_least (subject_aal (VObj (input_map r))) (Some (VStr ''AAL2'')) \<longleftrightarrow>
     auth_assurance_level (req_subject r) = ''AAL2'' \<or> auth_assurance_level (req_subject r) = ''AAL3''"
    unfolding subject_aal_def input_ref aal_at_least_def aal_rank_of_def by auto
qed

lemma acct_rule_parse:
  "parse_decision (the (as_map (acct_rule b obs rc))) =
     \<lparr>ed_allow = b, ed_obligations = List.map_filter as_map obs, ed_reason = rc\<rparr>"
  by (simp add: acct_rule_def parse_decision_fields)

lemma acct_rule_decision: "verdict_decision (acct_rule b obs rc) = acct_rule b obs rc" "holds (Some (acct_rule b obs rc))"
  by (simp_all add: acct_rule_def verdict_decision_def mget_def holds_def)

lemma subject_aal_input:
  "subject_aal (VObj (input_map r)) = mget (entries (subj_props (req_subject r))) ''auth_assurance_level''"
  by (simp add: subject_aal_def input_ref del: ref.simps)

text \<open>The rule on the level, if the subject has one, and the amount.\<close>

definition settle_rule :: "bool \<Rightarrow> string \<Rightarrow> real \<Rightarrow> gval" where
  "settle_rule present aal amount =
     (if 5000000 < amount
      then if aal = ''AAL3'' then acct_rule True [audit ''audit_success''] ''acct_settle_ok''
           else if present then acct_rule False [rego_step_up ''AAL3'', audit ''audit_denied''] ''step_up_required''
           else acct_rule False [] ''acct_denied''
      else if aal = ''AAL2'' \<or> aal = ''AAL3'' then acct_rule True [audit ''audit_success''] ''acct_settle_standard''
      else acct_rule False [] ''acct_denied'')"

lemma acct_verdict_settle:
  assumes "act_name (req_action r) = ''acct:settle''"
    and "mget (entries (res_props (req_resource r))) ''amount'' = Some (VNum f)"
  shows "acct_verdict (VObj (input_map r)) =
     settle_rule (mget (entries (subj_props (req_subject r))) ''auth_assurance_level'' \<noteq> None)
       (auth_assurance_level (req_subject r)) (float_value f)"
  unfolding acct_verdict_def Let_def input_ref aal_at_least_props
  unfolding subject_aal_input assms settle_rule_def
  using float_above_value [of f 5000000] by simp

definition settle_request :: "gval \<Rightarrow> string \<Rightarrow> request" where
  "settle_request amount aal = \<lparr>
     req_subject = \<lparr>subj_type = ''user'', subj_id = ''u-1'', subj_props = Some [(''auth_assurance_level'', VStr aal)]\<rparr>,
     req_action = \<lparr>act_name = ''acct:settle'', act_props = None\<rparr>,
     req_resource = \<lparr>res_type = ''acct:wallet'', res_id = ''w-1'',
       res_props = Some [(''amount'', amount), (''currency'', VStr ''VND'')]\<rparr>,
     req_context = Some [(''authz_profile'', VStr ''edge''), (''correlation_id'', VStr ''c-1''), (''source_ip'', VStr ''10.0.0.7'')]\<rparr>"

text \<open>Nine million, as a binary64 number: \<open>9000000 * 2 ^ 29 = m\<close> with a 53-bit significand.\<close>

definition nine_million :: float64 where
  "nine_million = F64 False (9000000 * 2 ^ 29) (- 29)"

lemma settle_request_fields:
  "act_name (req_action (settle_request a aal)) = ''acct:settle''"
  "auth_assurance_level (req_subject (settle_request a aal)) = aal"
  "mget (entries (res_props (req_resource (settle_request a aal)))) ''amount'' = Some a"
  "holds (mget (entries (res_props (req_resource (settle_request a aal)))) ''currency'')"
  "named (res_type (req_resource (settle_request a aal))) ''acct'' ''wallet''"
  by (simp_all add: settle_request_def mget_def holds_def auth_assurance_level_def get_str_def named_def name_token_def
      lower_def name_char_def)

lemma settle_request_level:
  "mget (entries (subj_props (req_subject (settle_request a aal)))) ''auth_assurance_level'' = Some (VStr aal)"
  by (simp add: settle_request_def mget_def)

lemma nine_million_value: "float_value nine_million = 9000000"
  by (simp add: nine_million_def power_int_def field_simps)

lemma settle_request_ok:
  assumes "ascii aal"
  shows "fits (settle_request (VNum nine_million) aal)" "conforms (settle_request (VNum nine_million) aal)"
    "hop_identified (settle_request (VNum nine_million) aal)"
proof -
  have "f_wf nine_million" by (simp add: f_wf_def f_canon_def nine_million_def)
  then show "fits (settle_request (VNum nine_million) aal)"
    using ascii_valid [OF assms]
    by (auto simp: fits_def wf_request_def settle_request_def smap_wf_def ascii_def request_depth_def max_depth_def
        intro!: ascii_valid)
  have "named ''acct:settle'' ''acct'' ''settle''" "named ''acct:wallet'' ''acct'' ''wallet''"
    by (simp_all add: named_def name_token_def lower_def name_char_def)
  then show "conforms (settle_request (VNum nine_million) aal)"
    by (auto simp: conforms_def settle_request_def authz_profile_def get_str_def mget_def authzen_consts)
  show "hop_identified (settle_request (VNum nine_million) aal)"
    using profiles_differ
    by (auto simp: hop_identified_def authz_profile_def settle_request_def get_str_def mget_def holds_def profile_defs)
qed

lemma settle_gates: "hop_identified r \<Longrightarrow> act_name (req_action r) = ''acct:settle'' \<Longrightarrow>
  mget (entries (res_props (req_resource r))) ''amount'' = Some (VNum f) \<Longrightarrow>
  holds (mget (entries (res_props (req_resource r))) ''currency'') \<Longrightarrow> gates_open fixture_document r"
  by (simp add: gates_open_def supplies_def required_list_def required_attributes_for_def fixture_document_def
      index_def mget_def holds_def)

lemma ascii_AAL2: "ascii ''AAL2''"
  by (simp add: ascii_def)

section \<open>Properties\<close>

lemma embedded_policy_grounds:
  assumes "fits r"
  shows "(\<exists>resp. evaluate (eval_opa (rego_query fq vd data)) i now r = Inr resp \<and> decision resp) \<longleftrightarrow>
     conforms r \<and> gates_open data r
     \<and> (\<exists>d x w. named (res_type (req_resource r)) d x \<and> vd d (VObj (input_map r)) = Inr (Some (VObj w))
              \<and> grants_verdict w)"
proof (cases "conforms r")
  case True
  then obtain d x where n: "named (res_type (req_resource r)) d x" by (auto simp: conforms_def)
  then have "(\<exists>d x w. named (res_type (req_resource r)) d x \<and> vd d (VObj (input_map r)) = Inr (Some (VObj w))
              \<and> grants_verdict w)
      \<longleftrightarrow> (\<exists>w. vd d (VObj (input_map r)) = Inr (Some (VObj w)) \<and> grants_verdict w)"
    using named_unique by metis
  then show ?thesis
    using opa.pdp_allows_iff [OF assms, of "rego_query fq vd data" i now] True
    by (simp add: rego_query_grants gates_on_contract domain_verdict_named [OF n])
qed (use opa.pdp_allows_iff [OF assms] in simp)

text \<open>
  C10.  A PDP running the embedded policy allows a request exactly if it satisfies the contract,
  supplies every attribute the data document requires of its action, identifies the other side
  of its hop as its profile demands, and the policy of its resource's domain grants it.
\<close>

theorem embedded_policy_allows:
  assumes "fits r"
  shows "(\<exists>resp. evaluate (eval_opa (rego_query fq vd data)) i now r = Inr resp \<and> decision resp) \<longleftrightarrow>
     conforms r \<and> gates_open data r
     \<and> (\<exists>d x w. named (res_type (req_resource r)) d x \<and> vd d (VObj (input_map r)) = Inr (Some (VObj w))
              \<and> grants_verdict w)"
  by (rule embedded_policy_grounds [OF assms])

lemma embedded_policy_allows_witness:
  "\<exists>resp. evaluate (eval_opa (rego_query (\<lambda>_. []) (fixture_domains :: unit verdicts) fixture_document)) sample_issuer 0
      (settle_request (VNum nine_million) ''AAL3'') = Inr resp \<and> decision resp"
proof -
  let ?r = "settle_request (VNum nine_million) ''AAL3''"
  have ok: "fits ?r" "conforms ?r" "hop_identified ?r" by (simp_all add: settle_request_ok ascii_def)
  have "acct_verdict (VObj (input_map ?r)) =
      settle_rule (mget (entries (subj_props (req_subject ?r))) ''auth_assurance_level'' \<noteq> None) ''AAL3'' 9000000"
    using acct_verdict_settle [OF settle_request_fields(1,3)] by (simp add: settle_request_fields nine_million_value)
  then have "\<exists>d x w. named (res_type (req_resource ?r)) d x
      \<and> (fixture_domains :: unit verdicts) d (VObj (input_map ?r)) = Inr (Some (VObj w)) \<and> grants_verdict w"
    using settle_request_fields(5)
    by (intro exI [of _ "''acct''"] exI [of _ "''wallet''"])
      (simp add: fixture_domains_def settle_rule_def acct_rule_def grants_verdict_def mget_def)
  then show ?thesis
    using embedded_policy_allows [OF ok(1)] ok(2) settle_gates [OF ok(3) settle_request_fields(1,3,4)] by blast
qed

text \<open>
  C12.  Why the embedded policy refuses: a request that fails a gate is \<open>request_invalid\<close>, one of a
  domain without a policy \<open>unknown_domain\<close>, both with an audit obligation; an incomplete verdict is
  \<open>default_deny\<close>; and a complete verdict's reason and obligations reach the response unchanged.
\<close>

theorem embedded_policy_reasons:
  assumes "fits r" and "conforms r" and "named (res_type (req_resource r)) d x"
    and "evaluate (eval_opa (rego_query fq vd data)) i now r = Inr resp"
  shows "\<exists>c. resp_context resp = Some c
   \<and> (\<not> gates_open data r \<longrightarrow>
        \<not> decision resp \<and> rc_reason c = ''request_invalid'' \<and> rc_obligations c = [audit_denied])
   \<and> (gates_open data r \<and> vd d (VObj (input_map r)) = Inr None \<longrightarrow>
        \<not> decision resp \<and> rc_reason c = ''unknown_domain'' \<and> rc_obligations c = [audit_denied])
   \<and> (\<forall>w. gates_open data r \<and> vd d (VObj (input_map r)) = Inr (Some (VObj w)) \<longrightarrow>
        (if complete_verdict w
         then (decision resp \<longleftrightarrow> mget w ''allow'' = Some (VBool True))
            \<and> rc_reason c = str_or_empty (get_str w ''reason_code'')
            \<and> rc_obligations c = to_obligations (case get_arr w ''obligations'' of
                Some vs \<Rightarrow> List.map_filter as_map vs | None \<Rightarrow> [])
         else \<not> decision resp \<and> rc_reason c = ''default_deny'' \<and> rc_obligations c = []))"
proof -
  let ?v = "VObj (input_map r)"
  obtain dec where e: "eval_opa (rego_query fq vd data) ?v = Inr dec" and r: "resp = assemble i now r dec"
    using assms(1,2,4) by (auto simp: evaluate_fits split: sum.splits)
  have inv: "rego_decision fq vd data ?v = Inr (invalid_decision (all_violations fq data ?v))" if "\<not> gates_open data r"
    using that by (simp add: rego_decision_def gates_on_contract assms(2))
  have open_: "rego_decision fq vd data ?v =
      (case vd d ?v of Inl e \<Rightarrow> Inl e | Inr None \<Rightarrow> Inr unknown_decision
       | Inr (Some w) \<Rightarrow> Inr (if holds (Some w) then verdict_decision w else unknown_decision))" if "gates_open data r"
    using that by (simp add: rego_decision_def gates_on_contract assms(2) domain_verdict_named [OF assms(3)])
  have obs: "(case the (mget w ''obligations'') of VArr vs \<Rightarrow> List.map_filter as_map vs | _ \<Rightarrow> []) =
      (case get_arr w ''obligations'' of Some vs \<Rightarrow> List.map_filter as_map vs | None \<Rightarrow> [])"
    "(case the (mget w ''reason_code'') of VStr s \<Rightarrow> s | _ \<Rightarrow> []) = str_or_empty (get_str w ''reason_code'')"
    "the (mget w ''allow'') = VBool True \<longleftrightarrow> mget w ''allow'' = Some (VBool True)"
    if "complete_verdict w" for w
    using that by (auto simp: complete_verdict_def get_defs split: gval.splits)
  have dec: "dec = \<lparr>ed_allow = False, ed_obligations = List.map_filter as_map [audit ''audit_denied''], ed_reason = ''request_invalid''\<rparr>"
    if "\<not> gates_open data r"
    using e that by (simp add: eval_rego inv invalid_decision_def parse_decision_fields)
  moreover have "dec = \<lparr>ed_allow = False, ed_obligations = List.map_filter as_map [audit ''audit_denied''], ed_reason = ''unknown_domain''\<rparr>"
    if "gates_open data r" "vd d ?v = Inr None"
    using e that by (simp add: eval_rego open_ unknown_decision_def parse_decision_fields)
  moreover have "if complete_verdict w
      then dec = \<lparr>ed_allow = (mget w ''allow'' = Some (VBool True)),
        ed_obligations = (case get_arr w ''obligations'' of Some vs \<Rightarrow> List.map_filter as_map vs | None \<Rightarrow> []),
        ed_reason = str_or_empty (get_str w ''reason_code'')\<rparr>
      else dec = \<lparr>ed_allow = False, ed_obligations = [], ed_reason = ''default_deny''\<rparr>"
    if "gates_open data r" "vd d ?v = Inr (Some (VObj w))" for w
    using e that obs [of w]
    by (auto simp: eval_rego open_ verdict_decision_obj holds_def default_decision_def parse_decision_fields map_filter_simps)
  ultimately show ?thesis
    using log_obligations by (auto simp: r assemble_def to_obligations_def split: if_splits)
qed

lemma embedded_policy_reasons_witness:
  "\<exists>resp c. evaluate (eval_opa (rego_query (\<lambda>_. []) (fixture_domains :: unit verdicts) fixture_document)) sample_issuer 0
      sample_request = Inr resp \<and> \<not> decision resp
      \<and> resp_context resp = Some c \<and> rc_reason c = ''request_invalid'' \<and> rc_obligations c = [audit_denied]"
proof -
  have n: "named (res_type (req_resource sample_request)) ''wallet'' ''account''"
    by (simp add: sample_request_def named_def name_token_def lower_def name_char_def)
  have g: "\<not> gates_open fixture_document sample_request"
    by (auto simp: gates_open_def hop_identified_def sample_request_def authz_profile_def get_str_def mget_def holds_def
        profile_defs)
  then have "\<exists>resp. evaluate (eval_opa (rego_query (\<lambda>_. []) (fixture_domains :: unit verdicts) fixture_document))
      sample_issuer 0 sample_request = Inr resp"
    using sample_request_conforms
    by (simp add: evaluate_fits sample_request_fits eval_rego rego_decision_def gates_on_contract invalid_decision_def)
  then show ?thesis
    using embedded_policy_reasons [OF sample_request_fits sample_request_conforms n] g by blast
qed

end
