(* ===== verification/Policy_Enforcement.thy ===== *)
theory Policy_Enforcement
  imports Rego_Proofs Pip
begin

text \<open>
  Enforcement points in front of the embedded policy: which of the policy's hop gates the requests
  of a PEP pass, the step-up of the fixture's domain from policy to outcome, the well-formedness of the
  policy's decisions, and the assurance levels that Go and Rego rank each in its own way.
\<close>

section \<open>The hop gates on the requests of a PEP\<close>

lemma built_parts:
  assumes "fst (build_request p r rt cid caller) = Some req"
  shows "entries (req_context req) = pep_context p r cid" "req_subject req = pep_subject p r caller"
proof -
  obtain props r' where rp: "resource_props rt r = (props, r')" by fastforce
  then have "client_ip r' = client_ip r" "header r' = header r"
    by (auto simp: resource_props_def client_ip_def header_def fun_eq_iff split: option.splits prod.splits if_splits)
  then have "pep_context p r' cid = pep_context p r cid" "pep_subject p r' caller = pep_subject p r caller"
    by (simp_all only: pep_context_def pep_subject_def)
  then show "entries (req_context req) = pep_context p r cid" "req_subject req = pep_subject p r caller"
    using assms by (auto simp: build_request_def make_request_def rp simp del: mput.simps)
qed

lemma pep_context_get:
  "get_str (pep_context p r cid) ''authz_profile'' = Some (pc_profile p)"
  "pc_profile p = ProfileEdge \<Longrightarrow> mget (pep_context p r cid) ''source_ip'' = Some (VStr (client_ip r))"
  "pc_profile p = ProfilePartner \<Longrightarrow> mget (pep_context p r cid) ''partner_id'' = Some (VStr (header r HeaderPartnerID))"
  using profiles_differ by (auto simp: pep_context_def get_str_def mget_mput Let_def simp del: mput.simps)

lemma pep_act:
  "act_subject (pep_subject p r caller) =
     (if pc_profile p = ProfileEastWest \<and> caller \<noteq> []
      then Some (mput ''type'' (VStr SubjectTypeWorkload) (mput ''id'' (VStr caller) [])) else None)"
  by (simp add: act_subject_def pep_subject_def get_map_def mget_mput mget_Nil Let_def del: mput.simps)

lemma pep_hop_gates:
  assumes "fst (build_request p r rt cid caller) = Some req"
  shows "hop_identified req \<longleftrightarrow> (pc_profile p = ProfileEastWest \<longrightarrow> has_prefix caller ''spiffe://'')"
proof -
  have prof: "authz_profile req = pc_profile p"
    by (simp add: authz_profile_def built_parts [OF assms] pep_context_get)
  have e: "holds (Some (VStr s))" for s by (simp add: holds_def)
  have act: "(\<exists>act i. act_subject (req_subject req) = Some act \<and> get_str act ''type'' = Some SubjectTypeWorkload
        \<and> get_str act ''id'' = Some i \<and> has_prefix i ''spiffe://'') \<longleftrightarrow> has_prefix caller ''spiffe://''"
    if "pc_profile p = ProfileEastWest"
    using that by (auto simp: built_parts [OF assms] pep_act get_str_iff mget_mput has_prefix_def simp del: mput.simps)
  show ?thesis
    using profiles_differ act
    by (auto simp: hop_identified_def prof built_parts [OF assms] pep_context_get e)
qed

text \<open>
  C14.  What the profile rules of the embedded policy report of a request a PEP built: on the
  East-West hop a caller that is missing, or is no SPIFFE id, each with its own message; and nothing
  on any other hop.  An Edge request always carries a source address, and a Partner request always a
  partner id, the empty one if the header is missing: the rule that is to demand a partner never
  fires.
\<close>

theorem hop_gates_of_pep:
  assumes "fst (build_request p r rt cid caller) = Some req"
  shows "profile_violations (VObj (input_map req)) =
     (if pc_profile p \<noteq> ProfileEastWest then []
      else if caller = [] then [''east_west profile requires subject.properties.act (delegation actor)'']
      else if has_prefix caller ''spiffe://'' then []
      else [''east_west delegation actor must be a workload with a spiffe:// id''])"
proof -
  have get: "mget (entries (req_context req)) = mget (pep_context p r cid)"
    "mget (entries (subj_props (req_subject req))) ''act'' =
       (if pc_profile p = ProfileEastWest \<and> caller \<noteq> []
        then Some (VObj (mput ''type'' (VStr SubjectTypeWorkload) (mput ''id'' (VStr caller) []))) else None)"
    by (simp_all add: built_parts [OF assms] pep_subject_def mget_mput mget_Nil Let_def del: mput.simps)
  have prof: "mget (pep_context p r cid) ''authz_profile'' = Some (VStr (pc_profile p))"
    using pep_context_get(1) by (simp only: get_str_iff)
  have act: "valid_workload_act (VObj (mput ''type'' (VStr SubjectTypeWorkload) (mput ''id'' (VStr caller) []))) \<longleftrightarrow>
      has_prefix caller ''spiffe://''"
    by (simp add: valid_workload_act_iff mget_mput mget_Nil SubjectTypeWorkload_def del: mput.simps)
  show ?thesis
    unfolding profile_violations_def Let_def input_ref get prof
    using profiles_differ pep_context_get(2,3) [of p r cid] act
    by (auto simp: holds_def profile_defs simp del: mput.simps)
qed

definition partner_pep :: "unit pep_config" where
  "partner_pep = sample_pep\<lparr>pc_profile := ProfilePartner\<rparr>"

lemma hop_gates_of_pep_witness:
  "header sample_http HeaderPartnerID = []
   \<and> (\<exists>req. fst (build_request partner_pep sample_http sample_route [] []) = Some req
           \<and> profile_violations (VObj (input_map req)) = [])"
proof -
  have "fst (build_request partner_pep sample_http sample_route [] []) \<noteq> None" by code_simp
  then obtain req where r: "fst (build_request partner_pep sample_http sample_route [] []) = Some req" by blast
  have "pc_profile partner_pep \<noteq> ProfileEastWest" using profiles_differ by (simp add: partner_pep_def)
  moreover have "header sample_http HeaderPartnerID = []" by code_simp
  ultimately show ?thesis using hop_gates_of_pep [OF r] r by metis
qed

section \<open>Decisions of the policy can be carried\<close>

definition verdicts_ok :: "'e verdicts \<Rightarrow> bool" where
  "verdicts_ok vd \<longleftrightarrow> (\<forall>d v w. vd d v = Inr (Some w) \<longrightarrow> wf_val w \<and> gdepth w + 2 \<le> max_depth)"

lemma parse_decision_ok:
  assumes "wf_val (VObj m)" and "gdepth (VObj m) + 2 \<le> max_depth"
  shows "decision_ok (parse_decision m)"
proof -
  have wf: "wf_mems m" using assms(1) by simp
  have "valid_utf8 (str_or_empty (get_str m ''reason_code''))"
    using wf_mems_get [OF wf, of "''reason_code''"]
    by (auto simp: str_or_empty_def get_str_iff split: option.split)
  moreover have "wf_map g \<and> gdepth (VObj g) + 4 \<le> max_depth"
    if "get_arr m ''obligations'' = Some vs" "VObj g \<in> set vs" for vs g
  proof -
    have a: "mget m ''obligations'' = Some (VArr vs)"
      using that(1) by (auto simp: get_arr_def bind_eq_Some_conv elim!: as_arr.elims)
    have in_vals: "wf_vals xs \<Longrightarrow> x \<in> set xs \<Longrightarrow> wf_val x" "x \<in> set xs \<Longrightarrow> gdepth x \<le> gdepth_list xs" for x xs
      by (induction xs) auto
    have "wf_vals vs" using wf_mems_get [OF wf a] by simp
    then have "wf_val (VObj g)" using in_vals(1) that(2) by blast
    moreover have "gdepth (VObj g) \<le> gdepth_list vs" using in_vals(2) that(2) by blast
    ultimately show ?thesis using gdepth_get [OF a] assms(2) by auto
  qed
  ultimately show ?thesis
    by (cases "get_arr m ''obligations''")
      (auto simp: decision_ok_def parse_decision_def list_all_iff List.map_filter_def as_map_iff split: option.splits)
qed

definition document_ok :: "gval \<Rightarrow> bool" where
  "document_ok d \<longleftrightarrow> (\<forall>m. as_map d = Some m \<longrightarrow> decision_ok (parse_decision m))"

lemma refusals_ok: "document_ok (invalid_decision vs)" "document_ok unknown_decision" "document_ok default_decision"
proof -
  have "wf_map [(''level'', VStr ''audit_denied'')]" "valid_utf8 ''request_invalid''" "valid_utf8 ''unknown_domain''"
    "valid_utf8 ''default_deny''" "wf_map [(''details'', VObj [(''level'', VStr ''audit_denied'')]), (''type'', VStr ''log'')]"
    by (auto simp: smap_wf_def ascii_def intro!: ascii_valid)
  then show "document_ok (invalid_decision vs)" "document_ok unknown_decision" "document_ok default_decision"
    by (simp_all add: document_ok_def invalid_decision_def unknown_decision_def default_decision_def
        parse_decision_fields decision_ok_def map_filter_simps audit_def max_depth_def)
qed

lemma verdict_ok:
  assumes "wf_val w" and "gdepth w + 2 \<le> max_depth"
  shows "document_ok (verdict_decision w)"
proof (cases "\<exists>m. w = VObj m \<and> complete_verdict m")
  case True
  then obtain m a obs rc where m: "w = VObj m" "mget m ''allow'' = Some a" "mget m ''obligations'' = Some obs"
    "mget m ''reason_code'' = Some rc" "complete_verdict m" by (auto simp: complete_verdict_def)
  have "parse_decision [(''allow'', a), (''obligations'', obs), (''reason_code'', rc)] = parse_decision m"
    using m(2-4) by (simp add: parse_decision_def get_defs mget_def)
  then show ?thesis
    using parse_decision_ok assms m by (simp add: document_ok_def verdict_decision_obj)
next
  case False
  then have "verdict_decision w = default_decision"
    by (cases w) (simp_all add: verdict_decision_obj verdict_decision_other)
  then show ?thesis by (simp add: refusals_ok)
qed

lemma rego_decision_ok:
  assumes "verdicts_ok vd" and "rego_decision fq vd data v = Inr d"
  shows "document_ok d"
proof (cases "all_violations fq data v = []")
  case True
  then obtain o' where o: "domain_verdict vd v = Inr o'"
    "d = (case o' of None \<Rightarrow> unknown_decision | Some w \<Rightarrow> if holds (Some w) then verdict_decision w else unknown_decision)"
    using assms(2) by (auto simp: rego_decision_def split: sum.splits option.splits)
  have "wf_val w \<and> gdepth w + 2 \<le> max_depth" if "o' = Some w" for w
    using o(1) that assms(1) by (auto simp: domain_verdict_def verdicts_ok_def split: option.splits)
  then show ?thesis using o(2) refusals_ok verdict_ok by (auto split: option.splits)
qed (use assms(2) refusals_ok in \<open>auto simp: rego_decision_def\<close>)

lemma rego_decisions_ok:
  assumes "verdicts_ok vd"
  shows "\<forall>v d. eval_opa (rego_query fq vd data) v = Inr d \<longrightarrow> decision_ok d"
  using rego_decision_ok [OF assms] by (auto simp: eval_rego document_ok_def split: sum.splits option.splits)

section \<open>The step-up of the fixture's domain, from policy to outcome\<close>

lemma classify_assembled:
  "oc_kind (classify (assemble i now r dec) cid) =
     (if ed_allow dec then Allow
      else if step_up (to_obligations (ed_obligations dec)) = None then DenyForbidden else DenyStepUp)"
  "oc_acr (classify (assemble i now r dec) cid) =
     (if ed_allow dec then []
      else case step_up (to_obligations (ed_obligations dec)) of None \<Rightarrow> []
           | Some ob \<Rightarrow> str_or_empty (get_str (entries (ob_details ob)) ''required_acr''))"
  by (simp_all add: classify_def assemble_def plain_outcome_def split: option.split)

text \<open>
  C13.  The fixture's policy, from the contract request to what the PEP does: settling more than
  5000000 needs AAL3, a subject of another level is challenged to step up to AAL3, and one whose
  request carries no level is refused without a challenge; up to that amount AAL2 is enough and a
  weaker subject is refused.
\<close>

theorem settle_step_up:
  assumes "fits r" and "conforms r" and "hop_identified r" and "act_name (req_action r) = ''acct:settle''"
    and "mget (entries (res_props (req_resource r))) ''amount'' = Some (VNum f)"
    and "holds (mget (entries (res_props (req_resource r))) ''currency'')"
  shows "\<exists>resp. evaluate (eval_opa (rego_query fq fixture_domains fixture_document)) i now r = Inr resp
     \<and> (let out = classify resp cid; aal = auth_assurance_level (req_subject r);
            present = mget (entries (subj_props (req_subject r))) ''auth_assurance_level'' \<noteq> None in
        oc_kind out =
          (if 5000000 < float_value f
           then if aal = ''AAL3'' then Allow else if present then DenyStepUp else DenyForbidden
           else if aal \<in> {''AAL2'', ''AAL3''} then Allow else DenyForbidden)
        \<and> (oc_kind out = DenyStepUp \<longrightarrow> oc_acr out = ''AAL3''))"
proof -
  obtain d a e where n: "named (act_name (req_action r)) d a" "named (res_type (req_resource r)) d e"
    using assms(2) by (auto simp: conforms_def)
  moreover have "named ''acct:settle'' ''acct'' ''settle''"
    by (simp add: named_def name_token_def lower_def name_char_def)
  ultimately have d: "d = ''acct''" using assms(4) named_unique by metis
  define present where "present = (mget (entries (subj_props (req_subject r))) ''auth_assurance_level'' \<noteq> None)"
  have "supplies r (VStr ''amount'')" "supplies r (VStr ''currency'')"
    using assms(5,6) by (simp_all add: supplies_def holds_def)
  then have "gates_open fixture_document r"
    by (simp add: gates_open_def assms(3,4) required_list_def required_attributes_for_def fixture_document_def
        index_def mget_def)
  then have dec: "rego_decision fq fixture_domains fixture_document (VObj (input_map r)) =
      Inr (settle_rule present (auth_assurance_level (req_subject r)) (float_value f))"
    using acct_verdict_settle [OF assms(4,5), folded present_def] acct_rule_decision
    by (simp add: rego_decision_def gates_on_contract assms(2) domain_verdict_named [OF n(2)] d fixture_domains_def
        settle_rule_def)
  obtain m where m: "as_map (settle_rule present (auth_assurance_level (req_subject r)) (float_value f)) = Some m"
    by (cases "settle_rule present (auth_assurance_level (req_subject r)) (float_value f)")
      (auto simp: settle_rule_def acct_rule_def split: if_splits)
  then have e: "eval_opa (rego_query fq fixture_domains fixture_document) (VObj (input_map r)) =
      Inr (parse_decision (the (as_map (settle_rule present (auth_assurance_level (req_subject r)) (float_value f)))))"
    by (simp add: eval_rego dec m)
  have up: "step_up (to_obligations (List.map_filter as_map [rego_step_up ''AAL3'', audit ''audit_denied''])) =
      Some \<lparr>ob_type = ''step_up'', ob_details = Some [(''method'', VStr ''mfa''), (''required_acr'', VStr ''AAL3'')]\<rparr>"
    by code_simp
  have no: "step_up (to_obligations (List.map_filter as_map [])) = None" by code_simp
  have acr: "str_or_empty (get_str [(''method'', VStr ''mfa''), (''required_acr'', VStr ''AAL3'')] ''required_acr'') = ''AAL3''"
    by code_simp
  show ?thesis
    unfolding evaluate_fits [OF assms(1)] e Let_def classify_assembled present_def [symmetric]
    using assms(2) by (simp add: settle_rule_def acct_rule_parse classify_assembled up no acr del: map_filter_simps)
qed

lemma settle_step_up_witness:
  "\<exists>resp. evaluate (eval_opa (rego_query (\<lambda>_. []) (fixture_domains :: unit verdicts) fixture_document)) sample_issuer 0
        (settle_request (VNum nine_million) ''AAL2'') = Inr resp
     \<and> oc_kind (classify resp ''c-1'') = DenyStepUp \<and> oc_acr (classify resp ''c-1'') = ''AAL3''"
proof -
  obtain resp where
    "evaluate (eval_opa (rego_query (\<lambda>_. []) (fixture_domains :: unit verdicts) fixture_document)) sample_issuer 0
        (settle_request (VNum nine_million) ''AAL2'') = Inr resp"
    "oc_kind (classify resp ''c-1'') = DenyStepUp"
    "oc_kind (classify resp ''c-1'') = DenyStepUp \<longrightarrow> oc_acr (classify resp ''c-1'') = ''AAL3''"
    using settle_step_up [OF settle_request_ok [OF ascii_AAL2] settle_request_fields(1,3,4), of "\<lambda>_. []" sample_issuer 0 "''c-1''"]
      nine_million_value settle_request_fields settle_request_level
    by (auto simp: Let_def)
  then show ?thesis by blast
qed

section \<open>Assurance levels\<close>

text \<open>The levels both the enforcement point and the policy rank, least first; any other text is no level.\<close>

datatype assurance = NoLevel | Level1 | Level2 | Level3

fun assurance_nat :: "assurance \<Rightarrow> nat" where
  "assurance_nat NoLevel = 0"
| "assurance_nat Level1 = 1"
| "assurance_nat Level2 = 2"
| "assurance_nat Level3 = 3"

lemma assurance_nat_inj: "assurance_nat a = assurance_nat b \<longleftrightarrow> a = b"
  by (cases a; cases b) simp_all

instantiation assurance :: linorder
begin

definition less_eq_assurance :: "assurance \<Rightarrow> assurance \<Rightarrow> bool" where
  "less_eq_assurance a b \<longleftrightarrow> assurance_nat a \<le> assurance_nat b"

definition less_assurance :: "assurance \<Rightarrow> assurance \<Rightarrow> bool" where
  "less_assurance a b \<longleftrightarrow> assurance_nat a < assurance_nat b"

instance
  by standard (auto simp: less_eq_assurance_def less_assurance_def assurance_nat_inj)

end

definition level :: "string \<Rightarrow> assurance" where
  "level a = (if a = ''AAL1'' then Level1 else if a = ''AAL2'' then Level2 else if a = ''AAL3'' then Level3 else NoLevel)"

lemma aal_rank_level: "aal_rank a \<le> aal_rank b \<longleftrightarrow> level a \<le> level b"
  by (simp add: aal_rank_def level_def less_eq_assurance_def)

lemma assurance_nat_none: "assurance_nat l = 0 \<longleftrightarrow> l = NoLevel"
  by (cases l) simp_all

lemma subject_aal_level:
  "aal_rank_of (subject_aal (VObj (input_map r))) =
     (let l = level (auth_assurance_level (req_subject r)) in if l = NoLevel then None else Some (assurance_nat l))"
  by (simp add: subject_aal_input aal_rank_of_def assurance_prop level_def Let_def)

text \<open>
  C5.  Reusing a decision token cannot bypass a step-up: whatever assurance level the policy
  demanded of the request the token was issued for, the request it is presented with meets too,
  although the enforcement point ranks levels in Go and the policy in Rego.
\<close>

theorem token_keeps_assurance:
  assumes "token_matches (stamp i now (request_claims a)) b"
    and "aal_at_least (subject_aal (VObj (input_map a))) want"
  shows "aal_at_least (subject_aal (VObj (input_map b))) want"
proof -
  have "level (auth_assurance_level (req_subject a)) \<le> level (auth_assurance_level (req_subject b))"
    using assms(1) by (simp add: matches_issued aal_rank_level)
  then show ?thesis
    using assms(2) unfolding aal_at_least_def subject_aal_level Let_def
    by (auto simp: less_eq_assurance_def assurance_nat_none split: option.splits if_splits)
qed

lemma token_keeps_assurance_witness:
  "aal_at_least (subject_aal (VObj (input_map (settle_request (VNum nine_million) ''AAL3'')))) (Some (VStr ''AAL2''))"
proof (rule token_keeps_assurance [of sample_issuer 0 "settle_request (VNum nine_million) ''AAL2''"])
  show "token_matches (stamp sample_issuer 0 (request_claims (settle_request (VNum nine_million) ''AAL2'')))
      (settle_request (VNum nine_million) ''AAL3'')"
    by (simp add: matches_issued settle_request_fields aal_rank_def) (simp add: settle_request_def)
  show "aal_at_least (subject_aal (VObj (input_map (settle_request (VNum nine_million) ''AAL2'')))) (Some (VStr ''AAL2''))"
    by (simp add: aal_at_least_props settle_request_fields)
qed

section \<open>The framework alone\<close>

text \<open>
  The policies in the repository define no domain, so a PDP that runs them without an adopter's modules
  allows nothing.
\<close>

lemma framework_denies_all:
  assumes "fits r" and "evaluate (eval_opa (rego_query fq (\<lambda>_ _. Inr None) data)) i now r = Inr resp"
  shows "\<not> decision resp"
  using embedded_policy_grounds [OF assms(1), of fq "\<lambda>_ _. Inr None" data i now] assms(2) by auto

end
