(* ===== verification/Grpc_Stub.thy ===== *)
theory Grpc_Stub
  imports Grpc_Pdp
begin

text \<open>
  The generated service of \<open>proto/authzen/v1/authzen_grpc.pb.go\<close>: the client stub, the server's
  handler with its optional interceptor, the default server, and the service descriptor under
  which a server is registered.  The channel (\<open>Invoke\<close>) and the dispatch of \<open>grpc.Server\<close> are
  arguments; \<open>carries\<close> states what they document: a call of a registered method reaches its handler.
\<close>

definition full_method_name :: string where
  "full_method_name = ''/vsp.authzen.v1.AccessEvaluation/Evaluate''"

definition stub_evaluate :: "(string \<Rightarrow> 'q \<Rightarrow> 'e + 'p) \<Rightarrow> 'q \<Rightarrow> 'e + 'p" where
  "stub_evaluate invoke q = (case invoke full_method_name q of Inl e \<Rightarrow> Inl e | Inr out \<Rightarrow> Inr out)"

datatype 'e handler_status = Undecodable 'e | Unimplemented string | Status 'e

definition unimplemented_evaluate :: "'q \<Rightarrow> 'e handler_status + 'p" where
  "unimplemented_evaluate q = Inl (Unimplemented ''method Evaluate not implemented'')"

text \<open>
  The handler: \<open>dec\<close> is the decoding of the message, an interceptor is given the message, the
  method and the call to make.
\<close>

definition evaluate_handler ::
  "('q \<Rightarrow> 'e handler_status + 'p) \<Rightarrow> 'e + 'q
     \<Rightarrow> ('q \<Rightarrow> string \<Rightarrow> ('q \<Rightarrow> 'e handler_status + 'p) \<Rightarrow> 'e handler_status + 'p) option
     \<Rightarrow> 'e handler_status + 'p"
where
  "evaluate_handler srv dec interceptor =
     (case dec of
        Inl e \<Rightarrow> Inl (Undecodable e)
      | Inr q \<Rightarrow> (case interceptor of None \<Rightarrow> srv q | Some f \<Rightarrow> f q full_method_name srv))"

record 'h service_desc =
  sd_name :: string
  sd_methods :: "(string \<times> 'h) list"

definition access_evaluation_desc :: "'h \<Rightarrow> 'h service_desc" where
  "access_evaluation_desc h = \<lparr>sd_name = ''vsp.authzen.v1.AccessEvaluation'', sd_methods = [(''Evaluate'', h)]\<rparr>"

text \<open>Registration adds the service's methods, under their full names, to those of the server.\<close>

definition register_service :: "'h service_desc \<Rightarrow> (string \<times> 'h) list \<Rightarrow> (string \<times> 'h) list" where
  "register_service d table = map (\<lambda>(m, h). (''/'' @ sd_name d @ ''/'' @ m, h)) (sd_methods d) @ table"

text \<open>What a connected channel promises for a server's table of handlers.\<close>

definition carries :: "(string \<Rightarrow> 'q \<Rightarrow> 'e handler_status + 'p)
     \<Rightarrow> (string \<times> ('e + 'q \<Rightarrow> 'e handler_status + 'p)) list \<Rightarrow> bool" where
  "carries invoke table \<longleftrightarrow> (\<forall>m h q. map_of table m = Some h \<longrightarrow> invoke m q = h (Inr q))"

lemma registered_method:
  "map_of (register_service (access_evaluation_desc h) table) full_method_name = Some h"
  by (simp add: register_service_def access_evaluation_desc_def full_method_name_def)

text \<open>
  A stub on a channel to a server calls that server, through its interceptor if it has one; with the
  default server every call is \<open>Unimplemented\<close>.
\<close>

lemma stub_calls_server:
  assumes "carries invoke (register_service (access_evaluation_desc (\<lambda>dec. evaluate_handler srv dec ic)) table)"
  shows "stub_evaluate invoke q = (case ic of None \<Rightarrow> srv q | Some f \<Rightarrow> f q full_method_name srv)"
proof -
  have "invoke full_method_name q = evaluate_handler srv (Inr q) ic"
    using assms registered_method unfolding carries_def by fast
  then show ?thesis
    by (cases "evaluate_handler srv (Inr q) ic") (auto simp: stub_evaluate_def evaluate_handler_def)
qed

corollary stub_unimplemented:
  assumes "carries invoke (register_service (access_evaluation_desc (\<lambda>dec. evaluate_handler unimplemented_evaluate dec None)) table)"
  shows "stub_evaluate invoke q = Inl (Unimplemented ''method Evaluate not implemented'')"
  by (simp add: stub_calls_server [OF assms] unimplemented_evaluate_def)

text \<open>
  The PDP's server behind the generated code: a client whose stub is connected to it decides
  as the client that calls the server directly.
\<close>

lemma stubs_transparent:
  assumes "carries invoke (register_service (access_evaluation_desc
      (\<lambda>dec. evaluate_handler (\<lambda>p. map_sum Status id (server_evaluate q ns am svc p)) dec None)) table)"
  shows "grpc_evaluate ns am (stub_evaluate invoke) r =
    (case grpc_evaluate ns am (server_evaluate q ns am svc) r of
       Inl (RpcFailed e) \<Rightarrow> Inl (RpcFailed (Status e)) | Inl (EncodeRequest e) \<Rightarrow> Inl (EncodeRequest e) | Inr resp \<Rightarrow> Inr resp)"
  by (auto simp: grpc_evaluate_def stub_calls_server [OF assms] split: sum.splits)

end
