(* ===== verification/Served.thy ===== *)
theory Served
  imports Rw_Lock
begin

text \<open>
  Requests served by goroutines, as \<open>net/http\<close> does, that share one value behind a \<open>sync.RWMutex\<close>.
  A handler runs on its own until it calls the shared value, if it does, and then on its own to
  its answer.  Every interleaving is explained by handling the requests one at a time, each at
  one moment between its arrival and its answer.
\<close>

section \<open>Handlers and their interleaving\<close>

text \<open>What a handler does: its result, or one call and the result for each answer of it.\<close>

datatype ('op, 'r, 'x) course = Finish 'x | Call 'op "'r \<Rightarrow> 'x"

fun run_course :: "('op \<Rightarrow> 'v \<Rightarrow> 'v) \<Rightarrow> ('op \<Rightarrow> 'v \<Rightarrow> 'r) \<Rightarrow> ('op, 'r, 'x) course \<Rightarrow> 'v \<Rightarrow> 'x \<times> 'v" where
  "run_course eff res (Finish x) v = (x, v)"
| "run_course eff res (Call c k) v = (k (res c v), eff c v)"

text \<open>Where a goroutine is with its request, and what an observer of the server sees.\<close>

datatype ('a, 'op, 'r, 'x) task =
    Unborn | Serving 'a | Calling 'a 'op "'r \<Rightarrow> 'x" | Replying 'a 'x | Done 'a 'x

datatype ('a, 'x) moment = Arrived nat 'a | Effect nat 'a 'x | Answered nat 'x

record ('v, 'a, 'op, 'r, 'x) server =
  sv_lock :: "('v, 'op, 'r) rw_state"
  sv_task :: "nat \<Rightarrow> ('a, 'op, 'r, 'x) task"
  sv_trace :: "('a, 'x) moment list"

definition sv_init :: "'v \<Rightarrow> ('v, 'a, 'op, 'r, 'x) server" where
  "sv_init v = \<lparr>sv_lock = rw_init v, sv_task = (\<lambda>_. Unborn), sv_trace = []\<rparr>"

definition waits :: "('v, 'op, 'r) rw_state \<Rightarrow> nat \<Rightarrow> bool" where
  "waits l t \<longleftrightarrow> (\<exists>c. rw_phase l t = Waiting c)"

text \<open>
  The steps: a request arrives on a goroutine of its own; its handler finishes without a call, or
  calls; the lock moves for some goroutine, without or with an access; an answer is sent.
\<close>

inductive sv_step ::
  "('op \<Rightarrow> bool) \<Rightarrow> ('op \<Rightarrow> 'v \<Rightarrow> 'v) \<Rightarrow> ('op \<Rightarrow> 'v \<Rightarrow> 'r) \<Rightarrow> ('a \<Rightarrow> ('op, 'r, 'x) course)
     \<Rightarrow> ('v, 'a, 'op, 'r, 'x) server \<Rightarrow> ('v, 'a, 'op, 'r, 'x) server \<Rightarrow> bool"
  for excl eff res course
where
  sv_arrive: "sv_task s t = Unborn \<Longrightarrow>
     sv_step excl eff res course s
       (s\<lparr>sv_task := (sv_task s)(t := Serving a), sv_trace := sv_trace s @ [Arrived t a]\<rparr>)"
| sv_finish: "sv_task s t = Serving a \<Longrightarrow> course a = Finish x \<Longrightarrow>
     sv_step excl eff res course s
       (s\<lparr>sv_task := (sv_task s)(t := Replying a x), sv_trace := sv_trace s @ [Effect t a x]\<rparr>)"
| sv_call: "sv_task s t = Serving a \<Longrightarrow> course a = Call c k \<Longrightarrow> rw_phase (sv_lock s) t = Outside \<Longrightarrow>
     sv_step excl eff res course s
       (s\<lparr>sv_task := (sv_task s)(t := Calling a c k),
          sv_lock := (sv_lock s)\<lparr>rw_phase := (rw_phase (sv_lock s))(t := Waiting c)\<rparr>\<rparr>)"
| sv_move: "rw_step excl eff res (sv_lock s) l \<Longrightarrow> rw_log l = rw_log (sv_lock s) \<Longrightarrow>
     (\<forall>t. waits l t \<longrightarrow> waits (sv_lock s) t) \<Longrightarrow>
     sv_step excl eff res course s (s\<lparr>sv_lock := l\<rparr>)"
| sv_access: "rw_step excl eff res (sv_lock s) l \<Longrightarrow> rw_log l = rw_log (sv_lock s) @ [(t, c, r)] \<Longrightarrow>
     sv_task s t = Calling a c k \<Longrightarrow>
     sv_step excl eff res course s
       (s\<lparr>sv_lock := l, sv_task := (sv_task s)(t := Replying a (k r)), sv_trace := sv_trace s @ [Effect t a (k r)]\<rparr>)"
| sv_answer: "sv_task s t = Replying a x \<Longrightarrow> rw_phase (sv_lock s) t = Outside \<Longrightarrow>
     sv_step excl eff res course s
       (s\<lparr>sv_task := (sv_task s)(t := Done a x), sv_trace := sv_trace s @ [Answered t x]\<rparr>)"

inductive sv_reachable ::
  "('op \<Rightarrow> bool) \<Rightarrow> ('op \<Rightarrow> 'v \<Rightarrow> 'v) \<Rightarrow> ('op \<Rightarrow> 'v \<Rightarrow> 'r) \<Rightarrow> ('a \<Rightarrow> ('op, 'r, 'x) course)
     \<Rightarrow> 'v \<Rightarrow> ('v, 'a, 'op, 'r, 'x) server \<Rightarrow> bool"
  for excl eff res course v
where
  sv_start: "sv_reachable excl eff res course v (sv_init v)"
| sv_next: "sv_reachable excl eff res course v s \<Longrightarrow> sv_step excl eff res course s s'
     \<Longrightarrow> sv_reachable excl eff res course v s'"

section \<open>The explanation: one request at a time\<close>

fun explains :: "('a \<Rightarrow> 'v \<Rightarrow> 'x \<times> 'v) \<Rightarrow> 'v \<Rightarrow> ('a, 'x) moment list \<Rightarrow> 'v \<Rightarrow> bool" where
  "explains handle v [] w \<longleftrightarrow> w = v"
| "explains handle v (Effect t a x # ms) w \<longleftrightarrow> x = fst (handle a v) \<and> explains handle (snd (handle a v)) ms w"
| "explains handle v (Arrived t a # ms) w \<longleftrightarrow> explains handle v ms w"
| "explains handle v (Answered t x # ms) w \<longleftrightarrow> explains handle v ms w"

lemma explains_append:
  "explains handle v (ms @ ns) w \<longleftrightarrow> (\<exists>u. explains handle v ms u \<and> explains handle u ns w)"
  by (induction handle v ms w rule: explains.induct) auto

fun goroutine :: "('a, 'x) moment \<Rightarrow> nat" where
  "goroutine (Arrived t a) = t"
| "goroutine (Effect t a x) = t"
| "goroutine (Answered t x) = t"

fun seen :: "nat \<Rightarrow> ('a, 'op, 'r, 'x) task \<Rightarrow> ('a, 'x) moment list" where
  "seen t Unborn = []"
| "seen t (Serving a) = [Arrived t a]"
| "seen t (Calling a c k) = [Arrived t a]"
| "seen t (Replying a x) = [Arrived t a, Effect t a x]"
| "seen t (Done a x) = [Arrived t a, Effect t a x, Answered t x]"

lemma filter_goroutine_snoc [simp]:
  "filter (\<lambda>m. goroutine m = t) (ms @ [m]) =
     filter (\<lambda>m. goroutine m = t) ms @ (if goroutine m = t then [m] else [])"
  by simp

definition sv_ok ::
  "('op \<Rightarrow> bool) \<Rightarrow> ('op \<Rightarrow> 'v \<Rightarrow> 'v) \<Rightarrow> ('op \<Rightarrow> 'v \<Rightarrow> 'r) \<Rightarrow> ('a \<Rightarrow> ('op, 'r, 'x) course) \<Rightarrow> 'v
     \<Rightarrow> ('v, 'a, 'op, 'r, 'x) server \<Rightarrow> bool"
where
  "sv_ok excl eff res course v s \<longleftrightarrow>
     rw_reachable excl eff res v (sv_lock s)
   \<and> (\<forall>t a c k. sv_task s t = Calling a c k \<longrightarrow> course a = Call c k)
   \<and> (\<forall>t. filter (\<lambda>m. goroutine m = t) (sv_trace s) = seen t (sv_task s t))
   \<and> explains (\<lambda>a. run_course eff res (course a)) v (sv_trace s) (rw_value (sv_lock s))"

lemma access_value:
  assumes "rw_step excl eff res l l'" and "rw_log l' = rw_log l @ [(t, c, r)]"
  shows "r = res c (rw_value l)" and "rw_value l' = eff c (rw_value l)"
  using assms by (auto elim!: rw_stepE)

lemma move_value:
  assumes "rw_step excl eff res l l'" and "rw_log l' = rw_log l"
  shows "rw_value l' = rw_value l"
  using assms by (auto elim!: rw_stepE)

lemma sv_ok_step:
  assumes "sv_step excl eff res course s s'" and "sv_ok excl eff res course v s"
  shows "sv_ok excl eff res course v s'"
  using assms
proof (induction rule: sv_step.induct)
  case (sv_call s t a c k)
  then have "rw_reachable excl eff res v ((sv_lock s)\<lparr>rw_phase := (rw_phase (sv_lock s))(t := Waiting c)\<rparr>)"
    unfolding sv_ok_def by (blast intro: rw_next rw_call)
  with sv_call show ?case by (auto simp: sv_ok_def)
next
  case (sv_move s l)
  then show ?case using move_value [OF sv_move(1,2)] by (auto simp: sv_ok_def intro: rw_next)
next
  case (sv_access s l t c r a k)
  have v: "r = res c (rw_value (sv_lock s))" "rw_value l = eff c (rw_value (sv_lock s))"
    by (rule access_value [OF sv_access(1,2)])+
  have c: "course a = Call c k" using sv_access(3,4) by (auto simp: sv_ok_def)
  have l: "rw_reachable excl eff res v l" using sv_access(1,4) by (auto simp: sv_ok_def intro: rw_next)
  show ?case using sv_access(3,4) l by (auto simp: sv_ok_def v c explains_append)
qed (auto simp: sv_ok_def explains_append)

lemma reachable_sv_ok: "sv_reachable excl eff res course v s \<Longrightarrow> sv_ok excl eff res course v s"
proof (induction rule: sv_reachable.induct)
  case sv_start
  then show ?case by (auto simp: sv_ok_def sv_init_def rw_init_def intro: rw_start [unfolded rw_init_def])
qed (rule sv_ok_step)

lemma served_explained:
  "sv_reachable excl eff res course v s
     \<Longrightarrow> explains (\<lambda>a. run_course eff res (course a)) v (sv_trace s) (rw_value (sv_lock s))"
  using reachable_sv_ok [of excl eff res course v s] by (auto simp: sv_ok_def)

section \<open>Before and after\<close>

text \<open>The moments of one goroutine come in their order, each once.\<close>

lemma seen_split:
  assumes "xs @ m # ys = seen t k"
  shows "case m of
      Arrived _ a \<Rightarrow> xs = []
    | Effect _ a x \<Rightarrow> xs = [Arrived t a]
    | Answered _ x \<Rightarrow> (\<exists>a. xs = [Arrived t a, Effect t a x])"
  using assms by (cases "(t, k)" rule: seen.cases) (auto simp: append_eq_Cons_conv)

lemma earlier_moments:
  assumes "sv_reachable excl eff res course v s" and "i < length (sv_trace s)" and "goroutine (sv_trace s ! i) = t"
  shows "case sv_trace s ! i of
      Arrived _ a \<Rightarrow> filter (\<lambda>m. goroutine m = t) (take i (sv_trace s)) = []
    | Effect _ a x \<Rightarrow> filter (\<lambda>m. goroutine m = t) (take i (sv_trace s)) = [Arrived t a]
    | Answered _ x \<Rightarrow> (\<exists>a. filter (\<lambda>m. goroutine m = t) (take i (sv_trace s)) = [Arrived t a, Effect t a x])"
proof (rule seen_split)
  have "filter (\<lambda>m. goroutine m = t) (sv_trace s) = seen t (sv_task s t)"
    using reachable_sv_ok [OF assms(1)] by (auto simp: sv_ok_def)
  moreover have "sv_trace s = take i (sv_trace s) @ sv_trace s ! i # drop (Suc i) (sv_trace s)"
    by (rule id_take_nth_drop [OF assms(2)])
  ultimately show "filter (\<lambda>m. goroutine m = t) (take i (sv_trace s)) @ sv_trace s ! i
      # filter (\<lambda>m. goroutine m = t) (drop (Suc i) (sv_trace s)) = seen t (sv_task s t)"
    using assms(3) by (metis (mono_tags, lifting) filter.simps(2) filter_append)
qed

lemma filter_take_nth:
  assumes "filter P (take i ms) = ns" and "n \<in> set ns"
  shows "\<exists>j < i. j < length ms \<and> ms ! j = n"
proof -
  have "n \<in> set (take i ms)" using assms by (metis filter_is_subset subsetD)
  then obtain j where "j < length (take i ms)" "take i ms ! j = n" by (auto simp: in_set_conv_nth)
  then show ?thesis by auto
qed

lemma effect_after_arrival:
  assumes "sv_reachable excl eff res course v s" and "i < length (sv_trace s)" and "sv_trace s ! i = Effect t a x"
  shows "\<exists>j < i. sv_trace s ! j = Arrived t a"
proof -
  have "filter (\<lambda>m. goroutine m = t) (take i (sv_trace s)) = [Arrived t a]"
    using earlier_moments [OF assms(1,2), of t] assms(3) by simp
  from filter_take_nth [OF this, of "Arrived t a"] show ?thesis by auto
qed

lemma answer_after_effect:
  assumes "sv_reachable excl eff res course v s" and "i < length (sv_trace s)" and "sv_trace s ! i = Answered t x"
  shows "\<exists>j < i. \<exists>a. sv_trace s ! j = Effect t a x"
proof -
  obtain a where "filter (\<lambda>m. goroutine m = t) (take i (sv_trace s)) = [Arrived t a, Effect t a x]"
    using earlier_moments [OF assms(1,2), of t] assms(3) by auto
  from filter_take_nth [OF this, of "Effect t a x"] show ?thesis by auto
qed

lemma moment_once:
  assumes "sv_reachable excl eff res course v s" and "i < j" and "j < length (sv_trace s)"
    and "sv_trace s ! i = m" and "sv_trace s ! j = n" and "goroutine m = goroutine n"
  shows "\<not> (\<exists>t a b. m = Arrived t a \<and> n = Arrived t b)" and "\<not> (\<exists>t a b x y. m = Effect t a x \<and> n = Effect t b y)"
proof -
  have "m \<in> set (filter (\<lambda>m. goroutine m = goroutine n) (take j (sv_trace s)))"
    using assms(2-4,6) by (auto simp: in_set_conv_nth)
  then show "\<not> (\<exists>t a b. m = Arrived t a \<and> n = Arrived t b)" "\<not> (\<exists>t a b x y. m = Effect t a x \<and> n = Effect t b y)"
    using earlier_moments [OF assms(1,3), of "goroutine n"] assms(5)
    by (auto simp del: set_filter)
qed

section \<open>A request on an idle server\<close>

definition lock_free :: "('v, 'op, 'r) rw_state \<Rightarrow> bool" where
  "lock_free l \<longleftrightarrow> rw_phase l = (\<lambda>_. Outside) \<and> rw_writer l = None \<and> rw_readers l = {}"

lemma lone_call:
  assumes "lock_free l"
  obtains l1 l2 l3 where
    "rw_step excl eff res (l\<lparr>rw_phase := (rw_phase l)(t := Waiting c)\<rparr>) l1" "rw_log l1 = rw_log l" "\<forall>u. \<not> waits l1 u"
    "rw_step excl eff res l1 l2" "rw_log l2 = rw_log l @ [(t, c, res c (rw_value l))]"
    "rw_step excl eff res l2 l3" "rw_log l3 = rw_log l2" "\<forall>u. \<not> waits l3 u" "lock_free l3" "rw_value l3 = eff c (rw_value l)"
proof -
  define w where "w = (if excl c then Some t else None)"
  define rd where "rd = (if excl c then {} else {t})"
  let ?l0 = "l\<lparr>rw_phase := (rw_phase l)(t := Waiting c)\<rparr>"
  let ?l1 = "l\<lparr>rw_writer := w, rw_readers := rd, rw_phase := (rw_phase l)(t := Inside c)\<rparr>"
  let ?log = "rw_log l @ [(t, c, res c (rw_value l))]"
  let ?l2 = "?l1\<lparr>rw_value := eff c (rw_value l), rw_phase := (rw_phase l)(t := Leaving c), rw_log := ?log\<rparr>"
  let ?l3 = "l\<lparr>rw_value := eff c (rw_value l), rw_log := ?log\<rparr>"
  have s1: "rw_step excl eff res ?l0 ?l1"
  proof (cases "excl c")
    case True
    then show ?thesis using rw_lock [of ?l0 t c excl eff res] assms by (cases l) (simp add: lock_free_def w_def rd_def)
  next
    case False
    then show ?thesis using rw_rlock [of ?l0 t c excl eff res] assms by (cases l) (simp add: lock_free_def w_def rd_def)
  qed
  have s2: "rw_step excl eff res ?l1 ?l2"
    using rw_access [of ?l1 t c excl eff res] by simp
  have s3: "rw_step excl eff res ?l2 ?l3"
  proof (cases "excl c")
    case True
    then show ?thesis
      using rw_unlock [of ?l2 t c excl eff res] assms by (cases l) (simp add: lock_free_def w_def rd_def)
  next
    case False
    then show ?thesis
      using rw_runlock [of ?l2 t c excl eff res] assms by (cases l) (simp add: lock_free_def w_def rd_def)
  qed
  show thesis
    using assms by (intro that [OF s1 _ _ s2 _ s3]) (auto simp: lock_free_def waits_def)
qed

text \<open>Whatever the request, it can arrive and take effect before anything else happens, and be answered.\<close>

lemma whole_effect:
  assumes "sv_reachable excl eff res course v s" and "lock_free (sv_lock s)" and "sv_task s t = Unborn"
    and "run_course eff res (course a) (rw_value (sv_lock s)) = (x, w)"
  obtains s' where "sv_reachable excl eff res course v s'" "lock_free (sv_lock s')" "rw_value (sv_lock s') = w"
    "sv_task s' = (sv_task s)(t := Replying a x)" "sv_trace s' = sv_trace s @ [Arrived t a, Effect t a x]"
proof -
  note nxt = sv_next [where excl = excl and eff = eff and res = res and course = course and v = v]
  let ?s1 = "s\<lparr>sv_task := (sv_task s)(t := Serving a), sv_trace := sv_trace s @ [Arrived t a]\<rparr>"
  have r1: "sv_reachable excl eff res course v ?s1" by (rule nxt [OF assms(1) sv_arrive [of s, OF assms(3)]])
  have out: "rw_phase (sv_lock s) t = Outside" using assms(2) by (simp add: lock_free_def)
  show thesis
  proof (cases "course a")
    case (Finish y)
    show ?thesis
      using nxt [OF r1 sv_finish [of ?s1 t a course x]] Finish assms(2,4)
      by (intro that [of "?s1\<lparr>sv_task := (sv_task ?s1)(t := Replying a x), sv_trace := sv_trace ?s1 @ [Effect t a x]\<rparr>"]) auto
  next
    case (Call c k)
    obtain l1 l2 l3 where l:
      "rw_step excl eff res ((sv_lock s)\<lparr>rw_phase := (rw_phase (sv_lock s))(t := Waiting c)\<rparr>) l1"
      "rw_log l1 = rw_log (sv_lock s)" "\<forall>u. \<not> waits l1 u"
      "rw_step excl eff res l1 l2" "rw_log l2 = rw_log (sv_lock s) @ [(t, c, res c (rw_value (sv_lock s)))]"
      "rw_step excl eff res l2 l3" "rw_log l3 = rw_log l2" "\<forall>u. \<not> waits l3 u" "lock_free l3"
      "rw_value l3 = eff c (rw_value (sv_lock s))"
      by (rule lone_call [OF assms(2)])
    let ?s2 = "?s1\<lparr>sv_task := (sv_task ?s1)(t := Calling a c k),
        sv_lock := (sv_lock s)\<lparr>rw_phase := (rw_phase (sv_lock s))(t := Waiting c)\<rparr>\<rparr>"
    have "sv_reachable excl eff res course v ?s2"
      using nxt [OF r1 sv_call [of ?s1 t a course c k]] Call out by simp
    from nxt [OF this sv_move [where l = l1]] l(1-3)
    have "sv_reachable excl eff res course v (?s2\<lparr>sv_lock := l1\<rparr>)" by simp
    from nxt [OF this sv_access [where l = l2 and t = t and c = c and a = a and k = k]] l(2,4,5)
    have "sv_reachable excl eff res course v (?s2\<lparr>sv_lock := l2,
        sv_task := (sv_task s)(t := Replying a (k (res c (rw_value (sv_lock s))))),
        sv_trace := sv_trace s @ [Arrived t a, Effect t a (k (res c (rw_value (sv_lock s))))]\<rparr>)" by simp
    from nxt [OF this sv_move [where l = l3]] l(6-8)
    have "sv_reachable excl eff res course v (?s2\<lparr>sv_lock := l3,
        sv_task := (sv_task s)(t := Replying a (k (res c (rw_value (sv_lock s))))),
        sv_trace := sv_trace s @ [Arrived t a, Effect t a (k (res c (rw_value (sv_lock s))))]\<rparr>)" by (cases s) simp
    then show ?thesis using that l(9,10) Call assms(4) by auto
  qed
qed

lemma whole_answer:
  assumes "sv_reachable excl eff res course v s" and "lock_free (sv_lock s)" and "sv_task s t = Replying a x"
  obtains s' where "sv_reachable excl eff res course v s'" "sv_lock s' = sv_lock s"
    "sv_task s' = (sv_task s)(t := Done a x)" "sv_trace s' = sv_trace s @ [Answered t x]"
proof -
  have "rw_phase (sv_lock s) t = Outside" using assms(2) by (simp add: lock_free_def)
  from sv_next [OF assms(1) sv_answer [OF assms(3) this]] that show thesis by simp
qed

lemma whole_request:
  assumes "sv_reachable excl eff res course v s" and "lock_free (sv_lock s)" and "sv_task s t = Unborn"
    and "run_course eff res (course a) (rw_value (sv_lock s)) = (x, w)"
  obtains s' where "sv_reachable excl eff res course v s'" "lock_free (sv_lock s')" "rw_value (sv_lock s') = w"
    "sv_task s' = (sv_task s)(t := Done a x)"
    "sv_trace s' = sv_trace s @ [Arrived t a, Effect t a x, Answered t x]"
proof -
  obtain s2 where s2: "sv_reachable excl eff res course v s2" "lock_free (sv_lock s2)" "rw_value (sv_lock s2) = w"
    "sv_task s2 = (sv_task s)(t := Replying a x)" "sv_trace s2 = sv_trace s @ [Arrived t a, Effect t a x]"
    by (rule whole_effect [OF assms])
  have "sv_task s2 t = Replying a x" by (simp add: s2(4))
  from whole_answer [OF s2(1,2) this] obtain s3 where "sv_reachable excl eff res course v s3" "sv_lock s3 = sv_lock s2"
    "sv_task s3 = (sv_task s2)(t := Done a x)" "sv_trace s3 = sv_trace s2 @ [Answered t x]" by blast
  then show thesis using that s2(2-5) by simp
qed

section \<open>Handlers that are atomic\<close>

text \<open>
  What a server owes: the lock's discipline, and courses that, run alone, are its handlers.  What it gets: its
  handlers as if they ran one at a time.
\<close>

locale atomic_server = rw_guarded excl eff res
  for excl :: "'op \<Rightarrow> bool" and eff :: "'op \<Rightarrow> 'v \<Rightarrow> 'v" and res :: "'op \<Rightarrow> 'v \<Rightarrow> 'r" +
  fixes course :: "'a \<Rightarrow> ('op, 'r, 'x) course" and handle :: "'a \<Rightarrow> 'v \<Rightarrow> 'x \<times> 'v"
  assumes course_alone: "run_course eff res (course a) v = handle a v"
begin

lemma course_fun: "run_course eff res (course a) = handle a"
  by (rule ext) (rule course_alone)

lemma explained:
  assumes "sv_reachable excl eff res course v s"
  shows "explains handle v (sv_trace s) (rw_value (sv_lock s))"
  using served_explained [OF assms] by (simp add: course_fun)

lemma race_free:
  assumes "sv_reachable excl eff res course v s"
  shows "\<not> races eff (sv_lock s)"
  using reachable_sv_ok [OF assms] no_race by (auto simp: sv_ok_def)

lemma effect_alone:
  assumes "sv_reachable excl eff res course v s" and "lock_free (sv_lock s)" and "sv_task s t = Unborn"
    and "handle a (rw_value (sv_lock s)) = (x, w)"
  obtains s' where "sv_reachable excl eff res course v s'" "lock_free (sv_lock s')" "rw_value (sv_lock s') = w"
    "sv_task s' = (sv_task s)(t := Replying a x)" "sv_trace s' = sv_trace s @ [Arrived t a, Effect t a x]"
  using whole_effect [OF assms(1-3)] assms(4) course_alone by metis

lemma serve_alone:
  assumes "sv_reachable excl eff res course v s" and "lock_free (sv_lock s)" and "sv_task s t = Unborn"
    and "handle a (rw_value (sv_lock s)) = (x, w)"
  obtains s' where "sv_reachable excl eff res course v s'" "lock_free (sv_lock s')" "rw_value (sv_lock s') = w"
    "sv_task s' = (sv_task s)(t := Done a x)"
    "sv_trace s' = sv_trace s @ [Arrived t a, Effect t a x, Answered t x]"
  using whole_request [OF assms(1-3)] assms(4) course_alone by metis

end

end
