(* ===== verification/Concurrent_Sidecar.thy ===== *)
theory Concurrent_Sidecar
  imports Sidecar Served
begin

text \<open>
  The sidecar as \<open>net/http\<close> runs it: every request is handled by a goroutine of its own, and all of
  them share the revocation cache behind its \<open>RWMutex\<close>.  A handler runs on its own until it
  calls the cache, waits for the lock, makes the call, and goes on to its answer.  Shown is that
  every interleaving is explained by handling the requests one at a time, each at some moment
  between its arrival and its answer, and what this means for revocations.
\<close>

section \<open>Where a handler meets the cache\<close>

text \<open>
  The subject \<open>Check\<close> asks the revocation checker about, if it gets there: past the channel
  check and the route, with a checker configured and a subject named.
\<close>

definition asks_revocation :: "(string \<Rightarrow> string option) \<Rightarrow> 'e pep_config \<Rightarrow> http_request \<Rightarrow> string option" where
  "asks_revocation id_from_cert cfg r =
     (if pc_profile cfg = ProfileEastWest
         \<and> (case peer_identity id_from_cert cfg r of
              None \<Rightarrow> True
            | Some caller \<Rightarrow> (case pc_attestor cfg of None \<Rightarrow> True | Some att \<Rightarrow> att caller \<noteq> Some True))
      then None
      else case match_route (pc_routes cfg) (rq_method r) (rq_path r) of
             None \<Rightarrow> None
           | Some rt \<Rightarrow>
               if pc_revocations cfg = None \<or> header r HeaderSubjectID = [] then None
               else Some (header r HeaderSubjectID))"

type_synonym sidecar_course = "(cache_call, bool option, sc_result) course"

definition receive_course :: "string \<Rightarrow> string option \<Rightarrow> sidecar_course" where
  "receive_course secret body =
     (case body of
        None \<Rightarrow> Finish (ScEvents 400 (''read error'' @ [CHR 0x0A]))
      | Some b \<Rightarrow>
          (case verify_set secret (trim_space b) of
             Inl _ \<Rightarrow> Finish (ScEvents 401 (''invalid SET'' @ [CHR 0x0A]))
           | Inr e \<Rightarrow> Call (CallApply e) (\<lambda>_. ScEvents 202 [])))"

definition guard_result ::
  "(string \<Rightarrow> string option) \<Rightarrow> (http_request \<Rightarrow> upstream_response) \<Rightarrow> 'e pep_config
     \<Rightarrow> string \<Rightarrow> http_request \<Rightarrow> sc_result"
where
  "guard_result idc proxy g fresh r =
     (case middleware idc g fresh r of
        None \<Rightarrow> ScPanic
      | Some (h, Reply st txt) \<Rightarrow> ScRefused h st txt
      | Some (h, Forward f) \<Rightarrow> ScProxied h (modify_response (pc_profile g) (proxy f)))"

definition sc_course ::
  "(string \<Rightarrow> string option) \<Rightarrow> (http_request \<Rightarrow> upstream_response) \<Rightarrow> sc_config
     \<Rightarrow> (request \<Rightarrow> 'e + response) \<Rightarrow> arrival \<Rightarrow> sidecar_course"
where
  "sc_course idc proxy cfg pdp a =
     (case a of (now, fresh, r) \<Rightarrow>
        if is_events cfg r then receive_course (sc_caep_secret cfg) (fst (read_all (rq_body r)))
        else if is_health r then Finish ScHealth
        else (let g = guard_config cfg pdp now new_cache in
              case asks_revocation idc g r of
                None \<Rightarrow> Finish (guard_result idc proxy g fresh r)
              | Some s \<Rightarrow> Call (CallIsRevoked s)
                  (\<lambda>ans. guard_result idc proxy (g\<lparr>pc_revocations := Some (\<lambda>_. ans = Some True)\<rparr>) fresh r)))"

text \<open>Run without interference, a handler's course is the handler.\<close>

lemma swap_revocations [simp]:
  "peer_identity idc (p\<lparr>pc_revocations := v\<rparr>) r = peer_identity idc p r"
  "check_l2 (p\<lparr>pc_revocations := v\<rparr>) r rt cid caller = check_l2 p r rt cid caller"
proof -
  have "make_request (p\<lparr>pc_revocations := v\<rparr>) = make_request p"
    by (intro ext) (simp add: make_request_def pep_subject_def pep_context_def Let_def)
  then have "build_request (p\<lparr>pc_revocations := v\<rparr>) = build_request p"
    by (intro ext) (simp add: build_request_def)
  moreover have "try_token (p\<lparr>pc_revocations := v\<rparr>) = try_token p"
    by (simp add: try_token_def [abs_def])
  ultimately show "check_l2 (p\<lparr>pc_revocations := v\<rparr>) r rt cid caller = check_l2 p r rt cid caller"
    unfolding check_l2_def by (auto split: prod.split option.split)
qed (simp add: peer_identity_def)

text \<open>\<open>Check\<close> depends on the checker only through its verdict on the subject it asks about.\<close>

lemma check_asks:
  assumes "v = None \<longleftrightarrow> pc_revocations p = None"
    and "\<And>s. asks_revocation idc p r = Some s \<Longrightarrow> the v s = the (pc_revocations p) s"
  shows "check idc (p\<lparr>pc_revocations := v\<rparr>) fresh r = check idc p fresh r"
proof -
  have "check_l1 (p\<lparr>pc_revocations := v\<rparr>) r cid caller = check_l1 p r cid caller"
    if "\<not> (pc_profile p = ProfileEastWest \<and>
         (case peer_identity idc p r of None \<Rightarrow> True
          | Some caller \<Rightarrow> (case pc_attestor p of None \<Rightarrow> True | Some att \<Rightarrow> att caller \<noteq> Some True)))" for cid caller
    using assms that
    by (auto simp: check_l1_def revoked_subject_def asks_revocation_def split: option.splits if_splits)
  then show ?thesis by (auto simp: check_def Let_def split: option.split)
qed

lemma guard_of_cache:
  "guard_config cfg pdp now c = (guard_config cfg pdp now new_cache)
     \<lparr>pc_revocations := (if sc_caep_secret cfg = [] then None else Some (is_revoked c))\<rparr>"
  by (simp add: guard_config_def)

lemma guard_result_asks:
  assumes "v = None \<longleftrightarrow> pc_revocations p = None"
    and "\<And>s. asks_revocation idc p r = Some s \<Longrightarrow> the v s = the (pc_revocations p) s"
  shows "guard_result idc proxy (p\<lparr>pc_revocations := v\<rparr>) fresh r = guard_result idc proxy p fresh r"
  using check_asks [OF assms]
  by (cases "check idc p fresh r") (auto simp: guard_result_def middleware_def split: prod.split mw_action.split)

lemma asks_swap:
  assumes "v = None \<longleftrightarrow> pc_revocations p = None"
  shows "asks_revocation idc (p\<lparr>pc_revocations := v\<rparr>) r = asks_revocation idc p r"
  using assms by (simp add: asks_revocation_def cong: option.case_cong if_cong)

lemma asks_of_cache:
  "asks_revocation idc (guard_config cfg pdp now c) r = asks_revocation idc (guard_config cfg pdp now new_cache) r"
  unfolding guard_of_cache [of cfg pdp now c] by (rule asks_swap) (simp add: guard_config_def)

lemma course_handle:
  "run_course cache_effect cache_answer (sc_course idc proxy cfg pdp (now, fresh, r)) c = sc_handle idc proxy cfg pdp now fresh r c"
proof (cases "is_events cfg r \<or> is_health r")
  case True
  then show ?thesis
    by (auto simp: sc_course_def sc_handle_def receive_course_def receive_def split: option.split sum.split)
next
  case False
  let ?g = "guard_config cfg pdp now c"
  have h: "sc_handle idc proxy cfg pdp now fresh r c = (guard_result idc proxy ?g fresh r, c)"
  proof -
    have "is_events cfg r = False" "is_health r = False" "pc_profile ?g = sc_profile cfg"
      using False by (simp_all add: guard_config_def)
    then show ?thesis by (simp only: sc_handle_def guard_result_def if_False)
  qed
  let ?idle = "guard_config cfg pdp now new_cache"
  show ?thesis
  proof (cases "asks_revocation idc ?idle r")
    case None
    have "guard_result idc proxy (?g\<lparr>pc_revocations := pc_revocations ?idle\<rparr>) fresh r = guard_result idc proxy ?g fresh r"
    proof (rule guard_result_asks)
      show "pc_revocations ?idle = None \<longleftrightarrow> pc_revocations ?g = None" by (simp add: guard_config_def)
    qed (simp add: None asks_of_cache [of idc cfg pdp now c])
    moreover have "?g\<lparr>pc_revocations := pc_revocations ?idle\<rparr> = ?idle" by (simp add: guard_config_def)
    ultimately have "guard_result idc proxy ?idle fresh r = guard_result idc proxy ?g fresh r" by (simp only:)
    moreover have "sc_course idc proxy cfg pdp (now, fresh, r) = Finish (guard_result idc proxy ?idle fresh r)"
      using False None by (simp add: sc_course_def Let_def)
    ultimately show ?thesis by (metis h run_course.simps(1))
  next
    case (Some s)
    then have "sc_caep_secret cfg \<noteq> []"
      by (auto simp: asks_revocation_def guard_config_def split: if_splits option.splits)
    then have "pc_revocations ?g = Some (is_revoked c)" by (simp add: guard_config_def)
    then have "guard_result idc proxy (?g\<lparr>pc_revocations := Some (\<lambda>_. is_revoked c s)\<rparr>) fresh r =
        guard_result idc proxy ?g fresh r"
      by (intro guard_result_asks) (simp_all add: Some asks_of_cache [of idc cfg pdp now c])
    moreover have "?g\<lparr>pc_revocations := x\<rparr> = ?idle\<lparr>pc_revocations := x\<rparr>" for x by (simp add: guard_config_def)
    ultimately have "guard_result idc proxy (?idle\<lparr>pc_revocations := Some (\<lambda>_. is_revoked c s)\<rparr>) fresh r =
        guard_result idc proxy ?g fresh r" by (simp only:)
    then show ?thesis using False Some by (simp add: sc_course_def h Let_def)
  qed
qed

section \<open>Every interleaving\<close>

interpretation sidecar: atomic_server cache_exclusive cache_effect cache_answer
    "sc_course idc proxy cfg pdp" "\<lambda>(now, fresh, r). sc_handle idc proxy cfg pdp now fresh r" for idc proxy cfg pdp
  by unfold_locales (auto simp: course_handle split: prod.split)

abbreviation sc_reachable ::
  "(string \<Rightarrow> string option) \<Rightarrow> (http_request \<Rightarrow> upstream_response) \<Rightarrow> sc_config \<Rightarrow> (request \<Rightarrow> 'e + response)
     \<Rightarrow> (cache, arrival, cache_call, bool option, sc_result) server \<Rightarrow> bool"
where
  "sc_reachable idc proxy cfg pdp \<equiv>
     sv_reachable cache_exclusive cache_effect cache_answer (sc_course idc proxy cfg pdp) new_cache"

text \<open>The requests in the order in which they took effect, with their results.\<close>

fun effects :: "(arrival, sc_result) moment list \<Rightarrow> (arrival \<times> sc_result) list" where
  "effects [] = []"
| "effects (Effect t a x # ms) = (a, x) # effects ms"
| "effects (Arrived t a # ms) = effects ms"
| "effects (Answered t x # ms) = effects ms"

lemma explains_run:
  assumes "explains (\<lambda>(now, fresh, r). sc_handle idc proxy cfg pdp now fresh r) c ms c'"
  shows "sc_run idc proxy cfg pdp (map fst (effects ms)) c = (map snd (effects ms), c')"
  using assms by (induction ms arbitrary: c rule: effects.induct) (auto split: prod.splits)

text \<open>
  C8.  The goroutines of a sidecar, however they interleave, answer as if requests and pushed
  events had been handled one at a time: there is an order of them that explains every result and
  the cache, in which each takes effect between its arrival and its answer; and the cache is free of
  data races.
\<close>

theorem concurrent_sidecar:
  assumes "sc_reachable idc proxy cfg pdp s"
  shows "sc_run idc proxy cfg pdp (map fst (effects (sv_trace s))) new_cache =
       (map snd (effects (sv_trace s)), rw_value (sv_lock s))
   \<and> (\<forall>j t x. j < length (sv_trace s) \<and> sv_trace s ! j = Answered t x \<longrightarrow>
        (\<exists>h i a. h < i \<and> i < j \<and> sv_trace s ! h = Arrived t a \<and> sv_trace s ! i = Effect t a x))
   \<and> \<not> races cache_effect (sv_lock s)"
proof (intro conjI allI impI)
  fix j t x
  assume j: "j < length (sv_trace s) \<and> sv_trace s ! j = Answered t x"
  then obtain i a where i: "i < j" "sv_trace s ! i = Effect t a x" using answer_after_effect [OF assms] by blast
  then obtain h where "h < i" "sv_trace s ! h = Arrived t a" using effect_after_arrival [OF assms] j by (meson less_trans)
  then show "\<exists>h i a. h < i \<and> i < j \<and> sv_trace s ! h = Arrived t a \<and> sv_trace s ! i = Effect t a x"
    using i by blast
qed (use explains_run [OF sidecar.explained [OF assms]] sidecar.race_free [OF assms] in blast)+

text \<open>Two requests served one after the other.\<close>

lemma two_in_turn:
  assumes "sc_handle idc proxy cfg pdp n1 f1 r1 new_cache = (x1, c1)" and "sc_handle idc proxy cfg pdp n2 f2 r2 c1 = (x2, c2)"
  obtains s where "sc_reachable idc proxy cfg pdp s"
    "sv_trace s = [Arrived 0 (n1, f1, r1), Effect 0 (n1, f1, r1) x1, Answered 0 x1,
       Arrived 1 (n2, f2, r2), Effect 1 (n2, f2, r2) x2, Answered 1 x2]"
proof -
  let ?i = "sv_init new_cache :: (cache, arrival, cache_call, bool option, sc_result) server"
  have i: "lock_free (sv_lock ?i)" "sv_task ?i = (\<lambda>_. Unborn)" "rw_value (sv_lock ?i) = new_cache" "sv_trace ?i = []"
    by (simp_all add: lock_free_def sv_init_def rw_init_def)
  obtain s1 where s1: "sc_reachable idc proxy cfg pdp s1" "lock_free (sv_lock s1)" "rw_value (sv_lock s1) = c1"
    "sv_task s1 = (sv_task ?i)(0 := Done (n1, f1, r1) x1)"
    "sv_trace s1 = sv_trace ?i @ [Arrived 0 (n1, f1, r1), Effect 0 (n1, f1, r1) x1, Answered 0 x1]"
    by (rule sidecar.serve_alone [of idc proxy cfg pdp new_cache ?i 0 "(n1, f1, r1)" x1 c1])
      (simp_all add: i sv_start assms)
  show thesis
    by (rule sidecar.serve_alone [OF s1(1,2), of 1 "(n2, f2, r2)" x2 c2])
      (use s1(3-5) i assms that in simp_all)
qed

lemma concurrent_sidecar_witness:
  "\<exists>s. sc_reachable (\<lambda>_. None) echo_upstream sample_sidecar open_pdp s
     \<and> (\<exists>x y. effects (sv_trace s) = [((0, [], sample_push), x), ((0, [], sample_http), y)]
          \<and> sc_run (\<lambda>_. None) echo_upstream sample_sidecar open_pdp [(0, [], sample_push), (0, [], sample_http)] new_cache
              = ([x, y], rw_value (sv_lock s)))"
proof -
  obtain x c where x: "sc_handle (\<lambda>_. None) echo_upstream sample_sidecar open_pdp 0 [] sample_push new_cache = (x, c)"
    by fastforce
  obtain y d where y: "sc_handle (\<lambda>_. None) echo_upstream sample_sidecar open_pdp 0 [] sample_http c = (y, d)"
    by fastforce
  obtain s where s: "sc_reachable (\<lambda>_. None) echo_upstream sample_sidecar open_pdp s"
    "effects (sv_trace s) = [((0, [], sample_push), x), ((0, [], sample_http), y)]"
    using two_in_turn [OF x y] by (metis effects.simps)
  then show ?thesis using concurrent_sidecar [OF s(1)] by auto
qed

text \<open>Pushes that carry an authentic event which revokes, or restores, a subject.\<close>

definition pushes :: "string \<Rightarrow> sc_config \<Rightarrow> string \<Rightarrow> arrival \<Rightarrow> bool" where
  "pushes ty cfg s a \<longleftrightarrow>
     (case a of (now, fresh, r) \<Rightarrow> is_events cfg r
        \<and> (\<exists>e \<in> set (accepted (sc_caep_secret cfg) (fst (read_all (rq_body r)))). ev_sub e = s \<and> ev_type e = ty))"

lemma push_revokes:
  assumes "pushes EventSessionRevoked cfg s (now, fresh, r)"
  shows "is_revoked (snd (sc_handle idc proxy cfg pdp now fresh r c)) s"
  using assms accepted_cases [of "sc_caep_secret cfg" "fst (read_all (rq_body r))"]
  by (auto simp: pushes_def handle_cache receive_cache rc.step_spec speaks_def)

lemma other_keeps_revoked:
  assumes "is_revoked c s" and "\<not> pushes EventSessionRestored cfg s (now, fresh, r)"
  shows "is_revoked (snd (sc_handle idc proxy cfg pdp now fresh r c)) s"
  using assms accepted_cases [of "sc_caep_secret cfg" "fst (read_all (rq_body r))"]
  by (auto simp: pushes_def handle_cache receive_cache rc.step_spec speaks_def)

lemma stays_revoked:
  assumes "explains (\<lambda>(now, fresh, r). sc_handle idc proxy cfg pdp now fresh r) c ms c'" and "is_revoked c s"
    and "\<And>t a x. Effect t a x \<in> set ms \<Longrightarrow> \<not> pushes EventSessionRestored cfg s a"
  shows "is_revoked c' s"
  using assms
proof (induction ms arbitrary: c rule: effects.induct)
  case (2 t a x ms)
  obtain now fresh r where a: "a = (now, fresh, r)" by (cases a) auto
  have "\<not> pushes EventSessionRestored cfg s (now, fresh, r)" using 2(4) [of t a x] by (simp add: a)
  then have "is_revoked (snd (sc_handle idc proxy cfg pdp now fresh r c)) s"
    using 2(3) by (intro other_keeps_revoked)
  moreover have "explains (\<lambda>(now, fresh, r). sc_handle idc proxy cfg pdp now fresh r)
      (snd (sc_handle idc proxy cfg pdp now fresh r c)) ms c'" using 2(2) by (simp add: a)
  moreover have "\<not> pushes EventSessionRestored cfg s b" if "Effect u b y \<in> set ms" for u b y
    using 2(4) [of u b y] that by simp
  ultimately show ?case using 2(1) by blast
qed auto

text \<open>
  C7.  A revocation is effective at once: after a push of an authentic revocation has been
  answered, no request in the subject's name that arrives is proxied, whatever else the sidecar
  is handling, until a restoration of that subject arrives; restorations that were answered
  before the push arrived do not matter.
\<close>

theorem revocation_immediate:
  assumes "sc_reachable idc proxy cfg pdp s" and "i < j" and "j < k" and "k < l" and "l < length (sv_trace s)"
    and "sv_trace s ! i = Arrived te signal" and "pushes EventSessionRevoked cfg (header r HeaderSubjectID) signal"
    and "sv_trace s ! j = Answered te acknowledged"
    and "sv_trace s ! k = Arrived t (now, fresh, r)" and "header r HeaderSubjectID \<noteq> []"
    and "sv_trace s ! l = Answered t x"
    and "\<And>n u a. n < l \<Longrightarrow> sv_trace s ! n = Arrived u a
           \<Longrightarrow> pushes EventSessionRestored cfg (header r HeaderSubjectID) a
           \<Longrightarrow> \<exists>m < i. \<exists>y. sv_trace s ! m = Answered u y"
  shows "x \<noteq> ScProxied hs up"
proof -
  let ?tr = "sv_trace s" and ?h = "\<lambda>(now, fresh, r). sc_handle idc proxy cfg pdp now fresh r"
  note explained = sidecar.explained [OF assms(1)]
  note after = effect_after_arrival [OF assms(1)] and ans = answer_after_effect [OF assms(1)]
    and once = moment_once [OF assms(1)]
  have same: "m = n" if "?tr ! m = Arrived v a" "?tr ! n = Arrived v b" "m < length ?tr" "n < length ?tr" for m n v a b
    using once(1) [of m n] once(1) [of n m] that by (metis goroutine.simps(1) nat_neq_iff)
  obtain je where je: "i < je" "je < j" "?tr ! je = Effect te signal acknowledged"
  proof -
    obtain n a where n: "n < j" "?tr ! n = Effect te a acknowledged" using ans [of j] assms(3-5,8) by auto
    then obtain m where m: "m < n" "?tr ! m = Arrived te a" using after [of n] assms(3-5) by auto
    then have "m = i" using same [of m te a i signal] assms(2-6) n(1) by auto
    then show thesis using that n m assms(6) by auto
  qed
  obtain le where le: "k < le" "le < l" "?tr ! le = Effect t (now, fresh, r) x"
  proof -
    obtain n a where n: "n < l" "?tr ! n = Effect t a x" using ans [of l] assms(5,11) by auto
    then obtain m where m: "m < n" "?tr ! m = Arrived t a" using after [of n] assms(5) by auto
    then have "m = k" using same [of m t a k "(now, fresh, r)"] assms(4,5,9) n(1) by auto
    then show thesis using that n m assms(9) by auto
  qed
  let ?s = "header r HeaderSubjectID" and ?mid = "drop (Suc je) (take le ?tr)"
  have "?tr = take le ?tr @ ?tr ! le # drop (Suc le) ?tr" using le assms(5) by (intro id_take_nth_drop) simp
  moreover have "take le ?tr = take je ?tr @ ?tr ! je # ?mid"
    using id_take_nth_drop [of je "take le ?tr"] je le assms(3,5) by (simp add: min_def)
  ultimately have split: "?tr = take je ?tr @ Effect te signal acknowledged # ?mid @ Effect t (now, fresh, r) x # drop (Suc le) ?tr"
    using je(3) le(3) by (metis append.assoc append_Cons)
  have "explains ?h new_cache (take je ?tr @ Effect te signal acknowledged # ?mid @ Effect t (now, fresh, r) x # drop (Suc le) ?tr)
      (rw_value (sv_lock s))"
    using explained split by metis
  then obtain c1 c3 where c: "explains ?h (snd (?h signal c1)) ?mid c3" "x = fst (sc_handle idc proxy cfg pdp now fresh r c3)"
    by (auto simp: explains_append)
  have quiet: "\<not> pushes EventSessionRestored cfg ?s a" if e: "Effect u a y \<in> set ?mid" for u a y
  proof
    assume p: "pushes EventSessionRestored cfg ?s a"
    obtain n where n: "je < n" "n < le" "?tr ! n = Effect u a y"
    proof -
      obtain m where m: "m < length ?mid" "?mid ! m = Effect u a y" using e by (auto simp: in_set_conv_nth)
      then show thesis using that [of "Suc je + m"] le(2) assms(5) by simp
    qed
    then obtain n' where "n' < n" "?tr ! n' = Arrived u a" using after [of n] le(2) assms(5) by auto
    then obtain m z where m: "m < i" "?tr ! m = Answered u z" using assms(12) [of n' u a] p n le(2) by auto
    then obtain m' b where "m' < m" "?tr ! m' = Effect u b z" using ans [of m] assms(2-5) by auto
    then show False
      using once(2) [of m' n "Effect u b z" "Effect u a y"] n m(1) je(1) le(2) assms(5)
      by (cases a, cases b) auto
  qed
  have "is_revoked (snd (?h signal c1)) ?s"
    using push_revokes assms(7) by (cases signal) auto
  then have "is_revoked c3 ?s" using stays_revoked [OF c(1)] quiet by blast
  moreover have "sc_caep_secret cfg \<noteq> []" using assms(7) by (auto simp: pushes_def is_events_def split: prod.splits)
  ultimately show ?thesis unfolding c(2) by (rule revoked_not_proxied [OF _ assms(10), rotated])
qed

lemma revocation_immediate_witness:
  "\<exists>s x. sc_reachable (\<lambda>_. None) echo_upstream sample_sidecar open_pdp s
     \<and> last (sv_trace s) = Answered 1 x \<and> (\<forall>hs up. x \<noteq> ScProxied hs up)"
proof -
  obtain x c where x: "sc_handle (\<lambda>_. None) echo_upstream sample_sidecar open_pdp 0 [] sample_push new_cache = (x, c)"
    by fastforce
  obtain y d where y: "sc_handle (\<lambda>_. None) echo_upstream sample_sidecar open_pdp 0 [] sample_http c = (y, d)"
    by fastforce
  obtain s where s: "sc_reachable (\<lambda>_. None) echo_upstream sample_sidecar open_pdp s"
    "sv_trace s = [Arrived 0 (0, [], sample_push), Effect 0 (0, [], sample_push) x, Answered 0 x,
       Arrived 1 (0, [], sample_http), Effect 1 (0, [], sample_http) y, Answered 1 y]"
    by (rule two_in_turn [OF x y])
  have acc: "accepted ''k'' (Some (sign_event ''k'' 0 sample_event)) = [sample_event\<lparr>ev_iat := unix 0\<rparr>]"
    by (rule accepted_sample)
  have p: "pushes EventSessionRevoked sample_sidecar ''u-1'' (0, [], sample_push)"
    using acc by (simp add: pushes_def is_events_def sample_push_def sample_sidecar_def sample_event_def)
  have q: "\<not> pushes EventSessionRestored sample_sidecar ''u-1'' a" if "a \<in> {(0, [], sample_push), (0, [], sample_http)}" for a
    using that acc by (auto simp: pushes_def is_events_def sample_push_def sample_http_def sample_sidecar_def sample_event_def
        EventSessionRevoked_def EventSessionRestored_def)
  have u: "header sample_http HeaderSubjectID = ''u-1''" by (simp add: header_def sample_http_def mget_def)
  have "y \<noteq> ScProxied hs up" for hs up
  proof (rule revocation_immediate [OF s(1), of 0 2 3 5 0 "(0, [], sample_push)" sample_http x 1 0 "[]"])
    show "\<exists>m < 0. \<exists>y. sv_trace s ! m = Answered v y"
      if "n < 5" "sv_trace s ! n = Arrived v a" "pushes EventSessionRestored sample_sidecar (header sample_http HeaderSubjectID) a"
      for n v a
      using that q [of a] by (auto simp: s(2) u less_Suc_eq numeral_eq_Suc)
  qed (simp_all add: s(2) p u)
  then show ?thesis using s by fastforce
qed

text \<open>
  Arrival after the acknowledgement is needed: a request that \<open>Check\<close> has taken past the revocation
  checker is proxied even if the revocation is acknowledged before its answer.
\<close>

lemma in_flight_proxied:
  "\<exists>s hs up. sc_reachable (\<lambda>_. None) echo_upstream sample_sidecar open_pdp s
     \<and> sv_trace s = [Arrived 1 (0, [], sample_http), Effect 1 (0, [], sample_http) (ScProxied hs up),
         Arrived 0 (0, [], sample_push), Effect 0 (0, [], sample_push) (ScEvents 202 []), Answered 0 (ScEvents 202 []),
         Answered 1 (ScProxied hs up)]"
proof -
  let ?i = "sv_init new_cache :: (cache, arrival, cache_call, bool option, sc_result) server"
  let ?h = "\<lambda>r c. sc_handle (\<lambda>_. None) echo_upstream sample_sidecar open_pdp 0 [] r c"
  have i: "lock_free (sv_lock ?i)" "sv_task ?i = (\<lambda>_. Unborn)" "rw_value (sv_lock ?i) = new_cache" "sv_trace ?i = []"
    by (simp_all add: lock_free_def sv_init_def rw_init_def)
  have "case ?h sample_http new_cache of (ScProxied hs up, c) \<Rightarrow> True | _ \<Rightarrow> False" by code_simp
  then obtain hs up where p: "?h sample_http new_cache = (ScProxied hs up, new_cache)"
    using handle_cache [of "\<lambda>_. None" echo_upstream sample_sidecar open_pdp 0 "[]" sample_http new_cache]
    by (auto simp: is_events_def sample_http_def split: prod.splits sc_result.splits)
  obtain e where "verify_set ''k'' (trim_space (sign_event ''k'' 0 sample_event)) = Inr e"
    using accepted_sample by (auto simp: accepted_def split: sum.splits)
  then have q: "?h sample_push new_cache = (ScEvents 202 [], cache_apply e new_cache)"
    by (simp add: sc_handle_def is_events_def sample_push_def sample_sidecar_def receive_def)
  obtain s1 where s1: "sc_reachable (\<lambda>_. None) echo_upstream sample_sidecar open_pdp s1" "lock_free (sv_lock s1)"
    "rw_value (sv_lock s1) = new_cache" "sv_task s1 = (sv_task ?i)(1 := Replying (0, [], sample_http) (ScProxied hs up))"
    "sv_trace s1 = sv_trace ?i @ [Arrived 1 (0, [], sample_http), Effect 1 (0, [], sample_http) (ScProxied hs up)]"
    by (rule sidecar.effect_alone [of "\<lambda>_. None" echo_upstream sample_sidecar open_pdp new_cache ?i 1 "(0, [], sample_http)"])
      (simp_all add: i sv_start p)
  obtain s2 where s2: "sc_reachable (\<lambda>_. None) echo_upstream sample_sidecar open_pdp s2" "lock_free (sv_lock s2)"
    "sv_task s2 = (sv_task s1)(0 := Done (0, [], sample_push) (ScEvents 202 []))"
    "sv_trace s2 = sv_trace s1 @ [Arrived 0 (0, [], sample_push), Effect 0 (0, [], sample_push) (ScEvents 202 []),
        Answered 0 (ScEvents 202 [])]"
    by (rule sidecar.serve_alone [OF s1(1,2), of 0 "(0, [], sample_push)"]) (simp_all add: s1(3,4) i q)
  have "sv_task s2 1 = Replying (0, [], sample_http) (ScProxied hs up)" by (simp add: s2(3) s1(4))
  from whole_answer [OF s2(1,2) this] obtain s3 where
    "sc_reachable (\<lambda>_. None) echo_upstream sample_sidecar open_pdp s3" "sv_trace s3 = sv_trace s2 @ [Answered 1 (ScProxied hs up)]"
    by blast
  then show ?thesis by (auto simp: s2(4) s1(5) i)
qed

end
