(* ===== verification/Spec2Isabelle.thy ===== *)
theory Spec2Isabelle
  imports Wire_Types Sidecar Pdp_Cmd Caep_Cmd Spiffe_Tls Sha_Vectors Policy_Enforcement Grpc_Stub Concurrent_Sidecar
begin

text \<open>
  ZTA core: a zero-trust authorization platform in Go, modelled and verified.

  A policy enforcement point (PEP) stands in front of a service and asks a policy decision
  point (PDP) about every request it receives.  The PDP validates the request against the AuthZEN
  contract, hands it to an engine (OPA or OpenFGA), and answers with a decision, a reason, obligations and,
  on an allow, a signed decision token.  The token lets a PEP skip the PDP for the same request
  while it is fresh.  Continuous access evaluation (CAEP) runs beside this: an issuer pushes signed
  session events to receivers, whose revocation cache a PEP consults before anything else can
  allow.  Workloads identify themselves by SPIFFE certificates.  Policies come from the binary
  or from an immutable bundle store.

  \<^bold>\<open>Go and its standard library\<close>
  (modelled because the source's behaviour is theirs; no code under src/ maps to these).
  \<^item> \<open>Zta_Prelude\<close>: strings as byte lists, \<open>strings\<close> and \<open>strconv\<close> functions, maps as sorted
    association lists (\<open>mget\<close>, \<open>mput\<close>, \<open>smap_wf\<close>), 64- and 32-bit wrap-around
    (\<open>to_int64\<close>, \<open>to_int32\<close>), the environment, the fact collections \<open>go_str\<close>, \<open>gmap_simps\<close>,
    \<open>num_simps\<close>.
  \<^item> \<open>Go_Crypto\<close>: base64url, SHA-256 and HMAC, executable in the kernel; \<open>Sha_Vectors\<close> evaluates
    published test vectors.  \<open>Envelope\<close>: the signed
    two-part text of tokens and events; the locale \<open>sealing\<close> needs only the codec's round trip
    and alphabet and is interpreted on base64url (\<open>b64\<close>).
  \<^item> \<open>Go_Utf8\<close>, \<open>Go_Float\<close>, \<open>Go_Json\<close>, \<open>Go_Value\<close>: UTF-8 coercion and escaping, binary64
    reading and shortest printing, the scanner of \<open>encoding/json\<close> as a stack machine, and Go's
    \<open>any\<close> with type assertions, \<open>Marshal\<close>, \<open>Unmarshal\<close> and struct decoding.
    \<open>Go_Typing\<close>: whatever bytes arrive, what the reader returns is well formed.
  \<^item> \<open>Go_Duration\<close>: \<open>time.ParseDuration\<close>.
  \<^item> \<open>Rw_Lock\<close>: \<open>sync.RWMutex\<close> as a step relation \<open>rw_step\<close> of interleaved goroutines.  The locale
    \<open>rw_guarded\<close> gives exclusion, freedom from data races and a sequential history; it is
    interpreted on the revocation cache (\<open>cache_lock\<close>) and the rotating source (\<open>svid_lock\<close>).
    \<open>Served\<close>: requests on goroutines of their own, as \<open>net/http\<close> runs them, around such a value
    (\<open>sv_step\<close>).  The locale \<open>atomic_server\<close> extends \<open>rw_guarded\<close>: handlers behave as if they ran
    one at a time, each between its arrival and its answer; it is interpreted on the sidecar (\<open>sidecar\<close>).

  \<^bold>\<open>The contract and the decision side\<close>.
  \<^item> \<open>AuthZen\<close> (\<open>authz/authzen\<close>): requests, responses, accessors, \<open>Validate\<close>.
    \<open>AuthZen_Json\<close>: their wire form and its round trips.
    \<open>Wire_Types\<close>: values decoded at the edges, and the request a PEP builds, are well typed.
  \<^item> \<open>Token\<close> (\<open>authz/token\<close>): claims, \<open>ResourceDigest\<close>, \<open>Issue\<close>, \<open>Verify\<close>.
  \<^item> \<open>Engine\<close> (\<open>authz/engine\<close>) and \<open>Rebac\<close> (\<open>authz/rebac\<close>): the two engines.  The locale
    \<open>decision_engine\<close> is what the PDP relies on; it is interpreted on OPA (\<open>opa\<close>) and on
    OpenFGA (\<open>fga\<close>).  \<open>Pdp\<close> (\<open>authz/pdp\<close>): \<open>Evaluate\<close> and the assembly of the response.
  \<^item> \<open>Api\<close> (\<open>authz/api\<close>): the HTTP facade.  \<open>Pdp_Client\<close> (\<open>authz/pdpclient\<close>) and \<open>Grpc_Pdp\<close>
    (\<open>authz/grpcpdp\<close>, messages of \<open>proto/authzen/v1\<close>): the transports.  The locale
    \<open>pdp_transport\<close> says that a transport relays requests and decisions; it is interpreted on
    the in-process service (\<open>direct\<close>) and on client, facade and JSON composed (\<open>http\<close>).
    \<open>Grpc_Stub\<close> (\<open>authzen_grpc.pb.go\<close>): the generated stub, handler and registration between the two.
  \<^item> \<open>Rego\<close> (\<open>policies/main.rego\<close>, \<open>global\<close>, \<open>lib\<close>, \<open>profiles\<close>, and the domain of \<open>policyfixture.go\<close>):
    the embedded policy, rule by rule, as the prepared query the OPA engine evaluates.
    \<open>Rego_Proofs\<close>: its schema against \<open>Validate\<close>, and what a PDP that runs it decides.

  \<^bold>\<open>The enforcement side\<close>.
  \<^item> \<open>Pep\<close> (\<open>authz/pep\<close>): \<open>New\<close>, \<open>Check\<close> with its rungs in the code's order, the request it
    builds, the token fast path, \<open>classify\<close>, and the middleware.  \<open>Pep_Proofs\<close>: its theorems.
    \<open>allow_grounds\<close> is the abstract specification of \<open>Check\<close>.
  \<^item> \<open>Caep\<close> (\<open>signals/caep\<close>): events, receiver, transmitter, cache; the cache as a step relation
    \<open>rstep\<close> with its reachable states; the locale \<open>revocation_store\<close>, interpreted as \<open>rc\<close>.
    \<open>Caep_Cmd\<close> (\<open>cmd/caepemit\<close>).
  \<^item> \<open>Pip\<close> (\<open>ports/pip\<close>, \<open>testsupport/mock\<close>): the seams and their mocks; the locale
    \<open>workload_attestor\<close>, interpreted on the mock (\<open>mock\<close>) and, in \<open>Sidecar\<close>, on the sidecar's
    attestor (\<open>trust_domain\<close>).
  \<^item> \<open>Sidecar\<close> (\<open>cmd/zta-pep\<close>): configuration, start-up, and the handler over a sequence of
    requests and pushed events.
    \<open>Concurrent_Sidecar\<close>: the same handler as a course that meets the cache at one call, its goroutines
    in every interleaving, and when a revocation takes effect.
  \<^item> \<open>Policy_Enforcement\<close>: a PEP before the embedded policy, hop gates and step-up; assurance levels
    as an instance of \<open>linorder\<close>, with the rankings of Go and of Rego as two readings of them.

  \<^bold>\<open>Identity, policies, assembly\<close>.
  \<^item> \<open>Spiffe\<close> (\<open>identity/spiffe/ca.go\<close>, \<open>source.go\<close>): minting and rotation, the loop included.
    \<open>Spiffe_Tls\<close>: the authority, mTLS configurations, sources, SVID files (\<open>pem.go\<close>).
  \<^item> \<open>Policies\<close> (\<open>policies/policies.go\<close>, \<open>policyfixture\<close>): the embedded policies.
    \<open>Bundles\<close> (\<open>policystore/bundlestore\<close>, \<open>cmd/bundlepush\<close>): the store's reader and publisher.
  \<^item> \<open>Services\<close> (\<open>services\<close>): PDP and TLS assembly.  \<open>Pdp_Cmd\<close> (\<open>cmd/pdp\<close>): the PDP process.

  \<^bold>\<open>What is shown\<close>.  \<open>Check\<close> allows exactly on \<open>allow_grounds\<close>, never panics once \<open>New\<close> has
  accepted the configuration, decides its cheap rungs without the PDP, and fails closed; the
  middleware turns each outcome into the reply or the forwarded request.  The PDP
  allows exactly the conforming requests its engine grants, and this survives both transports;
  engines fail closed.  Tokens are authentic, expire, and bind what was decided, up to hash
  collisions that the statements name.  Requests and responses round-trip through JSON up to the
  normalisation the code performs; what is read off the wire is well typed.  A receiver's cache
  is the fold of the authentic events, in order, and a revoked subject is refused.  Start-up of
  the PDP and of the sidecar implies what each then serves.  The embedded policy allows exactly the
  conforming requests that pass its gates and whose domain grants them; its schema and the Go
  validator agree rule by rule, and where they do not is stated.  Concurrent use of the cache and
  of the rotating source, and of the sidecar as a whole, is explained by a sequential history.  This theory composes the parts:
  policy to forwarded request, PDP to PEP tokens, signals against decisions.

  \<^bold>\<open>Bounds and termination\<close>.  Nothing runs on fuel.  Readers recurse on the remaining text; the
  JSON reader refuses nesting beyond \<open>max_depth\<close> (10000, as \<open>encoding/json\<close> does), and
  statements about values that cross a transport therefore bound their depth (\<open>fits\<close>).  Times and
  durations are integers at nanosecond resolution; token lifetimes and retention are cut to 64
  bits where the code multiplies, and the lifetime that gRPC carries to 32.  The
  rotation loop is a partial function on the stream of its wake-ups; it ends exactly
  if it is cancelled.

  \<^bold>\<open>Arguments of the model\<close>.  OPA (compile, query, bundle reader; where the engine runs the embedded
  policy the query is \<open>rego_query\<close>, whose own arguments are the adopter's domain verdicts and the
  quoting verb of OPA's \<open>sprintf\<close>; that an undefined argument of a negated call leaves its rule
  undefined follows OPA's compiler, which evaluates such arguments first), OpenFGA's HTTP exchange,
  \<open>structpb\<close>, the SPIFFE library and X.509, the minio client, the YAML reader, \<open>url.Parse\<close>,
  the embedded file system, the upstream behind the proxy, clocks, randomness and
  environment.  Laws assumed of them are named (\<open>structpb_ok\<close>, \<open>s3_ok\<close>, \<open>decision_ok\<close>) and
  each theorem with one has a witness on a concrete instance.

  \<^bold>\<open>Not modelled\<close>.  The protobuf runtime, reflection methods and raw descriptors in
  \<open>proto/authzen/v1\<close>; sockets, timeouts, contexts and logging; headers with several values; path
  cleaning and redirects of \<open>http.ServeMux\<close>; error texts of libraries; constructors that only
  pack their arguments.  Handlers are atomic
  steps of the histories in \<open>Sidecar\<close>; \<open>Concurrent_Sidecar\<close> shows that every interleaving of their
  goroutines has such a history.  The PDP, the upstream and the clock are functions there: what
  they do between a request's arrival and its answer is not interleaved further.  Secrecy of keys is not
  stated: authenticity theorems say that an accepted text carries the HMAC of its payload under
  the configured secret.
\<close>

section \<open>From policy to forwarded request\<close>

lemma forwarded_granted:
  assumes "pc_pdp p = Some (client_evaluate (to_facade fq je (evaluate (eval_opa q) i now)) base)"
    and "pc_verifier p = None" and "issuer_ok i"
    and "\<forall>v d. eval_opa q v = Inr d \<longrightarrow> decision_ok d"
    and "texts_ok p" and "http_ok r" and "body_shallow r" and "\<And>c i. idc c = Some i \<Longrightarrow> valid_utf8 i"
    and "check idc p fresh r = Some (out, r')" and "oc_kind out = Allow"
  shows "passes_l0 idc p r \<and> \<not> revoked_subject p r
     \<and> (\<exists>rt req. match_route (pc_routes p) (rq_method r) (rq_path r) = Some rt
          \<and> fst (build_request p r rt (correlation fresh r) (caller_of idc p r)) = Some req
          \<and> conforms req \<and> opa_grants q (VObj (input_map req)))"
proof -
  obtain rt req where g: "passes_l0 idc p r" "\<not> revoked_subject p r"
    "match_route (pc_routes p) (rq_method r) (rq_path r) = Some rt"
    "fst (build_request p r rt (correlation fresh r) (caller_of idc p r)) = Some req"
    "token_grounds p r req \<or> pdp_grounds p req"
    using check_allow(1) [OF assms(9)] assms(10) by (auto simp: allow_grounds_def)
  have "pdp_grounds p req" using g(5) assms(2) by (auto simp: token_grounds_def)
  moreover have f: "fits req"
    using g(3,4) assms(5-7) correlation_valid [OF assms(6)] caller_valid [OF assms(6,8)]
    by (intro request_ok_fits built_request_ok [of p r rt]) (auto simp: match_route_def caller_of_def find_Some_iff)
  moreover have "svc_fits (evaluate (eval_opa q) i now) req"
    using f assms(3,4) by (intro evaluate_svc_fits) auto
  ultimately obtain r2 s where s: "same_request req r2" "evaluate (eval_opa q) i now r2 = Inr s" "decision s"
    using http.pep_allow_grounded [OF assms(1)] by blast
  then have "conforms r2 \<and> opa_grants q (VObj (input_map r2))"
    using opa.pdp_allows_iff [of r2 q i now] f same_request_facts(1) [OF s(1)] by auto
  then have "conforms req \<and> opa_grants q (VObj (input_map req))"
    using same_request_facts(2,3) [OF s(1)] validate_None by metis
  then show ?thesis using g by blast
qed

text \<open>
  C2.  End to end: a PEP that asks the PDP over HTTP and accepts no decision tokens allows a
  request only if its route, its caller and its subject pass the earlier rungs, and the contract
  request it built conforms and is granted by the policy engine in its JSON form.  The
  configured texts, the headers and caller ids are valid UTF-8, and the body is not nested so deep
  that the request around it could not be read back.
\<close>

theorem forwarded_only_if_policy_grants:
  assumes "pc_pdp p = Some (client_evaluate (to_facade fq je (evaluate (eval_opa q) i now)) base)"
    and "pc_verifier p = None" and "issuer_ok i"
    and "\<forall>v d. eval_opa q v = Inr d \<longrightarrow> decision_ok d"
    and "texts_ok p" and "http_ok r" and "body_shallow r" and "\<And>c i. idc c = Some i \<Longrightarrow> valid_utf8 i"
    and "check idc p fresh r = Some (out, r')" and "oc_kind out = Allow"
  shows "passes_l0 idc p r \<and> \<not> revoked_subject p r
     \<and> (\<exists>rt req. match_route (pc_routes p) (rq_method r) (rq_path r) = Some rt
          \<and> fst (build_request p r rt (correlation fresh r) (caller_of idc p r)) = Some req
          \<and> conforms req \<and> opa_grants q (VObj (input_map req)))"
  by (rule forwarded_granted [OF assms])

definition open_policy :: "unit prepared" where
  "open_policy v = Inr [[VObj [(''allow'', VBool True), (''reason_code'', VStr ''ok'')]]]"

definition e2e_pep_for :: "unit prepared \<Rightarrow> unit client_error pep_config" where
  "e2e_pep_for q = \<lparr>pc_profile = ProfileEdge, pc_id = ''edge-1'', pc_routes = [sample_route],
     pc_pdp = Some (client_evaluate (to_facade id id (evaluate (eval_opa q) sample_issuer 0)) ''http://pdp''),
     pc_attestor = None, pc_require_svid = False, pc_verifier = None, pc_revocations = None\<rparr>"

abbreviation e2e_pep :: "unit client_error pep_config" where
  "e2e_pep \<equiv> e2e_pep_for open_policy"

definition e2e_request :: request where
  "e2e_request = make_request e2e_pep sample_http sample_route (correlation [] sample_http) [] []"

lemma open_policy_ok: "\<forall>v d. eval_opa open_policy v = Inr d \<longrightarrow> decision_ok d"
  by (auto simp: eval_opa_def open_policy_def decision_ok_def parse_decision_def get_str_def get_arr_def
      mget_def ascii_def intro!: ascii_valid)

lemma e2e_request_explicit:
  "e2e_request = \<lparr>
     req_subject = \<lparr>subj_type = ''user'', subj_id = ''u-1'', subj_props = Some [(''auth_assurance_level'', VStr [])]\<rparr>,
     req_action = \<lparr>act_name = ''wallet:settle'', act_props = Some [(''method'', VStr ''POST'')]\<rparr>,
     req_resource = \<lparr>res_type = ''wallet:account'', res_id = [], res_props = Some []\<rparr>,
     req_context = Some [(''authz_profile'', VStr ''edge''), (''correlation_id'', VStr ''cid-''),
       (''pep'', VObj [(''id'', VStr ''edge-1'')]), (''source_ip'', VStr ''10.0.0.7'')]\<rparr>"
  by code_simp

lemma e2e_request_fits: "fits e2e_request"
  by (auto simp: fits_def wf_request_def e2e_request_explicit smap_wf_def ascii_def request_depth_def
      max_depth_def intro!: ascii_valid)

lemma e2e_request_conforms: "conforms e2e_request"
proof -
  have "all_issues e2e_request = []" unfolding e2e_request_explicit by code_simp
  then show ?thesis by (simp add: all_issues_Nil)
qed

lemma e2e_ladder:
  "passes_l0 (\<lambda>_. None) (e2e_pep_for q) r" "\<not> revoked_subject (e2e_pep_for q) r"
  "rq_method r = ''POST'' \<Longrightarrow> rq_path r = ''/settle'' \<Longrightarrow>
     match_route (pc_routes (e2e_pep_for q)) (rq_method r) (rq_path r) = Some sample_route"
  "pc_verifier (e2e_pep_for q) = None" "pc_profile (e2e_pep_for q) = ProfileEdge" "texts_ok (e2e_pep_for q)"
  by (auto simp: passes_l0_def e2e_pep_for_def profile_defs revoked_subject_def match_route_def sample_route_def
      texts_ok_def ascii_def intro!: ascii_valid)

lemma e2e_build:
  "fst (build_request (e2e_pep_for q) sample_http sample_route (correlation [] sample_http)
     (caller_of (\<lambda>_. None) (e2e_pep_for q) sample_http)) = Some e2e_request"
proof -
  have "fst (build_request (e2e_pep_for open_policy) sample_http sample_route (correlation [] sample_http)
     (caller_of (\<lambda>_. None) (e2e_pep_for open_policy) sample_http)) = Some e2e_request" by code_simp
  moreover have "make_request (e2e_pep_for q) = make_request (e2e_pep_for open_policy)"
    by (intro ext) (simp add: make_request_def pep_subject_def pep_context_def e2e_pep_for_def)
  then have "build_request (e2e_pep_for q) r rt cid c = build_request (e2e_pep_for open_policy) r rt cid c" for r rt cid c
    by (simp add: build_request_def)
  moreover have "caller_of (\<lambda>_. None) (e2e_pep_for q) sample_http = caller_of (\<lambda>_. None) (e2e_pep_for open_policy) sample_http"
    by (simp add: caller_of_def peer_identity_def e2e_pep_for_def)
  ultimately show ?thesis by simp
qed

lemma e2e_allowed:
  assumes "\<forall>v d. eval_opa q v = Inr d \<longrightarrow> decision_ok d" and "opa_grants q (VObj (input_map e2e_request))"
  shows "\<exists>out r'. check (\<lambda>_. None) (e2e_pep_for q) [] sample_http = Some (out, r') \<and> oc_kind out = Allow"
proof -
  have f: "svc_fits (evaluate (eval_opa q) sample_issuer 0) e2e_request"
    using e2e_request_fits sample_issuer_ok assms(1) by (intro evaluate_svc_fits) auto
  have a: "\<exists>s. evaluate (eval_opa q) sample_issuer 0 r2 = Inr s \<and> decision s"
    if "same_request e2e_request r2" for r2
    using opa.pdp_allows_iff [of r2 q sample_issuer 0] same_request_facts(1-3) [OF that] e2e_request_fits
      e2e_request_conforms assms(2) validate_None by metis
  obtain resp where resp: "client_evaluate (to_facade id id (evaluate (eval_opa q) sample_issuer 0))
      ''http://pdp'' e2e_request = Inr resp"
    using http.delivers [OF e2e_request_fits f] a by blast
  then obtain r2 s where "same_request e2e_request r2" "evaluate (eval_opa q) sample_issuer 0 r2 = Inr s"
    "agrees resp s" using http.relays [OF e2e_request_fits f] by blast
  then have "decision resp" using a by (fastforce simp: agrees_def)
  then have "pdp_grounds (e2e_pep_for q) e2e_request" using resp by (simp add: pdp_grounds_def e2e_pep_for_def)
  moreover have "rq_method sample_http = ''POST''" "rq_path sample_http = ''/settle''"
    by (simp_all add: sample_http_def)
  ultimately have g: "allow_grounds (\<lambda>_. None) (e2e_pep_for q) [] sample_http"
    using e2e_ladder e2e_build unfolding allow_grounds_def by blast
  have "new_pep (e2e_pep_for q) = Inr (e2e_pep_for q)"
    by (simp add: new_pep_def e2e_pep_for_def Option.is_none_def profile_defs)
  then obtain out r' where "check (\<lambda>_. None) (e2e_pep_for q) [] sample_http = Some (out, r')" using check_total by blast
  with check_allow(1) [OF this] g show ?thesis by blast
qed

lemma sample_http_ok: "http_ok sample_http" "body_shallow sample_http"
proof -
  have "unmarshal_map ''{}'' = Some (Some [])" by code_simp
  then show "body_shallow sample_http" by (simp add: body_shallow_def sample_http_def max_depth_def)
  show "http_ok sample_http" by (auto simp: http_ok_def sample_http_def ascii_def intro!: ascii_valid)
qed

lemma open_policy_grants: "opa_grants open_policy v"
  by (simp add: opa_grants_def open_policy_def mget_def)

lemma forwarded_only_if_policy_grants_witness:
  "passes_l0 (\<lambda>_. None) e2e_pep sample_http \<and> \<not> revoked_subject e2e_pep sample_http
     \<and> (\<exists>rt req. match_route (pc_routes e2e_pep) (rq_method sample_http) (rq_path sample_http) = Some rt
          \<and> fst (build_request e2e_pep sample_http rt (correlation [] sample_http)
                   (caller_of (\<lambda>_. None) e2e_pep sample_http)) = Some req
          \<and> conforms req \<and> opa_grants open_policy (VObj (input_map req)))"
proof -
  obtain out r' where c: "check (\<lambda>_. None) e2e_pep [] sample_http = Some (out, r')" "oc_kind out = Allow"
    using e2e_allowed [OF open_policy_ok open_policy_grants] by blast
  have "pc_pdp e2e_pep = Some (client_evaluate (to_facade id id (evaluate (eval_opa open_policy) sample_issuer 0)) ''http://pdp'')"
    by (simp add: e2e_pep_for_def)
  from forwarded_only_if_policy_grants [OF this e2e_ladder(4) sample_issuer_ok open_policy_ok e2e_ladder(6) sample_http_ok _ c]
  show ?thesis by simp
qed

text \<open>
  C3.  End to end with the repository's own policy: a PEP that accepts no decision tokens, in front of
  an HTTP PDP that runs the embedded policy, allows a request only if the contract request it built
  meets the contract, it has supplied every attribute the data document requires of the route's
  action, an East-West caller has a SPIFFE id, and the policy of the domain of the route's resource
  type grants the request.
\<close>

theorem forwarded_under_embedded_policy:
  assumes "pc_pdp p = Some (client_evaluate (to_facade fq je (evaluate (eval_opa (rego_query rq vd data)) i now)) base)"
    and "pc_verifier p = None" and "issuer_ok i" and "verdicts_ok vd"
    and "texts_ok p" and "http_ok r" and "body_shallow r" and "\<And>c i. idc c = Some i \<Longrightarrow> valid_utf8 i"
    and "check idc p fresh r = Some (out, r')" and "oc_kind out = Allow"
  shows "\<exists>rt req d x w. match_route (pc_routes p) (rq_method r) (rq_path r) = Some rt
     \<and> fst (build_request p r rt (correlation fresh r) (caller_of idc p r)) = Some req
     \<and> conforms req \<and> (\<forall>attr \<in> set (required_list data (rt_action rt)). supplies req attr)
     \<and> (pc_profile p = ProfileEastWest \<longrightarrow> has_prefix (caller_of idc p r) ''spiffe://'')
     \<and> named (rt_type rt) d x \<and> vd d (VObj (input_map req)) = Inr (Some (VObj w)) \<and> grants_verdict w"
proof -
  obtain rt req where g: "match_route (pc_routes p) (rq_method r) (rq_path r) = Some rt"
    "fst (build_request p r rt (correlation fresh r) (caller_of idc p r)) = Some req"
    "conforms req" "opa_grants (rego_query rq vd data) (VObj (input_map req))"
    using forwarded_granted [OF assms(1-3) rego_decisions_ok [OF assms(4)] assms(5-7) _ assms(9,10)] assms(8) by blast
  have parts: "act_name (req_action req) = rt_action rt" "res_type (req_resource req) = rt_type rt"
    using g(2) by (auto simp: build_request_def make_request_def split: prod.splits)
  obtain d x where n: "named (res_type (req_resource req)) d x" using g(3) by (auto simp: conforms_def)
  obtain w where "gates_open data req" "vd d (VObj (input_map req)) = Inr (Some (VObj w))" "grants_verdict w"
    using g(3,4) by (auto simp: rego_query_grants gates_on_contract domain_verdict_named [OF n])
  then show ?thesis
    using g(1-3) n pep_hop_gates [OF g(2)] by (fastforce simp: gates_open_def parts)
qed

definition open_domains :: "unit verdicts" where
  "open_domains d v =
     Inr (Some (VObj [(''allow'', VBool True), (''obligations'', VArr []), (''reason_code'', VStr ''ok'')]))"

lemma open_domains_ok: "verdicts_ok open_domains"
  by (auto simp: verdicts_ok_def open_domains_def smap_wf_def ascii_def max_depth_def intro!: ascii_valid)

lemma open_domains_grant:
  "opa_grants (rego_query (\<lambda>_. []) open_domains []) (VObj (input_map e2e_request))"
proof -
  have "named (res_type (req_resource e2e_request)) ''wallet'' ''account''"
    by (simp add: e2e_request_explicit named_def name_token_def lower_def name_char_def)
  moreover have "hop_identified e2e_request" using pep_hop_gates [OF e2e_build] e2e_ladder(5) profiles_differ by metis
  then have "gates_open [] e2e_request"
    by (simp add: gates_open_def required_list_def required_attributes_for_def index_def mget_Nil)
  ultimately show ?thesis
    by (simp add: rego_query_grants gates_on_contract e2e_request_conforms domain_verdict_named open_domains_def
        grants_verdict_def mget_def)
qed

lemma forwarded_under_embedded_policy_witness:
  "\<exists>rt req d x w. match_route (pc_routes (e2e_pep_for (rego_query (\<lambda>_. []) open_domains [])))
        (rq_method sample_http) (rq_path sample_http) = Some rt
     \<and> fst (build_request (e2e_pep_for (rego_query (\<lambda>_. []) open_domains [])) sample_http rt (correlation [] sample_http)
          (caller_of (\<lambda>_. None) (e2e_pep_for (rego_query (\<lambda>_. []) open_domains [])) sample_http)) = Some req
     \<and> conforms req \<and> named (rt_type rt) d x \<and> open_domains d (VObj (input_map req)) = Inr (Some (VObj w)) \<and> grants_verdict w"
proof -
  let ?q = "rego_query (\<lambda>_. []) open_domains []"
  obtain out r' where c: "check (\<lambda>_. None) (e2e_pep_for ?q) [] sample_http = Some (out, r')" "oc_kind out = Allow"
    using e2e_allowed [OF rego_decisions_ok [OF open_domains_ok] open_domains_grant] by blast
  have "pc_pdp (e2e_pep_for ?q) = Some (client_evaluate (to_facade id id (evaluate (eval_opa ?q) sample_issuer 0)) ''http://pdp'')"
    by (simp add: e2e_pep_for_def)
  from forwarded_under_embedded_policy [OF this e2e_ladder(4) sample_issuer_ok open_domains_ok e2e_ladder(6) sample_http_ok _ c]
  show ?thesis by simp blast
qed

section \<open>Decision tokens between PDP and PEP\<close>

text \<open>
  C20.  A decision token the PDP issued for a request, presented with the same request before
  it expires, is honoured by a PEP with the same secret, whatever the PDP would now say.
\<close>

theorem token_fast_path:
  assumes "passes_l0 idc p r" and "\<not> revoked_subject p r"
    and "match_route (pc_routes p) (rq_method r) (rq_path r) = Some rt"
    and "fst (build_request p r rt (correlation fresh r) (caller_of idc p r)) = Some req"
    and "fits req" and "evaluate eval i now req = Inr \<lparr>decision = True, resp_context = Some c\<rparr>"
    and "rc_token c = Some tk" and "header r HeaderDecisionToken = tok_value tk"
    and "pc_verifier p = Some (verify_token i now')" and "unix now' < unix (now + is_ttl i)"
  shows "\<forall>pdp. check idc (p\<lparr>pc_pdp := pdp\<rparr>) fresh r
           = Some (\<lparr>oc_kind = Allow, oc_reason = ''decision_token_reuse'', oc_acr = [],
                    oc_cid = correlation fresh r, oc_token = tok_value tk\<rparr>, r)"
proof
  fix pdp
  have conf: "conforms req" using assms(6) by (auto simp: evaluate_def validate_None split: option.splits)
  have tk: "tok_value tk = issue_token i now (request_claims req)"
    using assms(5-7) conf by (auto simp: evaluate_fits assemble_def split: sum.splits)
  have "tok_value tk \<noteq> []" by (simp add: tk issue_token_def seal_def seal_with_def Let_def)
  moreover have "verify_token i now' (tok_value tk) = Inr (stamp i now (request_claims req))"
    using assms(5,10) conf by (simp add: tk verify_minted)
  moreover have "token_matches (stamp i now (request_claims req)) req" by (simp add: matches_issued)
  ultimately have tg: "token_grounds p r req"
    using assms(8,9) by (auto simp: token_grounds_def)
  obtain r2 where r2: "build_request p r rt (correlation fresh r) (caller_of idc p r) = (Some req, r2)"
    using assms(4) by (metis fst_conv surj_pair)
  moreover have "r2 = r" using r2 by (rule build_request_restores)
  ultimately show "check idc (p\<lparr>pc_pdp := pdp\<rparr>) fresh r
           = Some (\<lparr>oc_kind = Allow, oc_reason = ''decision_token_reuse'', oc_acr = [],
                    oc_cid = correlation fresh r, oc_token = tok_value tk\<rparr>, r)"
    using assms(1-3,8) tg by (simp add: check_l0 check_l1_def check_l2_def) (simp add: try_token_cases token_grounds_def)
qed

definition minted :: string where
  "minted = issue_token sample_issuer 0 (request_claims e2e_request)"

definition token_pep :: "unit client_error pep_config" where
  "token_pep = e2e_pep\<lparr>pc_verifier := Some (verify_token sample_issuer 0)\<rparr>"

lemma e2e_build_token:
  "fst (build_request token_pep (set_header HeaderDecisionToken tok sample_http) sample_route
     (correlation [] (set_header HeaderDecisionToken tok sample_http))
     (caller_of (\<lambda>_. None) token_pep (set_header HeaderDecisionToken tok sample_http))) = Some e2e_request"
proof -
  have h: "header (set_header HeaderDecisionToken tok sample_http) k = header sample_http k"
    if "k \<noteq> HeaderDecisionToken" for k
    using that by (simp add: set_header_def header_def mget_mput)
  have hs: "header (set_header HeaderDecisionToken tok sample_http) HeaderCorrelationID = header sample_http HeaderCorrelationID"
    "header (set_header HeaderDecisionToken tok sample_http) HeaderSubjectID = header sample_http HeaderSubjectID"
    "header (set_header HeaderDecisionToken tok sample_http) HeaderAAL = header sample_http HeaderAAL"
    "header (set_header HeaderDecisionToken tok sample_http) HeaderPartnerID = header sample_http HeaderPartnerID"
    "header (set_header HeaderDecisionToken tok sample_http) HeaderResourceID = header sample_http HeaderResourceID"
    by (rule h, simp add: header_defs)+
  have c: "correlation [] (set_header HeaderDecisionToken tok sample_http) = correlation [] sample_http"
    by (simp add: correlation_def hs)
  have i: "client_ip (set_header HeaderDecisionToken tok sample_http) = client_ip sample_http"
    by (simp add: client_ip_def set_header_def split: option.split)
  have "pep_subject token_pep (set_header HeaderDecisionToken tok sample_http) caller = pep_subject e2e_pep sample_http []"
    for caller by (simp add: pep_subject_def hs token_pep_def e2e_pep_for_def profile_defs Let_def)
  moreover have "pep_context token_pep (set_header HeaderDecisionToken tok sample_http) cid = pep_context e2e_pep sample_http cid"
    for cid by (simp add: pep_context_def hs i token_pep_def e2e_pep_for_def Let_def)
  moreover have "rq_method (set_header HeaderDecisionToken tok sample_http) = rq_method sample_http"
    by (simp add: set_header_def)
  moreover note hs
  ultimately show ?thesis
    by (simp add: build_request_Some resource_props_def sample_route_def c)
       (simp add: make_request_def e2e_request_def sample_route_def)
qed

lemma token_fast_path_witness:
  "\<exists>tok. \<forall>pdp. check (\<lambda>_. None) (token_pep\<lparr>pc_pdp := pdp\<rparr>) [] (set_header HeaderDecisionToken tok sample_http)
     = Some (\<lparr>oc_kind = Allow, oc_reason = ''decision_token_reuse'', oc_acr = [],
              oc_cid = correlation [] (set_header HeaderDecisionToken tok sample_http), oc_token = tok\<rparr>,
             set_header HeaderDecisionToken tok sample_http)"
proof -
  have "\<exists>c tk. evaluate (eval_opa open_policy) sample_issuer 0 e2e_request
      = Inr \<lparr>decision = True, resp_context = Some c\<rparr> \<and> rc_token c = Some tk"
    by (simp add: evaluate_fits e2e_request_fits e2e_request_conforms eval_opa_def open_policy_def
        parse_decision_def get_bool_def mget_def assemble_def)
  then obtain c tk where c: "evaluate (eval_opa open_policy) sample_issuer 0 e2e_request
      = Inr \<lparr>decision = True, resp_context = Some c\<rparr>" "rc_token c = Some tk" by blast
  let ?r = "set_header HeaderDecisionToken (tok_value tk) sample_http"
  have "\<forall>pdp. check (\<lambda>_. None) (token_pep\<lparr>pc_pdp := pdp\<rparr>) [] ?r
     = Some (\<lparr>oc_kind = Allow, oc_reason = ''decision_token_reuse'', oc_acr = [],
              oc_cid = correlation [] ?r, oc_token = tok_value tk\<rparr>, ?r)"
  proof (rule token_fast_path [OF _ _ _ e2e_build_token e2e_request_fits c])
    show "passes_l0 (\<lambda>_. None) token_pep ?r" "\<not> revoked_subject token_pep ?r"
      using e2e_ladder(1,2) [of open_policy ?r] by (simp_all add: token_pep_def)
    show "match_route (pc_routes token_pep) (rq_method ?r) (rq_path ?r) = Some sample_route"
      by (simp add: token_pep_def e2e_pep_for_def match_route_def sample_route_def sample_http_def set_header_def)
    show "header ?r HeaderDecisionToken = tok_value tk"
      by (simp add: header_def set_header_def mget_mput)
    show "pc_verifier token_pep = Some (verify_token sample_issuer 0)" by (simp add: token_pep_def)
    show "unix 0 < unix (0 + is_ttl sample_issuer)"
      by (simp add: unix_id clock_ok_def in_int64_def sample_issuer_def)
  qed
  then show ?thesis by blast
qed

text \<open>
  C4.  A decision token cannot be moved to another request: one issued for a contract request
  matches another only if subject, action, resource type and resource id are the same, the
  presenter's assurance level is at least the token's, and the resource properties are the
  same up to a SHA-256 collision.
\<close>

theorem token_not_transferable:
  assumes "fits a" "conforms a" "fits b" "conforms b"
    and "verify_token i now' (issue_token i now (request_claims a)) = Inr c" and "token_matches c b"
  shows "subj_id (req_subject b) = subj_id (req_subject a) \<and> act_name (req_action b) = act_name (req_action a)
     \<and> res_type (req_resource b) = res_type (req_resource a) \<and> res_id (req_resource b) = res_id (req_resource a)
     \<and> aal_rank (auth_assurance_level (req_subject a)) \<le> aal_rank (auth_assurance_level (req_subject b))
     \<and> (res_props (req_resource b) = res_props (req_resource a)
        \<or> (marshal_map (res_props (req_resource b)) \<noteq> marshal_map (res_props (req_resource a))
           \<and> sha256 (marshal_map (res_props (req_resource b))) = sha256 (marshal_map (res_props (req_resource a)))))"
proof -
  have "c = stamp i now (request_claims a)"
    using assms(1,2,5) by (simp add: verify_minted split: if_splits)
  with assms(6) have m: "token_matches (stamp i now (request_claims a)) b" by simp
  obtain d x d' x' where n: "named (res_type (req_resource a)) d x" "named (res_type (req_resource b)) d' x'"
    using assms(2,4) by (auto simp: conforms_def)
  have eq: "res_type (req_resource a) @ ''/'' @ res_id (req_resource a)
      = res_type (req_resource b) @ ''/'' @ res_id (req_resource b)"
    using m by (simp add: matches_issued)
  note res = resource_name_inj [OF n eq]
  have "Some (sha256 (marshal_map (res_props (req_resource b)))) = Some (sha256 (marshal_map (res_props (req_resource a))))"
    using m b64_roundtrip unfolding matches_issued resource_digest_def by metis
  moreover have "res_props (req_resource b) = res_props (req_resource a)"
    if e: "marshal_map (res_props (req_resource b)) = marshal_map (res_props (req_resource a))"
  proof -
    have um: "unmarshal_map (marshal_map (res_props (req_resource r))) = Some (res_props (req_resource r))"
      if "fits r" for r
    proof (cases "res_props (req_resource r)")
      case (Some m)
      then have "wf_map m" "gdepth (VObj m) \<le> max_depth"
        using that by (auto simp: fits_def wf_request_def request_depth_def)
      then show ?thesis using unmarshal_marshal_map [of m] Some by simp
    qed (simp add: unmarshal_marshal_nil)
    show ?thesis using um [OF assms(1)] um [OF assms(3)] e by simp
  qed
  ultimately show ?thesis using m res by (auto simp: matches_issued)
qed

lemma token_not_transferable_witness:
  "let a = e2e_request in
   subj_id (req_subject a) = subj_id (req_subject a) \<and> act_name (req_action a) = act_name (req_action a)
     \<and> res_type (req_resource a) = res_type (req_resource a) \<and> res_id (req_resource a) = res_id (req_resource a)
     \<and> aal_rank (auth_assurance_level (req_subject a)) \<le> aal_rank (auth_assurance_level (req_subject a))
     \<and> (res_props (req_resource a) = res_props (req_resource a)
        \<or> (marshal_map (res_props (req_resource a)) \<noteq> marshal_map (res_props (req_resource a))
           \<and> sha256 (marshal_map (res_props (req_resource a))) = sha256 (marshal_map (res_props (req_resource a)))))"
proof -
  have "\<not> unix (0 + is_ttl sample_issuer) \<le> unix 0"
    by (simp add: unix_id clock_ok_def in_int64_def sample_issuer_def)
  then have v: "verify_token sample_issuer 0 (issue_token sample_issuer 0 (request_claims e2e_request))
      = Inr (stamp sample_issuer 0 (request_claims e2e_request))"
    by (simp add: verify_minted e2e_request_fits e2e_request_conforms)
  have m: "token_matches (stamp sample_issuer 0 (request_claims e2e_request)) e2e_request"
    by (simp add: matches_issued)
  show ?thesis
    unfolding Let_def
    by (rule token_not_transferable [OF e2e_request_fits e2e_request_conforms e2e_request_fits e2e_request_conforms v m])
qed

text \<open>
  C32.  Over JSON the fast path is lost for requests without resource properties: the PEP
  digests the empty map it built, the PDP behind the facade the nil map it decoded, so the
  token issued for such a request never matches that same request.
\<close>

theorem http_token_misses_empty_props:
  assumes "res_props (req_resource req) = Some []" and "decode_request (marshal_request req) = Some req'"
    and "fits req"
  shows "\<not> token_matches (stamp i now (request_claims req')) req"
proof -
  have "res_props (req_resource req') = None"
    using assms(2,3) decode_marshal_request [of req]
    by (simp add: fits_def norm_request_def norm_map_def assms(1))
  moreover have "marshal_map None = ''null''" "marshal_map (Some []) = ''{}''" by code_simp+
  moreover have "b64_encode (sha256 ''null'') \<noteq> b64_encode (sha256 ''{}'')"
    using sha256_null_braces b64_roundtrip by (metis option.inject)
  ultimately show ?thesis by (simp add: matches_issued resource_digest_def assms(1))
qed

lemma http_token_misses_empty_props_witness:
  "\<not> token_matches (stamp sample_issuer 0 (request_claims (norm_request e2e_request))) e2e_request"
proof (rule http_token_misses_empty_props [OF _ _ e2e_request_fits])
  show "res_props (req_resource e2e_request) = Some []" by (simp add: e2e_request_explicit)
  show "decode_request (marshal_request e2e_request) = Some (norm_request e2e_request)"
    using e2e_request_fits by (intro decode_marshal_request) (auto simp: fits_def)
qed

section \<open>Signals against decisions\<close>

text \<open>
  C6.  Continuous evaluation: once the last authentic event a receiver was pushed about a
  subject is a revocation, a PEP reading that cache allows nothing to the subject, with or
  without a decision token and whatever the PDP says, however many forged pushes came in
  between.
\<close>

theorem revocation_enforced:
  assumes "new_pep cfg = Inr p" and "pc_revocations p = Some (is_revoked (receive_all k bodies new_cache))"
    and "header r HeaderSubjectID = s" and "s \<noteq> []"
    and "filter (speaks s) (concat (map (accepted k) bodies)) = es @ [e]" and "ev_type e = EventSessionRevoked"
  shows "\<exists>out r'. check idc p fresh r = Some (out, r') \<and> oc_kind out \<noteq> Allow
     \<and> (\<exists>h txt. middleware idc p fresh r = Some (h, Reply 403 txt))"
proof -
  have "is_revoked (receive_all k bodies new_cache) s"
    using assms(5,6) by (cases es) (simp_all add: receive_all_fold rc.fold_spec)
  then have rev: "revoked_subject p r" using assms(2-4) by (simp add: revoked_subject_def)
  obtain out r' where c: "check idc p fresh r = Some (out, r')" using check_total [OF assms(1)] by blast
  have "oc_kind out \<noteq> Allow" using check_allow(1) [OF c] rev by (auto simp: allow_grounds_def)
  moreover have "oc_kind out \<noteq> DenyStepUp"
  proof (cases "passes_l0 idc p r")
    case True
    then show ?thesis using c rev by (auto simp: check_l0 check_l1_def split: option.splits)
  next
    case False
    then show ?thesis using check_not_l0(1) [OF _ c] by simp
  qed
  ultimately show ?thesis
    using c by (cases "oc_kind out") (auto simp: middleware_def respond_def Let_def deny_json_def)
qed

definition revoking_pep :: "unit client_error pep_config" where
  "revoking_pep = e2e_pep\<lparr>pc_revocations :=
     Some (is_revoked (receive_all ''k'' [Some (sign_event ''k'' 0 sample_event), None] new_cache))\<rparr>"

lemma revocation_enforced_witness:
  "\<exists>out r'. check (\<lambda>_. None) revoking_pep [] sample_http = Some (out, r') \<and> oc_kind out \<noteq> Allow
     \<and> (\<exists>h txt. middleware (\<lambda>_. None) revoking_pep [] sample_http = Some (h, Reply 403 txt))"
proof (rule revocation_enforced)
  show "new_pep revoking_pep = Inr revoking_pep"
    by (simp add: new_pep_def revoking_pep_def e2e_pep_for_def Option.is_none_def profile_defs)
  show "pc_revocations revoking_pep
      = Some (is_revoked (receive_all ''k'' [Some (sign_event ''k'' 0 sample_event), None] new_cache))"
    by (simp add: revoking_pep_def)
  show "header sample_http HeaderSubjectID = ''u-1''" by (simp add: header_def sample_http_def mget_def)
  have "accepted ''k'' (Some (sign_event ''k'' 0 sample_event)) = [sample_event\<lparr>ev_iat := unix 0\<rparr>]"
    using verify_signed [OF sample_event_wf, of "''k''" "''k''" 0] trim_seal by (simp add: accepted_def sign_event_def)
  then show "filter (speaks ''u-1'') (concat (map (accepted ''k'') [Some (sign_event ''k'' 0 sample_event), None]))
      = [] @ [sample_event\<lparr>ev_iat := unix 0\<rparr>]"
    by (simp add: accepted_def speaks_def sample_event_def)
  show "ev_type (sample_event\<lparr>ev_iat := unix 0\<rparr>) = EventSessionRevoked" by (simp add: sample_event_def)
qed simp

end
